theory Spec2Isabelle
  imports Complex_Main "HOL-Library.Multiset" "HOL-Library.Monad_Syntax"
begin

section \<open>The interaction table\<close>

text \<open>
  The notebooks keep interactions in a pandas data frame. A frame is modelled as the list
  of its rows, in frame order; a row carries its pandas index label (\<open>row_label\<close>), which
  sorting, boolean masking, \<open>copy\<close> and \<open>concat\<close> all preserve. Identifiers of students
  and modules are type parameters (integers in two data sets, strings in the third).
  Python integers are \<open>int\<close>; floating-point columns are idealised as \<open>real\<close>, and a
  missing cell (NaN, NaT, a column the frame does not have) is \<open>None\<close>.
\<close>

datatype module_type = Assessment | Lesson

record ('s, 'm) ixn =
  row_label :: nat
  student_id :: 's
  module_id :: 'm
  module_type :: module_type
  outcome :: "bool option"
  timestep :: int
  duration :: "real option"
  timestamp :: "real option"

type_synonym ('s, 'm) frame = "('s, 'm) ixn list"

text \<open>
  Comparisons of a numeric cell with a number: both \<open>x == 1\<close> and \<open>x > 0\<close> are false on
  NaN.
\<close>

definition binary_outcome :: "real option \<Rightarrow> bool" where
  "binary_outcome x = (x = Some 1 \<or> x = Some 0)"

definition positive :: "real option \<Rightarrow> bool" where
  "positive x = (case x of None \<Rightarrow> False | Some d \<Rightarrow> d > 0)"

text \<open>
  \<open>data.sort(column, inplace=True, axis=0)\<close> leaves the rows in ascending order of the
  column, the rows whose cell is missing last. pandas sorts with quicksort by default,
  which promises nothing about the order of rows with equal cells, so the sorted frame is
  not a function of the frame: \<open>sort_result col df sorted_df\<close> says that \<open>sorted_df\<close> is
  one of the frames the call may leave. A parser takes the sort as an argument
  \<open>data_sort\<close>, and its properties are proved for every \<open>data_sort\<close> whose result on
  the raw frame is a \<open>sort_result\<close>.
\<close>

definition in_order :: "'k::linorder option \<Rightarrow> 'k option \<Rightarrow> bool" where
  "in_order a b =
     (case b of None \<Rightarrow> True | Some v \<Rightarrow> (case a of None \<Rightarrow> False | Some u \<Rightarrow> u \<le> v))"

definition sort_result :: "('a \<Rightarrow> 'k::linorder option) \<Rightarrow> 'a list \<Rightarrow> 'a list \<Rightarrow> bool" where
  "sort_result col df sorted_df \<longleftrightarrow>
     mset sorted_df = mset df \<and> sorted_wrt (\<lambda>x y. in_order (col x) (col y)) sorted_df"

text \<open>
  The per-student counter loop that all three parsers share:
  \<^verbatim>\<open>
    student_timesteps = defaultdict(int)
    timesteps = [None] * len(data)
    for i, (_, ixn) in enumerate(data.iterrows()):
        student_timesteps[ixn['student_id']] += 1
        timesteps[i] = student_timesteps[ixn['student_id']]
  \<close>
  The dictionary is a total function (a \<open>defaultdict(int)\<close> reads 0 on a new key); the
  loop runs over the student column and returns the list \<open>timesteps\<close>.
\<close>

fun student_timesteps :: "('s \<Rightarrow> int) \<Rightarrow> 's list \<Rightarrow> int list" where
  "student_timesteps cnt [] = []"
| "student_timesteps cnt (s # ss) =
     (let cnt' = cnt(s := cnt s + 1) in cnt' s # student_timesteps cnt' ss)"

text \<open>
  Modelled from the spec: the reindexing of timesteps that \<open>datatools.InteractionHistory\<close>
  performs when \<open>reindex_timesteps=True\<close>. The class belongs to the \<open>lentil\<close>
  package and is not among the source files. The spec says that a re-filtered history is
  a new history "with re-indexed timesteps" and that timesteps are "contiguous per student
  starting at 1, assigned in chronological order within that student's own history". The
  new timestep of a row is the rank of its timestep among the distinct timesteps of the
  same student.
\<close>

definition timestep_rank :: "('s, 'm) frame \<Rightarrow> 's \<Rightarrow> int \<Rightarrow> int" where
  "timestep_rank data s t =
     int (length (remdups (filter (\<lambda>u. u \<le> t)
       (map timestep (filter (\<lambda>r. student_id r = s) data)))))"

text \<open>
  Modelled from the spec: the method of \<open>datatools.InteractionHistory\<close> that reindexes
  the whole table (not among the source files). Every row keeps its place and its other
  columns.
\<close>

definition reindex_timesteps :: "('s, 'm) frame \<Rightarrow> ('s, 'm) frame" where
  "reindex_timesteps data =
     map (\<lambda>r. r\<lparr>timestep := timestep_rank data (student_id r) (timestep r)\<rparr>) data"

text \<open>
  Modelled from the spec: the constructor \<open>datatools.InteractionHistory(data,
  sort_by_timestep, reindex_timesteps)\<close> (not among the source files). The spec describes
  a history as the owner of the ordered interaction table, from which the index maps are
  derived; a history is modelled as that table. \<open>reindex_timesteps\<close> reindexes it and
  \<open>sort_by_timestep\<close> sorts it by the timestep column. The properties below that are
  stated of a returned history are about its rows as a set or a multiset, so they do not
  depend on how the sort arranges rows of equal timestep.
\<close>

definition InteractionHistory :: "('s, 'm) frame \<Rightarrow> bool \<Rightarrow> bool \<Rightarrow> ('s, 'm) frame" where
  "InteractionHistory data sort_by_timestep reindex =
     (let data = (if reindex then reindex_timesteps data else data)
      in if sort_by_timestep then sort_key timestep data else data)"

section \<open>The data-set parsers\<close>

text \<open>
  Each parser sorts the raw frame (the argument \<open>data_sort\<close>), keeps the columns it
  needs, masks the rows, casts the outcome, numbers each student's rows, tags the rows as
  assessments, copies them as lessons and hands the concatenation to
  \<open>InteractionHistory\<close>. The column selection, renaming and the cast are row-wise, so
  they are one \<open>map\<close> that builds the final row from the raw row and its timestep.
\<close>

subsection \<open>Grockit\<close>

text \<open>
  \<open>round_started_at\<close> and \<open>answered_at\<close> are the two columns after \<open>pd.to_datetime\<close>
  with \<open>coerce=True\<close>: a time in seconds, or NaT. The duration is their difference
  divided by one second, NaN when either is NaT. \<open>data_sort\<close> is
  \<open>data.sort('answered_at', inplace=True, axis=0)\<close>.
\<close>

record ('s, 'm) grockit_row =
  g_label :: nat
  g_user_id :: 's
  g_correct :: "real option"
  g_question_id :: 'm
  round_started_at :: "real option"
  answered_at :: "real option"

definition g_duration :: "('s, 'm) grockit_row \<Rightarrow> real option" where
  "g_duration r =
     (case (answered_at r, round_started_at r) of
        (Some a, Some b) \<Rightarrow> Some (a - b)
      | _ \<Rightarrow> None)"

definition g_keep :: "('s, 'm) grockit_row \<Rightarrow> bool" where
  "g_keep r = (binary_outcome (g_correct r) \<and> positive (g_duration r))"

definition g_ixn :: "('s, 'm) grockit_row \<Rightarrow> int \<Rightarrow> ('s, 'm) ixn" where
  "g_ixn r t =
     \<lparr>row_label = g_label r, student_id = g_user_id r, module_id = g_question_id r,
      module_type = Assessment, outcome = Some (g_correct r = Some 1), timestep = t,
      duration = g_duration r, timestamp = answered_at r\<rparr>"

definition interaction_history_from_grockit_data_set ::
  "(('s, 'm) grockit_row list \<Rightarrow> ('s, 'm) grockit_row list)
   \<Rightarrow> ('s, 'm) grockit_row list \<Rightarrow> ('s, 'm) frame" where
  "interaction_history_from_grockit_data_set data_sort raw =
     (let sorted_raw = data_sort raw;
          kept = filter g_keep sorted_raw;
          timesteps = student_timesteps (\<lambda>_. 0) (map g_user_id kept);
          data = map2 g_ixn kept timesteps;
          lesson_data = map (\<lambda>r. r\<lparr>module_type := Lesson\<rparr>) data
      in InteractionHistory (data @ lesson_data) True False)"

subsection \<open>KDD Cup\<close>

text \<open>
  \<open>data_sort\<close> is \<open>data.sort('Step Start Time', inplace=True, axis=0)\<close>. The column
  is sorted as it was read; its values are taken from a linearly ordered type.
\<close>

record ('s, 'm, 'k) kdd_row =
  k_label :: nat
  anon_student_id :: 's
  correct_first_attempt :: "real option"
  problem_name :: 'm
  step_start_time :: "'k option"
  step_duration :: "real option"

definition k_keep :: "('s, 'm, 'k) kdd_row \<Rightarrow> bool" where
  "k_keep r = (binary_outcome (correct_first_attempt r) \<and> positive (step_duration r))"

definition k_ixn :: "('s, 'm, 'k) kdd_row \<Rightarrow> int \<Rightarrow> ('s, 'm) ixn" where
  "k_ixn r t =
     \<lparr>row_label = k_label r, student_id = anon_student_id r, module_id = problem_name r,
      module_type = Assessment, outcome = Some (correct_first_attempt r = Some 1),
      timestep = t, duration = step_duration r, timestamp = None\<rparr>"

definition interaction_history_from_kdd_cup_data_set ::
  "(('s, 'm, 'k) kdd_row list \<Rightarrow> ('s, 'm, 'k) kdd_row list)
   \<Rightarrow> ('s, 'm, 'k) kdd_row list \<Rightarrow> ('s, 'm) frame" where
  "interaction_history_from_kdd_cup_data_set data_sort raw =
     (let sorted_raw = data_sort raw;
          kept = filter k_keep sorted_raw;
          timesteps = student_timesteps (\<lambda>_. 0) (map anon_student_id kept);
          data = map2 k_ixn kept timesteps;
          lesson_data = map (\<lambda>r. r\<lparr>module_type := Lesson\<rparr>) data
      in InteractionHistory (data @ lesson_data) True False)"

subsection \<open>Assistments\<close>

text \<open>
  \<open>a_duration\<close> and \<open>a_module_id\<close> are the columns the arguments \<open>duration_column\<close>
  and \<open>module_id_column\<close> select. The duration is divided by 1000 after the mask.
  \<open>data_sort\<close> is \<open>data.sort('order_id', inplace=True, axis=0)\<close>.
\<close>

record ('s, 'm) assistments_row =
  a_label :: nat
  order_id :: "int option"
  a_user_id :: 's
  a_correct :: "real option"
  a_duration :: "real option"
  a_module_id :: 'm

definition a_keep :: "('s, 'm) assistments_row \<Rightarrow> bool" where
  "a_keep r = (binary_outcome (a_correct r) \<and> positive (a_duration r))"

definition a_ixn :: "('s, 'm) assistments_row \<Rightarrow> int \<Rightarrow> ('s, 'm) ixn" where
  "a_ixn r t =
     \<lparr>row_label = a_label r, student_id = a_user_id r, module_id = a_module_id r,
      module_type = Assessment, outcome = Some (a_correct r = Some 1), timestep = t,
      duration = map_option (\<lambda>x. x / 1000) (a_duration r), timestamp = None\<rparr>"

definition interaction_history_from_assistments_data_set ::
  "(('s, 'm) assistments_row list \<Rightarrow> ('s, 'm) assistments_row list)
   \<Rightarrow> ('s, 'm) assistments_row list \<Rightarrow> ('s, 'm) frame" where
  "interaction_history_from_assistments_data_set data_sort raw =
     (let sorted_raw = data_sort raw;
          kept = filter a_keep sorted_raw;
          timesteps = student_timesteps (\<lambda>_. 0) (map a_user_id kept);
          data = map2 a_ixn kept timesteps;
          lesson_data = map (\<lambda>r. r\<lparr>module_type := Lesson\<rparr>) data
      in InteractionHistory (data @ lesson_data) True False)"

section \<open>Filtering a history\<close>

text \<open>
  \<^verbatim>\<open>
    students = set(history.data['student_id'][(
                history.data['timestep'] > min_num_ixns) & (
                history.data['module_type']==datatools.AssessmentInteraction.MODULETYPE)])
    students -= set(history.data['student_id'][history.data['timestep'] >= max_num_ixns])
    modules = {module_id for module_id, group in history.data.groupby('module_id')
               if len(group) > min_num_ixns}
    return datatools.InteractionHistory(
        history.data[(history.data['student_id'].isin(students)) & (
                history.data['module_id'].isin(modules))],
        reindex_timesteps=True)
  \<close>
\<close>

definition filter_students :: "('s, 'm) frame \<Rightarrow> int \<Rightarrow> int \<Rightarrow> 's set" where
  "filter_students data min_num_ixns max_num_ixns =
     set (map student_id
       (filter (\<lambda>r. timestep r > min_num_ixns \<and> module_type r = Assessment) data))
     - set (map student_id (filter (\<lambda>r. timestep r \<ge> max_num_ixns) data))"

definition filter_modules :: "('s, 'm) frame \<Rightarrow> int \<Rightarrow> 'm set" where
  "filter_modules data min_num_ixns =
     set (filter (\<lambda>m. int (length (filter (\<lambda>r. module_id r = m) data)) > min_num_ixns)
       (map module_id data))"

definition filter_rows :: "('s, 'm) frame \<Rightarrow> int \<Rightarrow> int \<Rightarrow> ('s, 'm) frame" where
  "filter_rows data min_num_ixns max_num_ixns =
     filter (\<lambda>r. student_id r \<in> filter_students data min_num_ixns max_num_ixns
               \<and> module_id r \<in> filter_modules data min_num_ixns) data"

definition filter_history :: "('s, 'm) frame \<Rightarrow> int \<Rightarrow> int \<Rightarrow> ('s, 'm) frame" where
  "filter_history history min_num_ixns max_num_ixns =
     InteractionHistory (filter_rows history min_num_ixns max_num_ixns) False True"

text \<open>
  \<^verbatim>\<open>
    REPEATED_FILTER = 3
    history = reduce(
        lambda acc, _: filter_history(acc, min_num_ixns=75, max_num_ixns=1000),
        list(range(REPEATED_FILTER)), unfiltered_history)
  \<close>
\<close>

definition REPEATED_FILTER :: nat where
  "REPEATED_FILTER = 3"

definition repeated_filter :: "('s, 'm) frame \<Rightarrow> ('s, 'm) frame" where
  "repeated_filter unfiltered_history =
     fold (\<lambda>_ acc. filter_history acc 75 1000) [0..<REPEATED_FILTER] unfiltered_history"

section \<open>The synthetic 1PL/2PL generator\<close>

text \<open>
  \<^verbatim>\<open>
    num_students = 2000
    num_assessments = 3000
    num_ixns_per_student = 1000
    USING_2PL = False # False => using 1PL
  \<close>
  The embedding cells of the same notebook assign \<open>num_students\<close> and
  \<open>num_assessments\<close> again, so the constants of this scenario carry the prefix \<open>irt\<close>.
\<close>

definition irt_num_students :: nat where
  "irt_num_students = 2000"

definition irt_num_assessments :: nat where
  "irt_num_assessments = 3000"

definition num_ixns_per_student :: nat where
  "num_ixns_per_student = 1000"

definition USING_2PL :: bool where
  "USING_2PL = False"

text \<open>
  Random draws are inputs of the model. \<open>np.random.normal(0, 1, n)\<close> is an array of
  length \<open>n\<close> that the caller supplies; only \<open>np.ones\<close> is computed.
  \<^verbatim>\<open>
    if USING_2PL:
        discriminabilities = np.random.normal(0, 1, num_assessments)
    else:
        discriminabilities = np.ones(num_assessments)
  \<close>
\<close>

definition discriminabilities_of :: "bool \<Rightarrow> real list \<Rightarrow> real list" where
  "discriminabilities_of using_2pl normal_draws =
     (if using_2pl then normal_draws else replicate irt_num_assessments 1)"

text \<open>
  \<^verbatim>\<open>
    pass_likelihood = 1 / (1 + math.exp(-(discriminabilities[module_idx]
        * proficiencies[student_idx] + difficulties[module_idx])))
  \<close>
  over the reals (\<open>math.exp\<close> on floats overflows for large arguments).
\<close>

definition irt_pass_likelihood :: "real list \<Rightarrow> real list \<Rightarrow> real list \<Rightarrow> nat \<Rightarrow> nat \<Rightarrow> real" where
  "irt_pass_likelihood discriminabilities proficiencies difficulties student_idx module_idx =
     1 / (1 + exp (- (discriminabilities ! module_idx * proficiencies ! student_idx
                      + difficulties ! module_idx)))"

text \<open>
  \<open>str\<close> on a natural number is its decimal numeral.
  \<^verbatim>\<open>
    student_ids = ['S'+str(x) for x in xrange(num_students)]
    assessment_ids = ['A'+str(x) for x in xrange(num_assessments)]
  \<close>
\<close>

function str :: "nat \<Rightarrow> string" where
  "str n = (if n < 10 then [char_of (48 + n)] else str (n div 10) @ [char_of (48 + n mod 10)])"
  by pat_completeness auto
termination
  by (relation "measure id") auto

definition student_ids :: "string list" where
  "student_ids = map (\<lambda>x. ''S'' @ str x) [0..<irt_num_students]"

definition assessment_ids :: "string list" where
  "assessment_ids = map (\<lambda>x. ''A'' @ str x) [0..<irt_num_assessments]"

text \<open>
  One iteration of the inner loop. \<open>choice student_idx t\<close> is the position that
  \<open>random.choice(assessment_idxes)\<close> picks in \<open>assessment_idxes\<close> (reduced modulo its
  length, so that it is a position of the list) and \<open>u student_idx t\<close> is what
  \<open>np.random.random()\<close> returns in that iteration. The row label is the position
  \<open>student_idx * num_ixns_per_student + t\<close> in \<open>ixns\<close>.
  \<^verbatim>\<open>
        module_idx = random.choice(assessment_idxes)
        pass_likelihood = ...
        ixns[student_idx * num_ixns_per_student + t] = {
            'student_id' : student_id,
            'module_id' : assessment_ids[module_idx],
            'module_type' : datatools.AssessmentInteraction.MODULETYPE,
            'outcome' : np.random.random() < pass_likelihood,
            'timestep' : t+1
        }
  \<close>
\<close>

definition irt_ixn ::
  "real list \<Rightarrow> real list \<Rightarrow> real list \<Rightarrow> (nat \<Rightarrow> nat \<Rightarrow> nat)
   \<Rightarrow> (nat \<Rightarrow> nat \<Rightarrow> real) \<Rightarrow> nat \<Rightarrow> nat \<Rightarrow> (string, string) ixn" where
  "irt_ixn discriminabilities proficiencies difficulties choice u student_idx t =
     (let assessment_idxes = [0..<irt_num_assessments];
          module_idx = assessment_idxes ! (choice student_idx t mod length assessment_idxes);
          pass_likelihood =
            irt_pass_likelihood discriminabilities proficiencies difficulties student_idx module_idx
      in \<lparr>row_label = student_idx * num_ixns_per_student + t,
          student_id = student_ids ! student_idx,
          module_id = assessment_ids ! module_idx,
          module_type = Assessment,
          outcome = Some (u student_idx t < pass_likelihood),
          timestep = int t + 1,
          duration = None, timestamp = None\<rparr>)"

text \<open>
  The two loops, over the students and over the interactions of a student, fill \<open>ixns\<close>
  in the order of its positions.
\<close>

definition irt_ixns ::
  "real list \<Rightarrow> real list \<Rightarrow> real list \<Rightarrow> (nat \<Rightarrow> nat \<Rightarrow> nat)
   \<Rightarrow> (nat \<Rightarrow> nat \<Rightarrow> real) \<Rightarrow> (string, string) frame" where
  "irt_ixns discriminabilities proficiencies difficulties choice u =
     concat (map (\<lambda>student_idx.
       map (\<lambda>t. irt_ixn discriminabilities proficiencies difficulties choice u student_idx t)
         [0..<num_ixns_per_student])
       [0..<irt_num_students])"

section \<open>The synthetic embedding\<close>

type_synonym vec = "real list"

text \<open>\<open>np.dot\<close> and \<open>np.linalg.norm\<close> on one-dimensional arrays, and their sum.\<close>

definition dot :: "vec \<Rightarrow> vec \<Rightarrow> real" where
  "dot v w = sum_list (map2 (\<lambda>x y. x * y) v w)"

definition linalg_norm :: "vec \<Rightarrow> real" where
  "linalg_norm v = sqrt (sum_list (map (\<lambda>x. x * x) v))"

definition vadd :: "vec \<Rightarrow> vec \<Rightarrow> vec" where
  "vadd v w = map2 (\<lambda>x y. x + y) v w"

definition num_assessment_interactions_per_step :: nat where
  "num_assessment_interactions_per_step = 100"

definition grid_size :: nat where
  "grid_size = 5"

definition embedding_dimension :: nat where
  "embedding_dimension = 2"

definition num_assessments :: nat where
  "num_assessments = grid_size ^ 2"

definition num_lessons :: nat where
  "num_lessons = 2 * grid_size * (grid_size - 1)"

definition num_lesson_interactions_per_student :: nat where
  "num_lesson_interactions_per_student = 2 * (grid_size - 1) + 2"

text \<open>
  The arrays \<open>A\<close>, \<open>L\<close>, \<open>Q\<close> (a list of rows each), the two dictionaries and the
  counter of the construction cell.
\<close>

record embedding =
  emb_A :: "vec list"
  emb_L :: "vec list"
  emb_Q :: "vec list"
  lesson_idx_of_loc :: "nat \<times> nat \<times> nat \<times> nat \<rightharpoonup> nat"
  assessment_idx_of_loc :: "nat \<times> nat \<rightharpoonup> nat"
  lesson_count :: nat

text \<open>
  The body of the two nested loops over \<open>i\<close> and \<open>j\<close>:
  \<^verbatim>\<open>
        A[grid_size * i + j, :] = [i, j]
        assessment_idx_of_loc[(i, j)] = grid_size * i + j
        if j < grid_size - 1:
            Q[lesson_count, :] = [i, j]
            L[lesson_count, :] = [0, 1]
            lesson_idx_of_loc[(i, j, 0, 1)] = lesson_count
            lesson_count += 1
        if i < grid_size - 1:
            Q[lesson_count, :] = [i, j]
            L[lesson_count, :] = [1, 0]
            lesson_idx_of_loc[(i, j, 1, 0)] = lesson_count
            lesson_count += 1
  \<close>
\<close>

definition add_lesson :: "nat \<times> nat \<Rightarrow> nat \<times> nat \<Rightarrow> embedding \<Rightarrow> embedding" where
  "add_lesson loc step e =
     e\<lparr>emb_Q := (emb_Q e)[lesson_count e := [real (fst loc), real (snd loc)]],
       emb_L := (emb_L e)[lesson_count e := [real (fst step), real (snd step)]],
       lesson_idx_of_loc :=
         (lesson_idx_of_loc e)((fst loc, snd loc, fst step, snd step) \<mapsto> lesson_count e),
       lesson_count := lesson_count e + 1\<rparr>"

definition grid_cell :: "nat \<times> nat \<Rightarrow> embedding \<Rightarrow> embedding" where
  "grid_cell loc e =
     (let i = fst loc; j = snd loc;
          e = e\<lparr>emb_A := (emb_A e)[grid_size * i + j := [real i, real j]],
                assessment_idx_of_loc := (assessment_idx_of_loc e)((i, j) \<mapsto> grid_size * i + j)\<rparr>;
          e = (if j < grid_size - 1 then add_lesson (i, j) (0, 1) e else e)
      in if i < grid_size - 1 then add_lesson (i, j) (1, 0) e else e)"

text \<open>
  The whole construction cell: the zero arrays, the loops (over the pairs \<open>(i, j)\<close> in
  row-major order), the scaling by \<open>cell_size = 10 / (grid_size - 1)\<close> and the two
  element-wise \<open>np.maximum(1e-3, _)\<close>.
\<close>

definition cell_size :: real where
  "cell_size = 10 / (real grid_size - 1)"

definition scale :: "real \<Rightarrow> vec list \<Rightarrow> vec list" where
  "scale c M = map (map (\<lambda>x. x * c)) M"

definition maximum :: "real \<Rightarrow> vec list \<Rightarrow> vec list" where
  "maximum c M = map (map (max c)) M"

definition zeros :: "nat \<Rightarrow> nat \<Rightarrow> vec list" where
  "zeros n d = replicate n (replicate d 0)"

definition grid_embedding :: embedding where
  "grid_embedding =
     fold grid_cell (List.product [0..<grid_size] [0..<grid_size])
       \<lparr>emb_A = zeros num_assessments embedding_dimension,
        emb_L = zeros num_lessons embedding_dimension,
        emb_Q = zeros num_lessons embedding_dimension,
        lesson_idx_of_loc = Map.empty, assessment_idx_of_loc = Map.empty, lesson_count = 0\<rparr>"

definition synthetic_embedding :: embedding where
  "synthetic_embedding =
     (let e = grid_embedding;
          e = e\<lparr>emb_A := scale cell_size (emb_A e), emb_Q := scale cell_size (emb_Q e),
                emb_L := scale cell_size (emb_L e)\<rparr>
      in e\<lparr>emb_A := maximum (1 / 1000) (emb_A e), emb_Q := maximum (1 / 1000) (emb_Q e)\<rparr>)"

section \<open>Sampling interactions from the synthetic embedding\<close>

text \<open>
  \<^verbatim>\<open>
    pass_likelihood = 1 / (1 + math.exp(-(np.dot(S[student_idx, :, t], A[assessment_idx, :])
        / np.linalg.norm(A[assessment_idx, :]) - np.linalg.norm(A[assessment_idx, :]))))
  \<close>
  The notebook writes this expression twice, once for the first assessment of a student
  and once inside the loop.
\<close>

definition pass_likelihood :: "vec \<Rightarrow> vec \<Rightarrow> real" where
  "pass_likelihood s a = 1 / (1 + exp (- (dot s a / linalg_norm a - linalg_norm a)))"

text \<open>
  What the sampling cell reads beside the embedding. \<open>uniform k\<close> is the value of the
  \<open>k\<close>-th call of \<open>random.random()\<close> and \<open>randint_raw k\<close> decides the \<open>k\<close>-th call of
  \<open>random.randint\<close>; the shuffled \<open>steps\<close> of a student are an argument of
  \<open>sample_student\<close>. The tables \<open>assessment_loc_of_idx\<close> and \<open>lesson_loc_of_idx\<close> are
  not defined in the notebook: \<open>assessment_id_of\<close> and \<open>lesson_id_of\<close> stand for
  \<open>id_of_loc\<close> after them. \<open>per_step\<close> is the bound of the inner loop, in the notebook
  \<open>num_assessment_interactions_per_step\<close>.
\<close>

record ('s, 'm) sampling =
  the_embedding :: embedding
  student_name :: 's
  assessment_id_of :: "nat \<Rightarrow> 'm"
  lesson_id_of :: "nat \<Rightarrow> 'm"
  uniform :: "nat \<Rightarrow> real"
  randint_raw :: "nat \<Rightarrow> nat"
  per_step :: nat

text \<open>
  The state of the cell while it samples one student: the student's slice of \<open>S\<close> as
  the list of the vectors \<open>S[student_idx, :, t]\<close>, the position \<open>(x, y)\<close>, the timestep
  \<open>t\<close>, the list \<open>data\<close> and the number of calls made to each random function.
\<close>

record ('s, 'm) sampler =
  S_student :: "vec list"
  loc_x :: nat
  loc_y :: nat
  t_now :: nat
  rows :: "('s, 'm) frame"
  n_random :: nat
  n_randint :: nat

text \<open>
  An index out of range raises \<open>IndexError\<close> and a missing key raises \<open>KeyError\<close>; both
  end the cell, which is the result \<open>None\<close>.
\<close>

definition item :: "'a list \<Rightarrow> nat \<Rightarrow> 'a option" where
  "item xs i = (if i < length xs then Some (xs ! i) else None)"

definition randint :: "('s, 'm) sampling \<Rightarrow> nat \<Rightarrow> nat \<Rightarrow> nat" where
  "randint env k n = randint_raw env k mod n"

definition assessment_row ::
  "('s, 'm) sampling \<Rightarrow> ('s, 'm) sampler \<Rightarrow> nat \<Rightarrow> bool \<Rightarrow> ('s, 'm) ixn" where
  "assessment_row env st assessment_idx b =
     \<lparr>row_label = length (rows st), student_id = student_name env,
      module_id = assessment_id_of env assessment_idx, module_type = Assessment,
      outcome = Some b, timestep = int (t_now st), duration = None, timestamp = None\<rparr>"

definition lesson_row :: "('s, 'm) sampling \<Rightarrow> ('s, 'm) sampler \<Rightarrow> nat \<Rightarrow> ('s, 'm) ixn" where
  "lesson_row env st lesson_idx =
     \<lparr>row_label = length (rows st), student_id = student_name env,
      module_id = lesson_id_of env lesson_idx, module_type = Lesson,
      outcome = None, timestep = int (t_now st), duration = None, timestamp = None\<rparr>"

text \<open>
  The first assessment of a student, at the origin of the grid:
  \<^verbatim>\<open>
    assessment_idx = assessment_idx_of_loc[(0, 0)]
    pass_likelihood = ...
    outcome = random.random() < pass_likelihood
    data.append({...})
  \<close>
\<close>

definition first_assessment ::
  "('s, 'm) sampling \<Rightarrow> nat \<Rightarrow> ('s, 'm) sampler \<Rightarrow> ('s, 'm) sampler option" where
  "first_assessment env assessment_idx st = do {
     s \<leftarrow> item (S_student st) (t_now st);
     a \<leftarrow> item (emb_A (the_embedding env)) assessment_idx;
     let outcome = uniform env (n_random st) < pass_likelihood s a;
     Some (st\<lparr>rows := rows st @ [assessment_row env st assessment_idx outcome],
              n_random := n_random st + 1\<rparr>)
   }"

text \<open>
  The body of the inner loop:
  \<^verbatim>\<open>
            assessment_idx = random.randint(0, num_assessments - 1)
            pass_likelihood = ...
            outcome = random.random() < pass_likelihood
            # BEGIN DEBUG
            if assessment_idx_of_loc[(0, 0)] == assessment_idx:
                outcome = random.random() < 0.1
            # END DEBUG
            data.append({...})
  \<close>
  \<open>origin\<close> is \<open>assessment_idx_of_loc[(0, 0)]\<close>, which the cell has looked up before
  the loop and which no statement changes.
\<close>

definition sample_assessment ::
  "('s, 'm) sampling \<Rightarrow> nat \<Rightarrow> ('s, 'm) sampler \<Rightarrow> ('s, 'm) sampler option" where
  "sample_assessment env origin st = do {
     let assessment_idx = randint env (n_randint st) num_assessments;
     s \<leftarrow> item (S_student st) (t_now st);
     a \<leftarrow> item (emb_A (the_embedding env)) assessment_idx;
     let outcome = uniform env (n_random st) < pass_likelihood s a;
     let st = st\<lparr>n_random := n_random st + 1, n_randint := n_randint st + 1\<rparr>;
     let (outcome, st) =
       (if origin = assessment_idx
        then (uniform env (n_random st) < 1 / 10, st\<lparr>n_random := n_random st + 1\<rparr>)
        else (outcome, st));
     Some (st\<lparr>rows := rows st @ [assessment_row env st assessment_idx outcome]\<rparr>)
   }"

fun assessments ::
  "('s, 'm) sampling \<Rightarrow> nat \<Rightarrow> nat \<Rightarrow> ('s, 'm) sampler \<Rightarrow> ('s, 'm) sampler option" where
  "assessments env origin 0 st = Some st"
| "assessments env origin (Suc n) st =
     sample_assessment env origin st \<bind> assessments env origin n"

text \<open>
  The loop over the steps of a student:
  \<^verbatim>\<open>
    for i, j in steps:
        lesson_idx = lesson_idx_of_loc[(x, y, i, j)]
        data.append({...})
        x += i
        y += j
        S[student_idx, :, t+1] = S[student_idx, :, t] + L[lesson_idx, :]
        t += 1
        for _ in range(num_assessment_interactions_per_step):
            ...
  \<close>
  (the factor that would gate the lesson by its prerequisites is commented out in the
  notebook).
\<close>

fun lesson_steps ::
  "('s, 'm) sampling \<Rightarrow> nat \<Rightarrow> (nat \<times> nat) list \<Rightarrow> ('s, 'm) sampler \<Rightarrow> ('s, 'm) sampler option"
  where
  "lesson_steps env origin [] st = Some st"
| "lesson_steps env origin (step # steps) st = do {
     lesson_idx \<leftarrow> lesson_idx_of_loc (the_embedding env) (loc_x st, loc_y st, fst step, snd step);
     let st = st\<lparr>rows := rows st @ [lesson_row env st lesson_idx]\<rparr>;
     let st = st\<lparr>loc_x := loc_x st + fst step, loc_y := loc_y st + snd step\<rparr>;
     s \<leftarrow> item (S_student st) (t_now st);
     l \<leftarrow> item (emb_L (the_embedding env)) lesson_idx;
     st \<leftarrow> (if t_now st + 1 < length (S_student st)
            then Some (st\<lparr>S_student := (S_student st)[t_now st + 1 := vadd s l]\<rparr>)
            else None);
     let st = st\<lparr>t_now := t_now st + 1\<rparr>;
     st \<leftarrow> assessments env origin (per_step env) st;
     lesson_steps env origin steps st
   }"

text \<open>
  One iteration of the loop over the students, from the state the previous students
  left (\<open>data\<close> and the two call counters); the student's slice of \<open>S\<close> is still the
  zero array \<open>np.zeros\<close> made.
\<close>

definition sample_student ::
  "('s, 'm) sampling \<Rightarrow> (nat \<times> nat) list \<Rightarrow> ('s, 'm) frame \<Rightarrow> nat \<Rightarrow> nat
   \<Rightarrow> ('s, 'm) sampler option" where
  "sample_student env steps data k_random k_randint = do {
     let st = \<lparr>S_student = zeros num_lesson_interactions_per_student embedding_dimension,
                loc_x = 0, loc_y = 0, t_now = 1, rows = data,
                n_random = k_random, n_randint = k_randint\<rparr>;
     origin \<leftarrow> assessment_idx_of_loc (the_embedding env) (0, 0);
     st \<leftarrow> first_assessment env origin st;
     lesson_steps env origin steps st
   }"

section \<open>Vocabulary of the properties\<close>

subsection \<open>Parsers\<close>

text \<open>
  One of the frames \<open>data.sort\<close> may leave, the one that keeps rows of equal cells in
  frame order. The examples below are evaluated with it.
\<close>

definition stable_sort_values :: "('a \<Rightarrow> 'k::linorder option) \<Rightarrow> 'a list \<Rightarrow> 'a list" where
  "stable_sort_values col df =
     sort_key (\<lambda>r. the (col r)) (filter (\<lambda>r. col r \<noteq> None) df) @ filter (\<lambda>r. col r = None) df"

text \<open>
  What the three parsers do after the mask, for any builder \<open>mk\<close> of rows: number the
  kept rows per student, copy them as lessons and sort the concatenation by timestep.
  Each parser is this function at its own columns (lemmas \<open>grockit_unfold\<close>,
  \<open>kdd_unfold\<close>, \<open>assistments_unfold\<close>).
\<close>

definition number_and_copy ::
  "('r \<Rightarrow> 's) \<Rightarrow> ('r \<Rightarrow> int \<Rightarrow> ('s, 'm) ixn) \<Rightarrow> 'r list \<Rightarrow> ('s, 'm) frame" where
  "number_and_copy uid mk kept =
     (let data = map2 mk kept (student_timesteps (\<lambda>_. 0) (map uid kept))
      in sort_key timestep (data @ map (\<lambda>r. r\<lparr>module_type := Lesson\<rparr>) data))"

text \<open>
  What the three row builders \<open>g_ixn\<close>, \<open>k_ixn\<close> and \<open>a_ixn\<close> have in common.
\<close>

definition row_builder ::
  "('r \<Rightarrow> 's) \<Rightarrow> ('r \<Rightarrow> nat) \<Rightarrow> ('r \<Rightarrow> int \<Rightarrow> ('s, 'm) ixn) \<Rightarrow> bool" where
  "row_builder uid lab mk \<longleftrightarrow>
     (\<forall>x t. student_id (mk x t) = uid x \<and> timestep (mk x t) = t
          \<and> module_type (mk x t) = Assessment \<and> row_label (mk x t) = lab x
          \<and> outcome (mk x t) \<noteq> None)"

text \<open>
  The timesteps of one student in a history, and the invariant of the data model: they
  are the integers from 1 to their number.
\<close>

definition timesteps_of :: "('s, 'm) frame \<Rightarrow> 's \<Rightarrow> int set" where
  "timesteps_of h s = set (map timestep (filter (\<lambda>r. student_id r = s) h))"

definition contiguous_timesteps :: "('s, 'm) frame \<Rightarrow> bool" where
  "contiguous_timesteps h \<longleftrightarrow>
     (\<forall>s \<in> set (map student_id h). timesteps_of h s = {1 .. int (card (timesteps_of h s))})"

text \<open>
  Chronological numbering, stated on the time column of the raw frame: whenever two kept
  raw rows of one student both have a time and the time of the first is before the time
  of the second, every row of the history that carries the label of the first has a
  smaller timestep than every row that carries the label of the second.
\<close>

definition earlier :: "'k::linorder option \<Rightarrow> 'k option \<Rightarrow> bool" where
  "earlier a b = (case (a, b) of (Some u, Some v) \<Rightarrow> u < v | _ \<Rightarrow> False)"

definition chronological ::
  "('r \<Rightarrow> 's) \<Rightarrow> ('r \<Rightarrow> nat) \<Rightarrow> ('r \<Rightarrow> 'k::linorder option) \<Rightarrow> 'r list
   \<Rightarrow> ('s, 'm) frame \<Rightarrow> bool" where
  "chronological uid lab col kept h \<longleftrightarrow>
     (\<forall>x \<in> set kept. \<forall>y \<in> set kept. uid x = uid y \<and> earlier (col x) (col y) \<longrightarrow>
        (\<forall>r1 \<in> set h. \<forall>r2 \<in> set h. row_label r1 = lab x \<and> row_label r2 = lab y \<longrightarrow>
           timestep r1 < timestep r2))"

text \<open>
  \<open>new\<close> is \<open>old\<close> with other timesteps, and two rows of one student compare in
  \<open>new\<close> as they do in \<open>old\<close>.
\<close>

definition order_preserved :: "('s, 'm) frame \<Rightarrow> ('s, 'm) frame \<Rightarrow> bool" where
  "order_preserved old new \<longleftrightarrow>
     length new = length old \<and>
     (\<forall>i < length old. new ! i = (old ! i)\<lparr>timestep := timestep (new ! i)\<rparr> \<and>
        (\<forall>j < length old. student_id (old ! i) = student_id (old ! j) \<longrightarrow>
           (timestep (old ! i) \<le> timestep (old ! j)
            \<longleftrightarrow> timestep (new ! i) \<le> timestep (new ! j))))"

text \<open>
  The rows the spec's sentence keeps: the student's number of assessment interactions is
  in the closed interval from the minimum to the maximum, and the module has more than
  the minimum number of interactions.
\<close>

definition spec_retained :: "('s, 'm) frame \<Rightarrow> int \<Rightarrow> int \<Rightarrow> ('s, 'm) ixn \<Rightarrow> bool" where
  "spec_retained h min_num_ixns max_num_ixns r \<longleftrightarrow>
     (let n = int (length (filter
                (\<lambda>x. student_id x = student_id r \<and> module_type x = Assessment) h))
      in min_num_ixns \<le> n \<and> n \<le> max_num_ixns)
     \<and> int (length (filter (\<lambda>x. module_id x = module_id r) h)) > min_num_ixns"

text \<open>
  The rows the mask of \<open>filter_history\<close> keeps, stated on the rows of the input.
\<close>

definition code_retained :: "('s, 'm) frame \<Rightarrow> int \<Rightarrow> int \<Rightarrow> ('s, 'm) ixn \<Rightarrow> bool" where
  "code_retained h min_num_ixns max_num_ixns r \<longleftrightarrow>
     (\<exists>a \<in> set h. student_id a = student_id r \<and> module_type a = Assessment
        \<and> timestep a > min_num_ixns)
     \<and> (\<forall>b \<in> set h. student_id b = student_id r \<longrightarrow> timestep b < max_num_ixns)
     \<and> int (length (filter (\<lambda>x. module_id x = module_id r) h)) > min_num_ixns"

text \<open>
  Small histories and raw frames on which the functions are evaluated.
\<close>

definition ixn_row :: "nat \<Rightarrow> nat \<Rightarrow> nat \<Rightarrow> module_type \<Rightarrow> int \<Rightarrow> (nat, nat) ixn" where
  "ixn_row l s m ty t =
     \<lparr>row_label = l, student_id = s, module_id = m, module_type = ty, outcome = Some True,
      timestep = t, duration = Some 1, timestamp = None\<rparr>"

definition one_interaction_history :: "(nat, nat) frame" where
  "one_interaction_history = [ixn_row 0 1 7 Assessment 1, ixn_row 0 1 7 Lesson 1]"

definition two_student_history :: "(nat, nat) frame" where
  "two_student_history =
     [ixn_row 0 1 7 Assessment 1, ixn_row 0 1 7 Lesson 1,
      ixn_row 1 2 7 Assessment 1, ixn_row 1 2 7 Lesson 1,
      ixn_row 2 1 7 Assessment 2, ixn_row 2 1 7 Lesson 2]"

text \<open>
  The lesson rows are the assessment rows with the module type replaced, with
  multiplicity; there are as many of the one as of the other; every row has an outcome.
\<close>

definition lesson_twins :: "('s, 'm) frame \<Rightarrow> bool" where
  "lesson_twins h \<longleftrightarrow>
     mset (filter (\<lambda>r. module_type r = Lesson) h)
       = image_mset (\<lambda>r. r\<lparr>module_type := Lesson\<rparr>)
           (mset (filter (\<lambda>r. module_type r = Assessment) h))
     \<and> length (filter (\<lambda>r. module_type r = Lesson) h)
       = length (filter (\<lambda>r. module_type r = Assessment) h)
     \<and> (\<forall>r \<in> set h. outcome r \<noteq> None)"

definition grockit_example :: "(nat, nat) grockit_row list" where
  "grockit_example =
     [\<lparr>g_label = 0, g_user_id = 1, g_correct = Some 1, g_question_id = 7,
        round_started_at = Some 100, answered_at = Some 130\<rparr>,
      \<lparr>g_label = 1, g_user_id = 1, g_correct = Some 2, g_question_id = 8,
        round_started_at = Some 10, answered_at = Some 20\<rparr>,
      \<lparr>g_label = 2, g_user_id = 1, g_correct = Some 0, g_question_id = 8,
        round_started_at = Some 50, answered_at = Some 60\<rparr>,
      \<lparr>g_label = 3, g_user_id = 2, g_correct = Some 1, g_question_id = 7,
        round_started_at = Some 70, answered_at = Some 70\<rparr>,
      \<lparr>g_label = 4, g_user_id = 2, g_correct = None, g_question_id = 7,
        round_started_at = Some 70, answered_at = None\<rparr>]"

definition kdd_example :: "(nat, nat, nat) kdd_row list" where
  "kdd_example =
     [\<lparr>k_label = 0, anon_student_id = 1, correct_first_attempt = Some 1, problem_name = 7,
        step_start_time = Some 30, step_duration = Some 12\<rparr>,
      \<lparr>k_label = 1, anon_student_id = 1, correct_first_attempt = Some 0, problem_name = 8,
        step_start_time = Some 10, step_duration = Some 5\<rparr>,
      \<lparr>k_label = 2, anon_student_id = 1, correct_first_attempt = Some 1, problem_name = 8,
        step_start_time = Some 20, step_duration = None\<rparr>,
      \<lparr>k_label = 3, anon_student_id = 2, correct_first_attempt = Some (1/2), problem_name = 7,
        step_start_time = Some 5, step_duration = Some 3\<rparr>]"

definition assistments_example :: "(nat, nat) assistments_row list" where
  "assistments_example =
     [\<lparr>a_label = 0, order_id = Some 30, a_user_id = 1, a_correct = Some 1,
        a_duration = Some 4000, a_module_id = 7\<rparr>,
      \<lparr>a_label = 1, order_id = Some 10, a_user_id = 1, a_correct = Some 0,
        a_duration = Some 2000, a_module_id = 8\<rparr>,
      \<lparr>a_label = 2, order_id = Some 20, a_user_id = 1, a_correct = Some 1,
        a_duration = Some 0, a_module_id = 8\<rparr>,
      \<lparr>a_label = 3, order_id = Some 40, a_user_id = 2, a_correct = Some 1,
        a_duration = Some (-5), a_module_id = 7\<rparr>]"

text \<open>
  A raw Assistments frame in which two rows of one student have the same \<open>order_id\<close>,
  and a sort that leaves rows of equal cells in the reverse of their frame order.
\<close>

definition tied_example :: "(nat, nat) assistments_row list" where
  "tied_example =
     [\<lparr>a_label = 0, order_id = Some 10, a_user_id = 1, a_correct = Some 1,
        a_duration = Some 4000, a_module_id = 7\<rparr>,
      \<lparr>a_label = 1, order_id = Some 10, a_user_id = 1, a_correct = Some 0,
        a_duration = Some 2000, a_module_id = 8\<rparr>,
      \<lparr>a_label = 2, order_id = Some 5, a_user_id = 1, a_correct = Some 1,
        a_duration = Some 1000, a_module_id = 8\<rparr>]"

definition reversing_sort_values :: "('a \<Rightarrow> 'k::linorder option) \<Rightarrow> 'a list \<Rightarrow> 'a list" where
  "reversing_sort_values col df = stable_sort_values col (rev df)"

definition gapped_history :: "(nat, nat) frame" where
  "gapped_history =
     [ixn_row 0 1 7 Assessment 2, ixn_row 1 1 7 Assessment 5, ixn_row 2 1 7 Assessment 9,
      ixn_row 3 2 7 Assessment 4, ixn_row 4 1 8 Assessment 3]"

subsection \<open>Generators\<close>

text \<open>
  Every row of a matrix has \<open>embedding_dimension\<close> entries.
\<close>

definition rows_of_dimension :: "vec list \<Rightarrow> bool" where
  "rows_of_dimension M \<longleftrightarrow> (\<forall>v \<in> set M. length v = embedding_dimension)"

text \<open>
  The logistic function of the spec.
\<close>

definition sigmoid :: "real \<Rightarrow> real" where
  "sigmoid x = 1 / (1 + exp (- x))"

text \<open>
  The 1PL logit as the spec writes it, proficiency minus difficulty.
\<close>

definition onepl_logit_spec :: "real \<Rightarrow> real \<Rightarrow> real" where
  "onepl_logit_spec proficiency difficulty = proficiency - difficulty"

text \<open>
  Modelled from the spec: the scoring function of \<open>models.EmbeddingModel\<close>, a class of
  the \<open>lentil\<close> package that is not among the source files. The spec gives the logit
  as the dot product of the skill state and the assessment embedding, divided by the norm
  of the assessment embedding, minus that norm, plus the two bias terms.
\<close>

definition embedding_logit_spec :: "vec \<Rightarrow> vec \<Rightarrow> real \<Rightarrow> real \<Rightarrow> real" where
  "embedding_logit_spec skill_state assessment_embedding student_bias assessment_bias =
     dot skill_state assessment_embedding / linalg_norm assessment_embedding
     - linalg_norm assessment_embedding + student_bias + assessment_bias"

text \<open>
  Modelled from the spec: the pass probability of \<open>models.EmbeddingModel\<close> is the
  sigmoid of the logit, the two bias terms being zero when bias is disabled.
\<close>

definition embedding_pass_probability_spec :: "bool \<Rightarrow> vec \<Rightarrow> vec \<Rightarrow> real \<Rightarrow> real \<Rightarrow> real" where
  "embedding_pass_probability_spec using_bias skill_state assessment_embedding student_bias
       assessment_bias =
     sigmoid (embedding_logit_spec skill_state assessment_embedding
       (if using_bias then student_bias else 0) (if using_bias then assessment_bias else 0))"

text \<open>
  The success probability behind an outcome of the sampling cell: one in ten for the
  assessment at the origin drawn inside the loop over the steps (where the timestep is
  above 1), the pass probability of the spec without bias everywhere else.
\<close>

definition success_probability ::
  "('s, 'm) sampling \<Rightarrow> nat \<Rightarrow> vec list \<Rightarrow> int \<Rightarrow> nat \<Rightarrow> real" where
  "success_probability env origin S t a =
     (if a = origin \<and> 1 < t then 1 / 10
      else embedding_pass_probability_spec False (S ! nat t) (emb_A (the_embedding env) ! a) 0 0)"

text \<open>
  An assessment row is explained when its outcome is the comparison of one of the first
  \<open>n\<close> uniform draws with the success probability of its assessment at its timestep.
\<close>

definition explained ::
  "('s, 'm) sampling \<Rightarrow> nat \<Rightarrow> vec list \<Rightarrow> nat \<Rightarrow> ('s, 'm) ixn \<Rightarrow> bool" where
  "explained env origin S n r \<longleftrightarrow>
     (\<exists>k < n. \<exists>a < length (emb_A (the_embedding env)).
        module_id r = assessment_id_of env a \<and> 1 \<le> timestep r \<and> nat (timestep r) < length S \<and>
        outcome r = Some (uniform env k < success_probability env origin S (timestep r) a))"

text \<open>
  The skill state after the timestep of a lesson row is the state at that timestep plus
  the embedding of the lesson.
\<close>

definition lesson_applied :: "('s, 'm) sampling \<Rightarrow> vec list \<Rightarrow> ('s, 'm) ixn \<Rightarrow> bool" where
  "lesson_applied env S r \<longleftrightarrow>
     (\<exists>l < length (emb_L (the_embedding env)).
        module_id r = lesson_id_of env l \<and> 1 \<le> timestep r \<and> nat (timestep r) + 1 < length S \<and>
        S ! (nat (timestep r) + 1) = vadd (S ! nat (timestep r)) (emb_L (the_embedding env) ! l))"

text \<open>
  The invariant of the sampling loops, for the rows added since position \<open>n0\<close>.
\<close>

definition sampler_inv ::
  "('s, 'm) sampling \<Rightarrow> nat \<Rightarrow> nat \<Rightarrow> ('s, 'm) sampler \<Rightarrow> bool" where
  "sampler_inv env origin n0 st \<longleftrightarrow>
     1 \<le> t_now st \<and> n0 \<le> length (rows st) \<and>
     (\<forall>r \<in> set (drop n0 (rows st)).
        (module_type r = Assessment \<longrightarrow>
           timestep r \<le> int (t_now st) \<and> explained env origin (S_student st) (n_random st) r) \<and>
        (module_type r = Lesson \<longrightarrow>
           timestep r < int (t_now st) \<and> lesson_applied env (S_student st) r))"

text \<open>
  The replay of one row against the two random streams. \<open>c\<close> holds the number of
  calls of \<open>random.random\<close> and of \<open>random.randint\<close> made before the row. A lesson
  row uses no draw. The assessment row at timestep 1 is on the assessment at the origin
  and its outcome is the comparison of the next uniform draw with the success probability.
  An assessment row at a later timestep is on the assessment that the next
  \<open>random.randint\<close> picks; its outcome is the comparison of one uniform draw with the
  success probability of that assessment at the timestep of the row: the next draw, or
  the one after it when the assessment is the one at the origin (the next draw is then
  made and not used). The result is the number of calls after the row, or \<open>None\<close> when
  the row is not the one these draws give.
\<close>

definition draws_of_row ::
  "('s, 'm) sampling \<Rightarrow> nat \<Rightarrow> vec list \<Rightarrow> nat \<times> nat \<Rightarrow> ('s, 'm) ixn \<Rightarrow> (nat \<times> nat) option" where
  "draws_of_row env origin S c r =
     (let k = fst c; j = snd c in
      if module_type r = Lesson then Some (k, j)
      else if timestep r = 1 then
        (if module_id r = assessment_id_of env origin
            \<and> origin < length (emb_A (the_embedding env)) \<and> 1 < length S
            \<and> outcome r = Some (uniform env k < success_probability env origin S 1 origin)
         then Some (k + 1, j) else None)
      else
        (let a = randint env j num_assessments;
             k' = (if a = origin then k + 1 else k) in
         if module_id r = assessment_id_of env a
            \<and> a < length (emb_A (the_embedding env))
            \<and> 1 < timestep r \<and> nat (timestep r) < length S
            \<and> outcome r = Some (uniform env k' < success_probability env origin S (timestep r) a)
         then Some (k' + 1, j + 1) else None))"

text \<open>
  The replay of a list of rows, each from the counters the rows before it left.
\<close>

fun draws_of_rows ::
  "('s, 'm) sampling \<Rightarrow> nat \<Rightarrow> vec list \<Rightarrow> nat \<times> nat \<Rightarrow> ('s, 'm) frame \<Rightarrow> (nat \<times> nat) option" where
  "draws_of_rows env origin S c [] = Some c"
| "draws_of_rows env origin S c (r # rs) =
     draws_of_row env origin S c r \<bind> (\<lambda>c'. draws_of_rows env origin S c' rs)"

text \<open>
  The invariant of the sampling loops for the replay of the rows added since position
  \<open>n0\<close>, from the counters \<open>c0\<close>.
\<close>

definition replay_inv ::
  "('s, 'm) sampling \<Rightarrow> nat \<Rightarrow> nat \<Rightarrow> nat \<times> nat \<Rightarrow> ('s, 'm) sampler \<Rightarrow> bool" where
  "replay_inv env origin n0 c0 st \<longleftrightarrow>
     1 \<le> t_now st \<and> n0 \<le> length (rows st) \<and>
     draws_of_rows env origin (S_student st) c0 (drop n0 (rows st))
       = Some (n_random st, n_randint st) \<and>
     (\<forall>r \<in> set (drop n0 (rows st)). module_type r = Assessment \<longrightarrow> timestep r \<le> int (t_now st))"

text \<open>
  The state after the statements of one step that precede the inner loop.
\<close>

definition after_lesson ::
  "('s, 'm) sampling \<Rightarrow> nat \<times> nat \<Rightarrow> nat \<Rightarrow> ('s, 'm) sampler \<Rightarrow> ('s, 'm) sampler" where
  "after_lesson env step lesson_idx st =
     st\<lparr>rows := rows st @ [lesson_row env st lesson_idx],
        loc_x := loc_x st + fst step, loc_y := loc_y st + snd step,
        S_student := (S_student st)[t_now st + 1 :=
          vadd (S_student st ! t_now st) (emb_L (the_embedding env) ! lesson_idx)],
        t_now := t_now st + 1\<rparr>"

text \<open>
  Every lookup of \<open>lesson_idx_of_loc\<close> along a list of steps finds a lesson.
\<close>

fun path_ok :: "embedding \<Rightarrow> nat \<Rightarrow> nat \<Rightarrow> (nat \<times> nat) list \<Rightarrow> bool" where
  "path_ok e x y [] = True"
| "path_ok e x y (step # steps) =
     (case lesson_idx_of_loc e (x, y, fst step, snd step) of
        None \<Rightarrow> False
      | Some l \<Rightarrow> l < length (emb_L e) \<and> path_ok e (x + fst step) (y + snd step) steps)"

text \<open>
  One run of the sampling cell: the steps as \<open>random.shuffle\<close> may leave them, every
  \<open>random.random()\<close> equal to one half and every \<open>random.randint\<close> equal to 0.
  Assessments are named by \<open>Inl\<close> of their index and lessons by \<open>Inr\<close>.
\<close>

definition debug_steps :: "(nat \<times> nat) list" where
  "debug_steps = [(0, 1), (0, 1), (0, 1), (0, 1), (1, 0), (1, 0), (1, 0), (1, 0)]"

definition debug_sampling :: "(nat, nat + nat) sampling" where
  "debug_sampling =
     \<lparr>the_embedding = synthetic_embedding, student_name = 0,
      assessment_id_of = Inl, lesson_id_of = Inr,
      uniform = (\<lambda>_. 1 / 2), randint_raw = (\<lambda>_. 0),
      per_step = num_assessment_interactions_per_step\<rparr>"

definition debug_run :: "(nat, nat + nat) sampler" where
  "debug_run = the (sample_student debug_sampling debug_steps [] 0 0)"

text \<open>
  A second run, in which every \<open>random.randint\<close> is 1, so that no assessment inside the
  loop is the one at the origin, and the second \<open>random.random()\<close> is 0 while all the
  others are 1.
\<close>

definition plain_sampling :: "(nat, nat + nat) sampling" where
  "plain_sampling =
     \<lparr>the_embedding = synthetic_embedding, student_name = 0,
      assessment_id_of = Inl, lesson_id_of = Inr,
      uniform = (\<lambda>k. if k = 1 then 0 else 1), randint_raw = (\<lambda>_. 1),
      per_step = num_assessment_interactions_per_step\<rparr>"

definition plain_run :: "(nat, nat + nat) sampler" where
  "plain_run = the (sample_student plain_sampling debug_steps [] 0 0)"

text \<open>
  The steps of a student before they are shuffled:
  \<^verbatim>\<open>
    steps = ([(0, 1)] * (grid_size - 1)) +  ([(1, 0)] * (grid_size - 1))
    random.shuffle(steps)
  \<close>
\<close>

definition unshuffled_steps :: "(nat \<times> nat) list" where
  "unshuffled_steps = replicate (grid_size - 1) (0, 1) @ replicate (grid_size - 1) (1, 0)"

section \<open>Parsers and filtering: properties\<close>

lemma length_student_timesteps [simp]: "length (student_timesteps cnt ss) = length ss"
  by (induction ss arbitrary: cnt) (simp_all add: Let_def)

lemma student_timesteps_filter:
  "filter (\<lambda>(x, t). uid x = s) (zip xs (student_timesteps cnt (map uid xs)))
   = zip (filter (\<lambda>x. uid x = s) xs)
       [cnt s + 1 .. cnt s + int (length (filter (\<lambda>x. uid x = s) xs))]"
proof (induction xs arbitrary: cnt)
  case Nil
  then show ?case by simp
next
  case (Cons x xs)
  let ?cnt = "cnt(uid x := cnt (uid x) + 1)"
  show ?case
  proof (cases "uid x = s")
    case True
    let ?n = "int (length (filter (\<lambda>x. uid x = s) xs))"
    have c: "?cnt s = cnt s + 1" using True by simp
    have "[cnt s + 1 .. cnt s + (1 + ?n)] = (cnt s + 1) # [cnt s + 1 + 1 .. cnt s + 1 + ?n]"
      by (subst upto_rec1) (simp_all add: add.assoc)
    then have u: "[cnt s + 1 .. cnt s + (1 + ?n)] = (cnt s + 1) # [?cnt s + 1 .. ?cnt s + ?n]"
      by (simp only: c)
    have "filter (\<lambda>(x, t). uid x = s) (zip (x # xs) (student_timesteps cnt (map uid (x # xs))))
          = (x, cnt s + 1) # filter (\<lambda>(x, t). uid x = s) (zip xs (student_timesteps ?cnt (map uid xs)))"
      using True by (simp add: Let_def)
    also have "\<dots> = (x, cnt s + 1) # zip (filter (\<lambda>x. uid x = s) xs) [?cnt s + 1 .. ?cnt s + ?n]"
      by (simp only: Cons.IH [of ?cnt])
    also have "\<dots> = zip (filter (\<lambda>x. uid x = s) (x # xs))
                 [cnt s + 1 .. cnt s + int (length (filter (\<lambda>x. uid x = s) (x # xs)))]"
      using True u by simp
    finally show ?thesis .
  next
    case False
    have c: "?cnt s = cnt s" using False by simp
    have "filter (\<lambda>(x, t). uid x = s) (zip (x # xs) (student_timesteps cnt (map uid (x # xs))))
          = filter (\<lambda>(x, t). uid x = s) (zip xs (student_timesteps ?cnt (map uid xs)))"
      using False by (simp add: Let_def)
    also have "\<dots> = zip (filter (\<lambda>x. uid x = s) xs)
        [?cnt s + 1 .. ?cnt s + int (length (filter (\<lambda>x. uid x = s) xs))]"
      by (simp only: Cons.IH [of ?cnt])
    finally show ?thesis using False c by simp
  qed
qed

lemma sort_result_set: "sort_result col df sorted_df \<Longrightarrow> set sorted_df = set df"
  unfolding sort_result_def by (blast dest: mset_eq_setD)

lemma sort_result_distinct:
  assumes "sort_result col df sorted_df" and "distinct (map lab df)"
  shows "distinct (map lab sorted_df)"
proof -
  have "mset (map lab sorted_df) = mset (map lab df)"
    using assms(1) by (simp add: sort_result_def)
  then show ?thesis using assms(2) by (metis mset_eq_imp_distinct_iff)
qed

lemma stable_sort_values_result: "sort_result col df (stable_sort_values col df)"
proof -
  let ?has = "filter (\<lambda>r. col r \<noteq> None) df"
  have "sorted (map (\<lambda>r. the (col r)) (sort_key (\<lambda>r. the (col r)) ?has))"
    by (rule sorted_sort_key)
  then have "sorted_wrt (\<lambda>x y. the (col x) \<le> the (col y)) (sort_key (\<lambda>r. the (col r)) ?has)"
    by (simp add: sorted_map)
  then have 1: "sorted_wrt (\<lambda>x y. in_order (col x) (col y)) (sort_key (\<lambda>r. the (col r)) ?has)"
    by (rule sorted_wrt_mono_rel [rotated]) (auto simp: in_order_def)
  have 2: "sorted_wrt (\<lambda>x y. in_order (col x) (col y)) (filter (\<lambda>r. col r = None) df)"
    by (induction df) (auto simp: in_order_def)
  have 3: "\<forall>x \<in> set (sort_key (\<lambda>r. the (col r)) ?has).
      \<forall>y \<in> set (filter (\<lambda>r. col r = None) df). in_order (col x) (col y)"
    by (auto simp: in_order_def)
  have "mset (stable_sort_values col df) = mset df"
    by (simp add: stable_sort_values_def)
  then show ?thesis
    unfolding sort_result_def using 1 2 3
    by (simp add: stable_sort_values_def sorted_wrt_append)
qed

lemma reversing_sort_values_result: "sort_result col df (reversing_sort_values col df)"
  using stable_sort_values_result [of col "rev df"]
  by (simp add: sort_result_def reversing_sort_values_def)

lemma sort_key_map_same:
  assumes "\<And>x. f (g x) = f x"
  shows "sort_key f (map g xs) = map g (sort_key f xs)"
proof (induction xs)
  case Nil
  then show ?case by simp
next
  case (Cons x xs)
  have ins: "insort_key f (g x) (map g ys) = map g (insort_key f x ys)" for ys
    by (induction ys) (simp_all add: assms)
  show ?case using Cons by (simp add: ins)
qed

lemma grockit_unfold:
  "interaction_history_from_grockit_data_set data_sort raw
   = number_and_copy g_user_id g_ixn (filter g_keep (data_sort raw))"
  by (simp add: interaction_history_from_grockit_data_set_def number_and_copy_def
      InteractionHistory_def Let_def)

lemma kdd_unfold:
  "interaction_history_from_kdd_cup_data_set data_sort raw
   = number_and_copy anon_student_id k_ixn (filter k_keep (data_sort raw))"
  by (simp add: interaction_history_from_kdd_cup_data_set_def number_and_copy_def
      InteractionHistory_def Let_def)

lemma assistments_unfold:
  "interaction_history_from_assistments_data_set data_sort raw
   = number_and_copy a_user_id a_ixn (filter a_keep (data_sort raw))"
  by (simp add: interaction_history_from_assistments_data_set_def number_and_copy_def
      InteractionHistory_def Let_def)

lemma row_builder_g: "row_builder g_user_id g_label g_ixn"
  by (simp add: row_builder_def g_ixn_def)

lemma row_builder_k: "row_builder anon_student_id k_label k_ixn"
  by (simp add: row_builder_def k_ixn_def)

lemma row_builder_a: "row_builder a_user_id a_label a_ixn"
  by (simp add: row_builder_def a_ixn_def)

lemma numbered_student:
  assumes "row_builder uid lab mk"
  shows "filter (\<lambda>r. student_id r = s) (map2 mk kept (student_timesteps (\<lambda>_. 0) (map uid kept)))
         = map2 mk (filter (\<lambda>x. uid x = s) kept)
             [1 .. int (length (filter (\<lambda>x. uid x = s) kept))]"
proof -
  have eq: "(\<lambda>r. student_id r = s) \<circ> (\<lambda>(x, t). mk x t) = (\<lambda>(x, t). uid x = s)"
    using assms by (auto simp: row_builder_def fun_eq_iff)
  show ?thesis
    using student_timesteps_filter [of uid s kept "\<lambda>_. 0"]
    by (simp add: filter_map eq)
qed

lemma numbered_all_assessment:
  assumes "row_builder uid lab mk"
  shows "\<forall>r \<in> set (map2 mk kept ts). module_type r = Assessment \<and> outcome r \<noteq> None"
  using assms by (auto simp: row_builder_def dest!: set_zip_leftD)

lemma copy_assessments:
  assumes "\<forall>r \<in> set data. module_type r = Assessment"
  shows "filter (\<lambda>r. module_type r = Assessment)
           (sort_key timestep (data @ map (\<lambda>r. r\<lparr>module_type := Lesson\<rparr>) data))
         = sort_key timestep data"
proof -
  have "filter (\<lambda>r. module_type r = Assessment) (data @ map (\<lambda>r. r\<lparr>module_type := Lesson\<rparr>) data)
        = data"
    using assms by (simp add: filter_map comp_def)
  then show ?thesis by (simp only: filter_sort)
qed

lemma copy_lessons:
  assumes "\<forall>r \<in> set data. module_type r = Assessment"
  shows "filter (\<lambda>r. module_type r = Lesson)
           (sort_key timestep (data @ map (\<lambda>r. r\<lparr>module_type := Lesson\<rparr>) data))
         = map (\<lambda>r. r\<lparr>module_type := Lesson\<rparr>) (sort_key timestep data)"
proof -
  have "filter (\<lambda>r. module_type r = Lesson) (data @ map (\<lambda>r. r\<lparr>module_type := Lesson\<rparr>) data)
        = map (\<lambda>r. r\<lparr>module_type := Lesson\<rparr>) data"
    using assms by (simp add: filter_map comp_def)
  moreover have "sort_key timestep (map (\<lambda>r. r\<lparr>module_type := Lesson\<rparr>) data)
      = map (\<lambda>r. r\<lparr>module_type := Lesson\<rparr>) (sort_key timestep data)"
    by (rule sort_key_map_same) simp
  ultimately show ?thesis by (simp only: filter_sort)
qed

lemma numbered_labels:
  assumes "row_builder uid lab mk" and "length ts = length kept"
  shows "map row_label (map2 mk kept ts) = map lab kept"
  using assms(2,1)
  by (induction ts kept rule: list_induct2) (simp_all add: row_builder_def)

lemma labels_with_copies:
  "row_label ` set (sort_key timestep (data @ map (\<lambda>r. r\<lparr>module_type := Lesson\<rparr>) data))
   = row_label ` set data"
  by (simp add: image_Un image_image)

lemma number_and_copy_labels:
  assumes "row_builder uid lab mk"
  shows "row_label ` set (number_and_copy uid mk kept) = lab ` set kept"
proof -
  define data where "data = map2 mk kept (student_timesteps (\<lambda>_. 0) (map uid kept))"
  have "row_label ` set data = set (map row_label data)" by (simp only: set_map)
  also have "\<dots> = lab ` set kept"
    unfolding data_def
    by (simp only: numbered_labels [OF assms] length_student_timesteps length_map set_map)
  finally have d: "row_label ` set data = lab ` set kept" .
  have "number_and_copy uid mk kept
        = sort_key timestep (data @ map (\<lambda>r. r\<lparr>module_type := Lesson\<rparr>) data)"
    by (simp only: number_and_copy_def Let_def data_def)
  then show ?thesis by (simp only: labels_with_copies d)
qed

lemma retained_iff_kept:
  assumes rb: "row_builder uid lab mk" and d: "distinct (map lab raw)" and x: "x \<in> set raw"
    and srt: "set sorted_raw = set raw"
  shows "(\<exists>r \<in> set (number_and_copy uid mk (filter keep sorted_raw)). row_label r = lab x)
         \<longleftrightarrow> keep x"
proof -
  have inj: "inj_on lab (set raw)" using d by (simp add: distinct_map)
  have "(\<exists>r \<in> set (number_and_copy uid mk (filter keep sorted_raw)). row_label r = lab x)
        \<longleftrightarrow> lab x \<in> row_label ` set (number_and_copy uid mk (filter keep sorted_raw))"
    by (simp only: image_iff) metis
  also have "\<dots> \<longleftrightarrow> lab x \<in> lab ` {y \<in> set raw. keep y}"
    by (simp only: number_and_copy_labels [OF rb] set_filter srt)
  also have "\<dots> \<longleftrightarrow> keep x"
    using inj x by (auto dest: inj_onD)
  finally show ?thesis .
qed

lemma number_and_copy_twins:
  assumes rb: "row_builder uid lab mk"
  shows "mset (filter (\<lambda>r. module_type r = Lesson) (number_and_copy uid mk kept))
         = image_mset (\<lambda>r. r\<lparr>module_type := Lesson\<rparr>)
             (mset (filter (\<lambda>r. module_type r = Assessment) (number_and_copy uid mk kept)))"
    and "length (filter (\<lambda>r. module_type r = Assessment) (number_and_copy uid mk kept))
         = length kept"
    and "\<forall>r \<in> set (number_and_copy uid mk kept). outcome r \<noteq> None"
proof -
  let ?data = "map2 mk kept (student_timesteps (\<lambda>_. 0) (map uid kept))"
  have a: "\<forall>r \<in> set ?data. module_type r = Assessment"
    using numbered_all_assessment [OF rb] by blast
  have o: "\<forall>r \<in> set ?data. outcome r \<noteq> None"
    using numbered_all_assessment [OF rb] by blast
  show "mset (filter (\<lambda>r. module_type r = Lesson) (number_and_copy uid mk kept))
         = image_mset (\<lambda>r. r\<lparr>module_type := Lesson\<rparr>)
             (mset (filter (\<lambda>r. module_type r = Assessment) (number_and_copy uid mk kept)))"
    unfolding number_and_copy_def Let_def
    by (simp only: copy_lessons [OF a] copy_assessments [OF a] mset_map)
  show "length (filter (\<lambda>r. module_type r = Assessment) (number_and_copy uid mk kept))
         = length kept"
    unfolding number_and_copy_def Let_def
    by (simp only: copy_assessments [OF a]) simp
  show "\<forall>r \<in> set (number_and_copy uid mk kept). outcome r \<noteq> None"
    using o by (auto simp: number_and_copy_def Let_def)
qed

text \<open>
  Claim C5. For every raw row of each of the three parsers (Grockit, KDD Cup,
  Assistments), taken from a raw frame whose index labels are distinct and sorted in any
  way \<open>data.sort\<close> may sort it, the returned history has a row with the label of that
  raw row exactly when the outcome of the raw row is 0 or 1 and its duration is greater
  than 0. So a row is retained only if it is well-formed, every malformed row is dropped,
  and every well-formed row is kept.
\<close>

theorem parsers_keep_exactly_wellformed_rows:
  "(distinct (map g_label graw) \<and> sort_result answered_at graw (gsort graw)
      \<longrightarrow> (\<forall>x \<in> set graw.
      (\<exists>r \<in> set (interaction_history_from_grockit_data_set gsort graw).
         row_label r = g_label x)
      \<longleftrightarrow> binary_outcome (g_correct x) \<and> positive (g_duration x)))
   \<and> (distinct (map k_label kraw) \<and> sort_result step_start_time kraw (ksort kraw)
      \<longrightarrow> (\<forall>x \<in> set kraw.
      (\<exists>r \<in> set (interaction_history_from_kdd_cup_data_set ksort kraw).
         row_label r = k_label x)
      \<longleftrightarrow> binary_outcome (correct_first_attempt x) \<and> positive (step_duration x)))
   \<and> (distinct (map a_label araw) \<and> sort_result order_id araw (asort araw)
      \<longrightarrow> (\<forall>x \<in> set araw.
      (\<exists>r \<in> set (interaction_history_from_assistments_data_set asort araw).
         row_label r = a_label x)
      \<longleftrightarrow> binary_outcome (a_correct x) \<and> positive (a_duration x)))"
proof (intro conjI impI ballI)
  fix x assume h: "distinct (map g_label graw) \<and> sort_result answered_at graw (gsort graw)"
    and x: "x \<in> set graw"
  have d: "distinct (map g_label graw)" and e: "set (gsort graw) = set graw"
    using h sort_result_set by blast+
  show "(\<exists>r \<in> set (interaction_history_from_grockit_data_set gsort graw).
         row_label r = g_label x)
      \<longleftrightarrow> binary_outcome (g_correct x) \<and> positive (g_duration x)"
    using retained_iff_kept [OF row_builder_g d x e, of g_keep]
    by (simp only: grockit_unfold g_keep_def)
next
  fix x assume h: "distinct (map k_label kraw) \<and> sort_result step_start_time kraw (ksort kraw)"
    and x: "x \<in> set kraw"
  have d: "distinct (map k_label kraw)" and e: "set (ksort kraw) = set kraw"
    using h sort_result_set by blast+
  show "(\<exists>r \<in> set (interaction_history_from_kdd_cup_data_set ksort kraw).
         row_label r = k_label x)
      \<longleftrightarrow> binary_outcome (correct_first_attempt x) \<and> positive (step_duration x)"
    using retained_iff_kept [OF row_builder_k d x e, of k_keep]
    by (simp only: kdd_unfold k_keep_def)
next
  fix x assume h: "distinct (map a_label araw) \<and> sort_result order_id araw (asort araw)"
    and x: "x \<in> set araw"
  have d: "distinct (map a_label araw)" and e: "set (asort araw) = set araw"
    using h sort_result_set by blast+
  show "(\<exists>r \<in> set (interaction_history_from_assistments_data_set asort araw).
         row_label r = a_label x)
      \<longleftrightarrow> binary_outcome (a_correct x) \<and> positive (a_duration x)"
    using retained_iff_kept [OF row_builder_a d x e, of a_keep]
    by (simp only: assistments_unfold a_keep_def)
qed

lemma numbered_timesteps:
  assumes "row_builder uid lab mk" and "length ts = length kept"
  shows "map timestep (map2 mk kept ts) = ts"
  using assms(2,1)
  by (induction ts kept rule: list_induct2) (simp_all add: row_builder_def)

lemma numbered_label_timestep:
  assumes "row_builder uid lab mk" and "length ts = length kept"
  shows "map (\<lambda>r. (row_label r, timestep r)) (map2 mk kept ts) = zip (map lab kept) ts"
  using assms(2,1)
  by (induction ts kept rule: list_induct2) (simp_all add: row_builder_def)

lemma length_upto_int [simp]: "length [1 .. int n] = n"
  by simp

lemma number_and_copy_student:
  assumes rb: "row_builder uid lab mk"
  shows "filter (\<lambda>r. student_id r = s \<and> module_type r = Assessment) (number_and_copy uid mk kept)
         = map2 mk (filter (\<lambda>x. uid x = s) kept)
             [1 .. int (length (filter (\<lambda>x. uid x = s) kept))]"
proof -
  define data where "data = map2 mk kept (student_timesteps (\<lambda>_. 0) (map uid kept))"
  define K where "K = filter (\<lambda>x. uid x = s) kept"
  have a: "\<forall>r \<in> set data. module_type r = Assessment"
    unfolding data_def using numbered_all_assessment [OF rb] by blast
  have H: "number_and_copy uid mk kept
        = sort_key timestep (data @ map (\<lambda>r. r\<lparr>module_type := Lesson\<rparr>) data)"
    by (simp only: number_and_copy_def Let_def data_def)
  have st: "filter (\<lambda>r. student_id r = s) data = map2 mk K [1 .. int (length K)]"
    unfolding data_def K_def by (rule numbered_student [OF rb])
  have "sorted (map timestep (map2 mk K [1 .. int (length K)]))"
    by (simp only: numbered_timesteps [OF rb length_upto_int] sorted_upto)
  then have srt: "sort_key timestep (map2 mk K [1 .. int (length K)]) = map2 mk K [1 .. int (length K)]"
    by (rule sort_key_id_if_sorted)
  have "filter (\<lambda>r. student_id r = s \<and> module_type r = Assessment) (number_and_copy uid mk kept)
        = filter (\<lambda>r. student_id r = s) (filter (\<lambda>r. module_type r = Assessment)
            (sort_key timestep (data @ map (\<lambda>r. r\<lparr>module_type := Lesson\<rparr>) data)))"
    by (simp only: H filter_filter conj_commute)
  also have "\<dots> = filter (\<lambda>r. student_id r = s) (sort_key timestep data)"
    by (simp only: copy_assessments [OF a])
  also have "\<dots> = sort_key timestep (filter (\<lambda>r. student_id r = s) data)"
    by (simp only: filter_sort)
  also have "\<dots> = map2 mk K [1 .. int (length K)]"
    by (simp only: st srt)
  finally show ?thesis unfolding K_def .
qed

lemma number_and_copy_timesteps_of:
  assumes rb: "row_builder uid lab mk"
  shows "timesteps_of (number_and_copy uid mk kept) s
         = {1 .. int (length (filter (\<lambda>x. uid x = s) kept))}"
proof -
  define data where "data = map2 mk kept (student_timesteps (\<lambda>_. 0) (map uid kept))"
  define K where "K = filter (\<lambda>x. uid x = s) kept"
  have H: "number_and_copy uid mk kept
        = sort_key timestep (data @ map (\<lambda>r. r\<lparr>module_type := Lesson\<rparr>) data)"
    by (simp only: number_and_copy_def Let_def data_def)
  have st: "filter (\<lambda>r. student_id r = s) data = map2 mk K [1 .. int (length K)]"
    unfolding data_def K_def by (rule numbered_student [OF rb])
  have "timesteps_of (number_and_copy uid mk kept) s
        = timestep ` {r \<in> set data. student_id r = s}"
    unfolding timesteps_of_def H by (auto simp: image_iff)
  also have "\<dots> = set (map timestep (filter (\<lambda>r. student_id r = s) data))"
    by simp
  also have "\<dots> = set [1 .. int (length K)]"
    by (simp only: st numbered_timesteps [OF rb length_upto_int])
  finally show ?thesis unfolding K_def by simp
qed

lemma number_and_copy_contiguous:
  assumes rb: "row_builder uid lab mk"
  shows "contiguous_timesteps (number_and_copy uid mk kept)"
  unfolding contiguous_timesteps_def
  by (simp only: number_and_copy_timesteps_of [OF rb]) simp

lemma timestep_rank_card:
  "timestep_rank data s t = int (card {u \<in> timesteps_of data s. u \<le> t})"
proof -
  have "set (filter (\<lambda>u. u \<le> t) (map timestep (filter (\<lambda>r. student_id r = s) data)))
        = {u \<in> timesteps_of data s. u \<le> t}"
    by (simp only: timesteps_of_def set_filter)
  then show ?thesis
    by (simp only: timestep_rank_def length_remdups_card_conv)
qed

lemma finite_timesteps_of [simp]: "finite (timesteps_of data s)"
  by (simp add: timesteps_of_def)

lemma rank_mono:
  assumes "u \<le> t"
  shows "timestep_rank data s u \<le> timestep_rank data s t"
proof -
  have "{v \<in> timesteps_of data s. v \<le> u} \<subseteq> {v \<in> timesteps_of data s. v \<le> t}"
    using assms by auto
  then have "card {v \<in> timesteps_of data s. v \<le> u} \<le> card {v \<in> timesteps_of data s. v \<le> t}"
    by (intro card_mono) simp_all
  then show ?thesis by (simp add: timestep_rank_card)
qed

lemma rank_strict_mono:
  assumes "u < t" and "t \<in> timesteps_of data s"
  shows "timestep_rank data s u < timestep_rank data s t"
proof -
  have "t \<in> {v \<in> timesteps_of data s. v \<le> t}" and "t \<notin> {v \<in> timesteps_of data s. v \<le> u}"
    using assms by simp_all
  moreover have "{v \<in> timesteps_of data s. v \<le> u} \<subseteq> {v \<in> timesteps_of data s. v \<le> t}"
    using assms by auto
  ultimately have "{v \<in> timesteps_of data s. v \<le> u} \<subset> {v \<in> timesteps_of data s. v \<le> t}"
    by blast
  then have "card {v \<in> timesteps_of data s. v \<le> u} < card {v \<in> timesteps_of data s. v \<le> t}"
    by (intro psubset_card_mono) simp_all
  then show ?thesis by (simp add: timestep_rank_card)
qed

lemma rank_le_iff:
  assumes "u \<in> timesteps_of data s" and "t \<in> timesteps_of data s"
  shows "timestep_rank data s u \<le> timestep_rank data s t \<longleftrightarrow> u \<le> t"
  using rank_mono [of u t data s] rank_strict_mono [of t u data s] assms
  by (cases "u \<le> t") (simp_all add: not_le)

lemma rank_inj_on: "inj_on (timestep_rank data s) (timesteps_of data s)"
proof (rule inj_onI)
  fix u t
  assume "u \<in> timesteps_of data s" "t \<in> timesteps_of data s"
    and "timestep_rank data s u = timestep_rank data s t"
  then show "u = t"
    using rank_le_iff [of u data s t] rank_le_iff [of t data s u] by simp
qed

lemma rank_bounds:
  assumes "t \<in> timesteps_of data s"
  shows "1 \<le> timestep_rank data s t"
    and "timestep_rank data s t \<le> int (card (timesteps_of data s))"
proof -
  have "{v \<in> timesteps_of data s. v \<le> t} \<noteq> {}" using assms by auto
  then have "card {v \<in> timesteps_of data s. v \<le> t} \<noteq> 0" by simp
  then have "1 \<le> int (card {v \<in> timesteps_of data s. v \<le> t})" by linarith
  then show "1 \<le> timestep_rank data s t" by (simp only: timestep_rank_card)
  have "card {v \<in> timesteps_of data s. v \<le> t} \<le> card (timesteps_of data s)"
    by (intro card_mono) auto
  then show "timestep_rank data s t \<le> int (card (timesteps_of data s))"
    by (simp add: timestep_rank_card)
qed

lemma rank_image:
  "timestep_rank data s ` timesteps_of data s = {1 .. int (card (timesteps_of data s))}"
proof (rule card_subset_eq)
  show "finite {1 .. int (card (timesteps_of data s))}" by simp
  show "timestep_rank data s ` timesteps_of data s \<subseteq> {1 .. int (card (timesteps_of data s))}"
    using rank_bounds [of _ data s] by auto
  show "card (timestep_rank data s ` timesteps_of data s)
        = card {1 .. int (card (timesteps_of data s))}"
    by (simp add: card_image [OF rank_inj_on])
qed

lemma student_id_reindex [simp]: "map student_id (reindex_timesteps data) = map student_id data"
  by (simp add: reindex_timesteps_def comp_def)

lemma filter_student_reindex:
  "filter (\<lambda>r. student_id r = s) (reindex_timesteps data)
   = map (\<lambda>r. r\<lparr>timestep := timestep_rank data s (timestep r)\<rparr>)
       (filter (\<lambda>r. student_id r = s) data)"
proof -
  have "filter (\<lambda>r. student_id r = s) (map (\<lambda>r. r\<lparr>timestep := timestep_rank data (student_id r) (timestep r)\<rparr>) xs)
        = map (\<lambda>r. r\<lparr>timestep := timestep_rank data s (timestep r)\<rparr>)
            (filter (\<lambda>r. student_id r = s) xs)" for xs
    by (induction xs) simp_all
  then show ?thesis by (simp only: reindex_timesteps_def)
qed

lemma timesteps_of_reindex:
  "timesteps_of (reindex_timesteps data) s = timestep_rank data s ` timesteps_of data s"
  by (simp add: timesteps_of_def filter_student_reindex comp_def image_image)

lemma reindex_contiguous: "contiguous_timesteps (reindex_timesteps data)"
  unfolding contiguous_timesteps_def
proof
  fix s
  have "card (timesteps_of (reindex_timesteps data) s) = card (timesteps_of data s)"
    by (simp only: timesteps_of_reindex card_image [OF rank_inj_on])
  then show "timesteps_of (reindex_timesteps data) s
        = {1 .. int (card (timesteps_of (reindex_timesteps data) s))}"
    by (simp only: timesteps_of_reindex rank_image)
qed

lemma rank_of_rank:
  assumes "t \<in> timesteps_of data s"
  shows "timestep_rank (reindex_timesteps data) s (timestep_rank data s t) = timestep_rank data s t"
proof -
  have "{u \<in> timestep_rank data s ` timesteps_of data s. u \<le> timestep_rank data s t}
        = timestep_rank data s ` {v \<in> timesteps_of data s. v \<le> t}"
    using rank_le_iff [OF _ assms] by auto
  moreover have "inj_on (timestep_rank data s) {v \<in> timesteps_of data s. v \<le> t}"
    by (rule inj_on_subset [OF rank_inj_on]) auto
  ultimately show ?thesis
    by (simp only: timestep_rank_card [of "reindex_timesteps data"] timesteps_of_reindex
        card_image timestep_rank_card [of data, symmetric])
qed

lemma reindex_idem: "reindex_timesteps (reindex_timesteps data) = reindex_timesteps data"
proof -
  have "\<forall>r \<in> set data. timestep r \<in> timesteps_of data (student_id r)"
    by (auto simp: timesteps_of_def)
  then have "map (\<lambda>r. r\<lparr>timestep := timestep_rank (reindex_timesteps data) (student_id r) (timestep r)\<rparr>)
          (map (\<lambda>r. r\<lparr>timestep := timestep_rank data (student_id r) (timestep r)\<rparr>) data)
        = map (\<lambda>r. r\<lparr>timestep := timestep_rank data (student_id r) (timestep r)\<rparr>) data"
    by (simp add: rank_of_rank)
  then show ?thesis
    by (simp only: reindex_timesteps_def [of "reindex_timesteps data"])
       (simp only: reindex_timesteps_def [of data])
qed

lemma reindex_order_preserved: "order_preserved data (reindex_timesteps data)"
  unfolding order_preserved_def
proof (intro conjI allI impI)
  show "length (reindex_timesteps data) = length data"
    by (simp add: reindex_timesteps_def)
next
  fix i assume "i < length data"
  then show "reindex_timesteps data ! i
      = (data ! i)\<lparr>timestep := timestep (reindex_timesteps data ! i)\<rparr>"
    by (simp add: reindex_timesteps_def)
next
  fix i j
  assume i: "i < length data" and j: "j < length data"
    and s: "student_id (data ! i) = student_id (data ! j)"
  have "timestep (data ! i) \<in> timesteps_of data (student_id (data ! j))"
    using i s by (auto simp: timesteps_of_def)
  moreover have "timestep (data ! j) \<in> timesteps_of data (student_id (data ! j))"
    using j by (auto simp: timesteps_of_def)
  ultimately show "timestep (data ! i) \<le> timestep (data ! j)
      \<longleftrightarrow> timestep (reindex_timesteps data ! i) \<le> timestep (reindex_timesteps data ! j)"
    using i j s by (simp add: reindex_timesteps_def rank_le_iff)
qed

lemma in_filter_students:
  "s \<in> filter_students h mn mx \<longleftrightarrow>
     (\<exists>a \<in> set h. student_id a = s \<and> module_type a = Assessment \<and> timestep a > mn)
     \<and> (\<forall>b \<in> set h. student_id b = s \<longrightarrow> timestep b < mx)"
proof -
  have "s \<in> set (map student_id (filter (\<lambda>r. timestep r > mn \<and> module_type r = Assessment) h))
        \<longleftrightarrow> (\<exists>a \<in> set h. student_id a = s \<and> module_type a = Assessment \<and> timestep a > mn)"
    by (simp add: image_iff) blast
  moreover have "s \<notin> set (map student_id (filter (\<lambda>r. timestep r \<ge> mx) h))
        \<longleftrightarrow> (\<forall>b \<in> set h. student_id b = s \<longrightarrow> timestep b < mx)"
    by (simp add: image_iff not_le [symmetric]) blast
  ultimately show ?thesis by (simp only: filter_students_def Diff_iff)
qed

lemma in_filter_modules:
  "r \<in> set h \<Longrightarrow> module_id r \<in> filter_modules h mn
     \<longleftrightarrow> int (length (filter (\<lambda>x. module_id x = module_id r) h)) > mn"
  by (simp add: filter_modules_def image_iff) blast

lemma filter_rows_code_retained:
  "filter_rows h mn mx = filter (code_retained h mn mx) h"
  unfolding filter_rows_def
  by (rule filter_cong) (simp_all only: in_filter_students in_filter_modules code_retained_def conj_assoc)

lemma filter_history_reindex:
  "filter_history h mn mx = reindex_timesteps (filter_rows h mn mx)"
  by (simp add: filter_history_def InteractionHistory_def)

lemma reindex_only_timestep:
  "map (\<lambda>r. r\<lparr>timestep := 0\<rparr>) (reindex_timesteps data) = map (\<lambda>r. r\<lparr>timestep := 0\<rparr>) data"
  by (simp add: reindex_timesteps_def)

text \<open>
  What \<open>filter_history\<close> does: it returns the history built from exactly the rows of
  the input whose student has an assessment interaction with a timestep greater than the
  minimum and no interaction with a timestep greater than or equal to the maximum, and
  whose module has more than the minimum number of interactions in the input. The rows
  keep their order and the constructor changes nothing but their timesteps.
\<close>

lemma filter_history_code_retained:
  "filter_history h mn mx = reindex_timesteps (filter (code_retained h mn mx) h)
   \<and> map (\<lambda>r. r\<lparr>timestep := 0\<rparr>) (filter_history h mn mx)
     = map (\<lambda>r. r\<lparr>timestep := 0\<rparr>) (filter (code_retained h mn mx) h)"
  by (simp only: filter_history_reindex filter_rows_code_retained reindex_only_timestep)

text \<open>
  Claim C4 fails of the code at both ends of the interval. In a history with one student
  who has one assessment interaction (and its lesson copy) at timestep 1, with minimum 1
  and maximum 5, the student's number of assessment interactions is in the interval from
  1 to 5 and the module has two interactions, so the claim keeps both rows;
  \<open>filter_history\<close> returns the empty history, since no timestep is greater than 1. In
  a history of two students, with minimum 0 and maximum 2, the student with two assessment
  interactions is in the interval from 0 to 2 and the claim keeps all six rows;
  \<open>filter_history\<close> drops that student, since the timestep 2 is not less than 2, and
  returns the two rows of the other student.
\<close>

theorem filter_history_bounds_exclusive:
  "filter (spec_retained one_interaction_history 1 5) one_interaction_history
     = one_interaction_history
   \<and> one_interaction_history \<noteq> []
   \<and> filter_history one_interaction_history 1 5 = []
   \<and> filter (spec_retained two_student_history 0 2) two_student_history
     = two_student_history
   \<and> filter_history two_student_history 0 2
     = [ixn_row 1 2 7 Assessment 1, ixn_row 1 2 7 Lesson 1]"
  by (simp add: one_interaction_history_def two_student_history_def spec_retained_def
      ixn_row_def filter_history_def InteractionHistory_def filter_rows_def
      filter_students_def filter_modules_def reindex_timesteps_def timestep_rank_def)

lemma filter_all_kept:
  assumes "length (filter P xs) = length xs"
  shows "filter P xs = xs"
proof -
  have "\<forall>x \<in> set xs. P x"
  proof (rule ccontr)
    assume "\<not> (\<forall>x \<in> set xs. P x)"
    then obtain x where "x \<in> set xs" "\<not> P x" by blast
    then have "length (filter P xs) < length xs" by (rule length_filter_less)
    then show False using assms by simp
  qed
  then show ?thesis by simp
qed

lemma repeated_filter_unfold:
  "repeated_filter U = filter_history (filter_history (filter_history U 75 1000) 75 1000) 75 1000"
  by (simp add: repeated_filter_def REPEATED_FILTER_def upt_rec)

text \<open>
  Claim C8. Let \<open>H\<close> be a history that \<open>filter_history\<close> returned. If the mask of
  \<open>filter_history\<close> with thresholds \<open>mn\<close> and \<open>mx\<close> removes no row of \<open>H\<close>, then
  \<open>filter_history H mn mx\<close> is \<open>H\<close> itself. The pipeline of the notebook is
  \<open>filter_history\<close> with thresholds 75 and 1000 applied three times.
\<close>

theorem filter_history_fixed_point:
  assumes "H = filter_history G mn0 mx0"
    and "length (filter_rows H mn mx) = length H"
  shows "filter_history H mn mx = H
    \<and> repeated_filter U
      = filter_history (filter_history (filter_history U 75 1000) 75 1000) 75 1000"
proof -
  have "filter_rows H mn mx = H"
    using assms(2) unfolding filter_rows_def by (rule filter_all_kept)
  then have "filter_history H mn mx = reindex_timesteps H"
    by (simp only: filter_history_reindex)
  also have "\<dots> = H"
    by (simp only: assms(1) filter_history_reindex reindex_idem)
  finally show ?thesis by (simp add: repeated_filter_unfold)
qed

text \<open>
  Claim C8 on the history of two students filtered with thresholds 1 and 5: the second
  application removes no row and returns the same four rows.
\<close>

theorem filter_history_fixed_point_witness:
  "filter_history two_student_history 1 5 = filter_history two_student_history 1 5
   \<and> length (filter_rows (filter_history two_student_history 1 5) 1 5)
     = length (filter_history two_student_history 1 5)
   \<and> filter_history (filter_history two_student_history 1 5) 1 5
     = [ixn_row 0 1 7 Assessment 1, ixn_row 0 1 7 Lesson 1,
        ixn_row 2 1 7 Assessment 2, ixn_row 2 1 7 Lesson 2]"
proof -
  have e: "filter_history two_student_history 1 5
      = [ixn_row 0 1 7 Assessment 1, ixn_row 0 1 7 Lesson 1,
         ixn_row 2 1 7 Assessment 2, ixn_row 2 1 7 Lesson 2]"
    by (simp add: two_student_history_def ixn_row_def filter_history_def
      InteractionHistory_def filter_rows_def filter_students_def filter_modules_def
      reindex_timesteps_def timestep_rank_def)
  have l: "length (filter_rows (filter_history two_student_history 1 5) 1 5)
     = length (filter_history two_student_history 1 5)"
    unfolding e
    by (simp add: ixn_row_def filter_rows_def filter_students_def filter_modules_def)
  have "filter_history (filter_history two_student_history 1 5) 1 5
      = filter_history two_student_history 1 5"
    using filter_history_fixed_point [OF refl l, of two_student_history] by (rule conjunct1)
  then show ?thesis using l by (simp only: e)
qed

lemma grockit_example_history:
  "interaction_history_from_grockit_data_set (stable_sort_values answered_at) grockit_example
   = [\<lparr>row_label = 2, student_id = 1, module_id = 8, module_type = Assessment,
        outcome = Some False, timestep = 1, duration = Some 10, timestamp = Some 60\<rparr>,
      \<lparr>row_label = 2, student_id = 1, module_id = 8, module_type = Lesson,
        outcome = Some False, timestep = 1, duration = Some 10, timestamp = Some 60\<rparr>,
      \<lparr>row_label = 0, student_id = 1, module_id = 7, module_type = Assessment,
        outcome = Some True, timestep = 2, duration = Some 30, timestamp = Some 130\<rparr>,
      \<lparr>row_label = 0, student_id = 1, module_id = 7, module_type = Lesson,
        outcome = Some True, timestep = 2, duration = Some 30, timestamp = Some 130\<rparr>]"
  by (simp add: interaction_history_from_grockit_data_set_def grockit_example_def
      stable_sort_values_def g_keep_def binary_outcome_def positive_def g_duration_def g_ixn_def
      InteractionHistory_def Let_def)

lemma kdd_example_history:
  "interaction_history_from_kdd_cup_data_set (stable_sort_values step_start_time) kdd_example
   = [\<lparr>row_label = 1, student_id = 1, module_id = 8, module_type = Assessment,
        outcome = Some False, timestep = 1, duration = Some 5, timestamp = None\<rparr>,
      \<lparr>row_label = 1, student_id = 1, module_id = 8, module_type = Lesson,
        outcome = Some False, timestep = 1, duration = Some 5, timestamp = None\<rparr>,
      \<lparr>row_label = 0, student_id = 1, module_id = 7, module_type = Assessment,
        outcome = Some True, timestep = 2, duration = Some 12, timestamp = None\<rparr>,
      \<lparr>row_label = 0, student_id = 1, module_id = 7, module_type = Lesson,
        outcome = Some True, timestep = 2, duration = Some 12, timestamp = None\<rparr>]"
  by (simp add: interaction_history_from_kdd_cup_data_set_def kdd_example_def
      stable_sort_values_def k_keep_def binary_outcome_def positive_def k_ixn_def
      InteractionHistory_def Let_def)

lemma assistments_example_history:
  "interaction_history_from_assistments_data_set (stable_sort_values order_id) assistments_example
   = [\<lparr>row_label = 1, student_id = 1, module_id = 8, module_type = Assessment,
        outcome = Some False, timestep = 1, duration = Some 2, timestamp = None\<rparr>,
      \<lparr>row_label = 1, student_id = 1, module_id = 8, module_type = Lesson,
        outcome = Some False, timestep = 1, duration = Some 2, timestamp = None\<rparr>,
      \<lparr>row_label = 0, student_id = 1, module_id = 7, module_type = Assessment,
        outcome = Some True, timestep = 2, duration = Some 4, timestamp = None\<rparr>,
      \<lparr>row_label = 0, student_id = 1, module_id = 7, module_type = Lesson,
        outcome = Some True, timestep = 2, duration = Some 4, timestamp = None\<rparr>]"
  by (simp add: interaction_history_from_assistments_data_set_def assistments_example_def
      stable_sort_values_def a_keep_def binary_outcome_def positive_def a_ixn_def
      InteractionHistory_def Let_def)

lemma number_and_copy_lesson_twins:
  assumes "row_builder uid lab mk"
  shows "lesson_twins (number_and_copy uid mk kept)"
proof -
  have "length (filter (\<lambda>r. module_type r = Lesson) (number_and_copy uid mk kept))
        = size (mset (filter (\<lambda>r. module_type r = Lesson) (number_and_copy uid mk kept)))"
    by (simp only: size_mset)
  also have "\<dots> = length (filter (\<lambda>r. module_type r = Assessment) (number_and_copy uid mk kept))"
    by (simp only: number_and_copy_twins(1) [OF assms] size_image_mset size_mset)
  finally show ?thesis
    unfolding lesson_twins_def
    using number_and_copy_twins(1,3) [OF assms, of kept] by blast
qed

text \<open>
  Claim C10. In the history each of the three parsers returns, however the raw frame was
  sorted, the lesson rows are the assessment rows with \<open>module_type\<close> replaced and
  nothing else changed (as multisets, so once for each assessment row), the two kinds of
  rows are equal in number, and every row, lesson rows included, carries a boolean
  outcome.
\<close>

theorem parsers_copy_assessments_as_lessons:
  "lesson_twins (interaction_history_from_grockit_data_set gsort graw)
   \<and> lesson_twins (interaction_history_from_kdd_cup_data_set ksort kraw)
   \<and> lesson_twins (interaction_history_from_assistments_data_set asort araw)"
  by (simp only: grockit_unfold kdd_unfold assistments_unfold
      number_and_copy_lesson_twins [OF row_builder_g]
      number_and_copy_lesson_twins [OF row_builder_k]
      number_and_copy_lesson_twins [OF row_builder_a])

text \<open>
  Claim C10 on three small raw frames: two rows of each are kept, and each history has two
  lesson rows.
\<close>

theorem parsers_copy_assessments_as_lessons_witness:
  "lesson_twins (interaction_history_from_grockit_data_set (stable_sort_values answered_at) grockit_example)
   \<and> lesson_twins (interaction_history_from_kdd_cup_data_set (stable_sort_values step_start_time) kdd_example)
   \<and> lesson_twins (interaction_history_from_assistments_data_set (stable_sort_values order_id) assistments_example)
   \<and> length (filter (\<lambda>r. module_type r = Lesson)
        (interaction_history_from_grockit_data_set (stable_sort_values answered_at) grockit_example)) = 2
   \<and> length (filter (\<lambda>r. module_type r = Lesson)
        (interaction_history_from_kdd_cup_data_set (stable_sort_values step_start_time) kdd_example)) = 2
   \<and> length (filter (\<lambda>r. module_type r = Lesson)
        (interaction_history_from_assistments_data_set (stable_sort_values order_id) assistments_example)) = 2"
  using parsers_copy_assessments_as_lessons
    [of "stable_sort_values answered_at" grockit_example
        "stable_sort_values step_start_time" kdd_example
        "stable_sort_values order_id" assistments_example]
  by (simp add: grockit_example_history kdd_example_history assistments_example_history)

text \<open>
  Claim C5 on three small raw frames with distinct labels, sorted by their time column.
  The raw rows with an outcome of 2 or one half, with a missing time, and with a duration
  that is zero, negative or missing are dropped; the other two rows of each frame are
  retained.
\<close>

theorem parsers_keep_exactly_wellformed_rows_witness:
  "distinct (map g_label grockit_example)
   \<and> (\<exists>r \<in> set (interaction_history_from_grockit_data_set (stable_sort_values answered_at) grockit_example). row_label r = 0)
   \<and> \<not> (\<exists>r \<in> set (interaction_history_from_grockit_data_set (stable_sort_values answered_at) grockit_example). row_label r = 1)
   \<and> (\<exists>r \<in> set (interaction_history_from_grockit_data_set (stable_sort_values answered_at) grockit_example). row_label r = 2)
   \<and> \<not> (\<exists>r \<in> set (interaction_history_from_grockit_data_set (stable_sort_values answered_at) grockit_example). row_label r = 3)
   \<and> \<not> (\<exists>r \<in> set (interaction_history_from_grockit_data_set (stable_sort_values answered_at) grockit_example). row_label r = 4)
   \<and> distinct (map k_label kdd_example)
   \<and> (\<exists>r \<in> set (interaction_history_from_kdd_cup_data_set (stable_sort_values step_start_time) kdd_example). row_label r = 0)
   \<and> (\<exists>r \<in> set (interaction_history_from_kdd_cup_data_set (stable_sort_values step_start_time) kdd_example). row_label r = 1)
   \<and> \<not> (\<exists>r \<in> set (interaction_history_from_kdd_cup_data_set (stable_sort_values step_start_time) kdd_example). row_label r = 2)
   \<and> \<not> (\<exists>r \<in> set (interaction_history_from_kdd_cup_data_set (stable_sort_values step_start_time) kdd_example). row_label r = 3)
   \<and> distinct (map a_label assistments_example)
   \<and> (\<exists>r \<in> set (interaction_history_from_assistments_data_set (stable_sort_values order_id) assistments_example).
         row_label r = 0)
   \<and> (\<exists>r \<in> set (interaction_history_from_assistments_data_set (stable_sort_values order_id) assistments_example).
         row_label r = 1)
   \<and> \<not> (\<exists>r \<in> set (interaction_history_from_assistments_data_set (stable_sort_values order_id) assistments_example).
         row_label r = 2)
   \<and> \<not> (\<exists>r \<in> set (interaction_history_from_assistments_data_set (stable_sort_values order_id) assistments_example).
         row_label r = 3)"
proof -
  have dg: "distinct (map g_label grockit_example)" by (simp add: grockit_example_def)
  have dk: "distinct (map k_label kdd_example)" by (simp add: kdd_example_def)
  have da: "distinct (map a_label assistments_example)" by (simp add: assistments_example_def)
  have wg: "\<forall>x \<in> set grockit_example.
      binary_outcome (g_correct x) \<and> positive (g_duration x) \<longleftrightarrow> g_label x = 0 \<or> g_label x = 2"
    by (simp add: grockit_example_def binary_outcome_def positive_def g_duration_def)
  have wk: "\<forall>x \<in> set kdd_example.
      binary_outcome (correct_first_attempt x) \<and> positive (step_duration x)
      \<longleftrightarrow> k_label x = 0 \<or> k_label x = 1"
    by (simp add: kdd_example_def binary_outcome_def positive_def)
  have wa: "\<forall>x \<in> set assistments_example.
      binary_outcome (a_correct x) \<and> positive (a_duration x) \<longleftrightarrow> a_label x = 0 \<or> a_label x = 1"
    by (simp add: assistments_example_def binary_outcome_def positive_def)
  have lg: "g_label ` set grockit_example = {0, 1, 2, 3, 4}"
    by (auto simp: grockit_example_def)
  have lk: "k_label ` set kdd_example = {0, 1, 2, 3}"
    by (auto simp: kdd_example_def)
  have la: "a_label ` set assistments_example = {0, 1, 2, 3}"
    by (auto simp: assistments_example_def)
  have g: "\<forall>x \<in> set grockit_example.
        (\<exists>r \<in> set (interaction_history_from_grockit_data_set (stable_sort_values answered_at) grockit_example).
           row_label r = g_label x) \<longleftrightarrow> g_label x = 0 \<or> g_label x = 2"
    and k: "\<forall>x \<in> set kdd_example.
        (\<exists>r \<in> set (interaction_history_from_kdd_cup_data_set (stable_sort_values step_start_time) kdd_example).
           row_label r = k_label x) \<longleftrightarrow> k_label x = 0 \<or> k_label x = 1"
    and a: "\<forall>x \<in> set assistments_example.
        (\<exists>r \<in> set (interaction_history_from_assistments_data_set (stable_sort_values order_id) assistments_example).
           row_label r = a_label x) \<longleftrightarrow> a_label x = 0 \<or> a_label x = 1"
    using parsers_keep_exactly_wellformed_rows
      [of grockit_example "stable_sort_values answered_at"
          kdd_example "stable_sort_values step_start_time"
          assistments_example "stable_sort_values order_id"]
      dg dk da wg wk wa
    by (simp_all add: stable_sort_values_result)
  have g': "(\<exists>r \<in> set (interaction_history_from_grockit_data_set (stable_sort_values answered_at) grockit_example).
           row_label r = l) \<longleftrightarrow> l = 0 \<or> l = 2" if "l \<in> {0, 1, 2, 3, 4}" for l
    using g that unfolding lg [symmetric] by auto
  have k': "(\<exists>r \<in> set (interaction_history_from_kdd_cup_data_set (stable_sort_values step_start_time) kdd_example).
           row_label r = l) \<longleftrightarrow> l = 0 \<or> l = 1" if "l \<in> {0, 1, 2, 3}" for l
    using k that unfolding lk [symmetric] by auto
  have a': "(\<exists>r \<in> set (interaction_history_from_assistments_data_set (stable_sort_values order_id) assistments_example).
           row_label r = l) \<longleftrightarrow> l = 0 \<or> l = 1" if "l \<in> {0, 1, 2, 3}" for l
    using a that unfolding la [symmetric] by auto
  show ?thesis
    using dg dk da by (simp add: g' k' a')
qed

lemma earlier_not_in_order: "earlier a b \<Longrightarrow> \<not> in_order b a"
  by (auto simp: earlier_def in_order_def split: option.splits)

lemma earlier_irrefl: "\<not> earlier a a"
  by (auto simp: earlier_def split: option.splits)

lemma number_and_copy_row:
  assumes rb: "row_builder uid lab mk"
    and r: "r \<in> set (number_and_copy uid mk kept)"
  shows "\<exists>i < length (filter (\<lambda>x. uid x = student_id r) kept).
           row_label r = lab (filter (\<lambda>x. uid x = student_id r) kept ! i)
           \<and> timestep r = int i + 1"
proof -
  define s where "s = student_id r"
  define data where "data = map2 mk kept (student_timesteps (\<lambda>_. 0) (map uid kept))"
  define K where "K = filter (\<lambda>x. uid x = s) kept"
  have "number_and_copy uid mk kept
        = sort_key timestep (data @ map (\<lambda>r. r\<lparr>module_type := Lesson\<rparr>) data)"
    by (simp only: number_and_copy_def Let_def data_def)
  then have H: "set (number_and_copy uid mk kept)
        = set data \<union> (\<lambda>r. r\<lparr>module_type := Lesson\<rparr>) ` set data"
    by simp
  have st: "filter (\<lambda>r. student_id r = s) data = map2 mk K [1 .. int (length K)]"
    unfolding data_def K_def by (rule numbered_student [OF rb])
  have lt: "map (\<lambda>r. (row_label r, timestep r)) (filter (\<lambda>r. student_id r = s) data)
        = zip (map lab K) [1 .. int (length K)]"
    by (simp only: st numbered_label_timestep [OF rb length_upto_int])
  obtain d where d: "d \<in> set data" "student_id d = s" "row_label d = row_label r"
      "timestep d = timestep r"
    using r unfolding H s_def by auto
  have "d \<in> set (filter (\<lambda>r. student_id r = s) data)"
    using d(1,2) by simp
  then have "(row_label d, timestep d)
      \<in> set (map (\<lambda>r. (row_label r, timestep r)) (filter (\<lambda>r. student_id r = s) data))"
    unfolding set_map by (rule imageI)
  then have "(row_label r, timestep r)
      \<in> set (map (\<lambda>r. (row_label r, timestep r)) (filter (\<lambda>r. student_id r = s) data))"
    by (simp only: d(3,4))
  then have "(row_label r, timestep r) \<in> set (zip (map lab K) [1 .. int (length K)])"
    by (simp only: lt)
  then have "\<exists>i. map lab K ! i = row_label r \<and> [1 .. int (length K)] ! i = timestep r
      \<and> i < length (map lab K) \<and> i < length [1 .. int (length K)]"
    unfolding in_set_zip by simp
  then obtain i where i: "i < length K" and l: "map lab K ! i = row_label r"
    and t: "[1 .. int (length K)] ! i = timestep r"
    by auto
  have "[1 .. int (length K)] ! i = 1 + int i"
    using i by (simp add: nth_upto)
  then have "timestep r = int i + 1" using t by simp
  moreover have "row_label r = lab (K ! i)" using l i by simp
  ultimately show ?thesis
    using i unfolding K_def s_def by blast
qed

lemma number_and_copy_chronological:
  assumes rb: "row_builder uid lab mk"
    and d: "distinct (map lab kept)"
    and srt: "sorted_wrt (\<lambda>x y. in_order (col x) (col y)) kept"
  shows "chronological uid lab col kept (number_and_copy uid mk kept)"
  unfolding chronological_def
proof (intro ballI impI)
  fix x y r1 r2
  assume x: "x \<in> set kept" and y: "y \<in> set kept"
    and xy: "uid x = uid y \<and> earlier (col x) (col y)"
    and r1: "r1 \<in> set (number_and_copy uid mk kept)"
    and r2: "r2 \<in> set (number_and_copy uid mk kept)"
    and l: "row_label r1 = lab x \<and> row_label r2 = lab y"
  have inj: "inj_on lab (set kept)" using d by (simp add: distinct_map)
  define K where "K = filter (\<lambda>z. uid z = uid x) kept"
  have at: "\<exists>i < length K. K ! i = z \<and> timestep r = int i + 1"
    if r: "r \<in> set (number_and_copy uid mk kept)" and z: "z \<in> set kept"
      and u: "uid z = uid x" and lz: "row_label r = lab z" for r z
  proof -
    obtain i where i: "i < length (filter (\<lambda>x. uid x = student_id r) kept)"
        "row_label r = lab (filter (\<lambda>x. uid x = student_id r) kept ! i)"
        "timestep r = int i + 1"
      using number_and_copy_row [OF rb r] by blast
    have m: "filter (\<lambda>x. uid x = student_id r) kept ! i
        \<in> set (filter (\<lambda>x. uid x = student_id r) kept)"
      using i(1) by (rule nth_mem)
    then have k: "filter (\<lambda>x. uid x = student_id r) kept ! i \<in> set kept"
      and s: "uid (filter (\<lambda>x. uid x = student_id r) kept ! i) = student_id r"
      by simp_all
    have e: "filter (\<lambda>x. uid x = student_id r) kept ! i = z"
      using inj k z i(2) lz by (auto dest: inj_onD)
    have "student_id r = uid x" using s e u by simp
    then show ?thesis using i e unfolding K_def by auto
  qed
  obtain i where i: "i < length K" "K ! i = x" "timestep r1 = int i + 1"
    using at [OF r1 x refl] l by blast
  obtain j where j: "j < length K" "K ! j = y" "timestep r2 = int j + 1"
    using at [OF r2 y] xy l by auto
  have sK: "sorted_wrt (\<lambda>x y. in_order (col x) (col y)) K"
    unfolding K_def using srt by (rule sorted_wrt_filter)
  have "i < j"
  proof (rule ccontr)
    assume "\<not> i < j"
    then consider "i = j" | "j < i" by linarith
    then show False
    proof cases
      case 1
      then have "x = y" using i(2) j(2) by simp
      then show False using xy earlier_irrefl by metis
    next
      case 2
      have "in_order (col (K ! j)) (col (K ! i))"
        using sorted_wrt_nth_less [OF sK 2 i(1)] .
      then show False using xy i(2) j(2) earlier_not_in_order by metis
    qed
  qed
  then show "timestep r1 < timestep r2" using i(3) j(3) by simp
qed

lemma parser_chronological:
  assumes rb: "row_builder uid lab mk"
    and d: "distinct (map lab raw)"
    and srt: "sort_result col raw sorted_raw"
  shows "chronological uid lab col (filter keep raw)
           (number_and_copy uid mk (filter keep sorted_raw))"
proof -
  have "distinct (map lab sorted_raw)" using srt d by (rule sort_result_distinct)
  then have 1: "distinct (map lab (filter keep sorted_raw))"
    by (simp add: distinct_map_filter)
  have "sorted_wrt (\<lambda>x y. in_order (col x) (col y)) sorted_raw"
    using srt by (simp add: sort_result_def)
  then have 2: "sorted_wrt (\<lambda>x y. in_order (col x) (col y)) (filter keep sorted_raw)"
    by (rule sorted_wrt_filter)
  have 3: "set (filter keep raw) = set (filter keep sorted_raw)"
    using sort_result_set [OF srt] by simp
  show ?thesis
    using number_and_copy_chronological [OF rb 1 2]
    unfolding chronological_def 3 .
qed

text \<open>
  Claim C6. In the history each of the three parsers returns, and in the history
  \<open>filter_history\<close> returns, the timesteps of every student are the integers from 1 to
  their number. A parser assigns them in chronological order: for a raw frame with
  distinct index labels, sorted in any way \<open>data.sort\<close> may sort it, whenever two kept raw
  rows of one student have times (\<open>answered_at\<close>, \<open>Step Start Time\<close>, \<open>order_id\<close>) of
  which the first is before the second, every row of the history made from the first has
  a smaller timestep than every row made from the second. The reindexing of a filtered
  history changes only timesteps and keeps the order of the timesteps of every student.
\<close>

theorem timesteps_contiguous_chronological:
  assumes "distinct (map g_label graw)" and "sort_result answered_at graw (gsort graw)"
    and "distinct (map k_label kraw)" and "sort_result step_start_time kraw (ksort kraw)"
    and "distinct (map a_label araw)" and "sort_result order_id araw (asort araw)"
  shows "contiguous_timesteps (interaction_history_from_grockit_data_set gsort graw)
   \<and> chronological g_user_id g_label answered_at (filter g_keep graw)
       (interaction_history_from_grockit_data_set gsort graw)
   \<and> contiguous_timesteps (interaction_history_from_kdd_cup_data_set ksort kraw)
   \<and> chronological anon_student_id k_label step_start_time (filter k_keep kraw)
       (interaction_history_from_kdd_cup_data_set ksort kraw)
   \<and> contiguous_timesteps (interaction_history_from_assistments_data_set asort araw)
   \<and> chronological a_user_id a_label order_id (filter a_keep araw)
       (interaction_history_from_assistments_data_set asort araw)
   \<and> contiguous_timesteps (filter_history h mn mx)
   \<and> order_preserved (filter_rows h mn mx) (filter_history h mn mx)"
  by (simp only: grockit_unfold kdd_unfold assistments_unfold filter_history_reindex
      number_and_copy_contiguous [OF row_builder_g] number_and_copy_contiguous [OF row_builder_k]
      number_and_copy_contiguous [OF row_builder_a]
      parser_chronological [OF row_builder_g assms(1,2)]
      parser_chronological [OF row_builder_k assms(3,4)]
      parser_chronological [OF row_builder_a assms(5,6)]
      reindex_contiguous reindex_order_preserved simp_thms)

lemma gapped_history_filtered:
  "filter_history gapped_history 2 10
   = [ixn_row 0 1 7 Assessment 1, ixn_row 1 1 7 Assessment 2, ixn_row 2 1 7 Assessment 3,
      ixn_row 3 2 7 Assessment 1]"
  by (simp add: gapped_history_def ixn_row_def filter_history_def
      InteractionHistory_def filter_rows_def filter_students_def filter_modules_def
      reindex_timesteps_def timestep_rank_def)

lemma tied_example_history:
  "map (\<lambda>r. (row_label r, timestep r))
     (interaction_history_from_assistments_data_set (reversing_sort_values order_id) tied_example)
   = [(2, 1), (2, 1), (1, 2), (1, 2), (0, 3), (0, 3)]"
  by (simp add: interaction_history_from_assistments_data_set_def tied_example_def
      reversing_sort_values_def stable_sort_values_def a_keep_def binary_outcome_def
      positive_def a_ixn_def InteractionHistory_def Let_def)

text \<open>
  Claim C6 on the three small raw frames, where student 1 gets the timesteps 1 and 2: in
  each frame the kept row with the earlier time, which comes second in the raw frame
  (labelled 2 in the Grockit frame and 1 in the other two), gets timestep 1 and the row
  labelled 0 gets timestep 2. On the frame with a tie, sorted so that the tied rows
  change places: the row with the earlier \<open>order_id\<close>, labelled 2, gets timestep 1, and
  the tied rows get the timesteps 2 and 3 in the order the sort left them. And on a
  history with gaps, where the timesteps 2, 5 and 9 of student 1 become 1, 2 and 3.
\<close>

theorem timesteps_contiguous_chronological_witness:
  "distinct (map g_label grockit_example)
   \<and> sort_result answered_at grockit_example (stable_sort_values answered_at grockit_example)
   \<and> distinct (map k_label kdd_example)
   \<and> sort_result step_start_time kdd_example (stable_sort_values step_start_time kdd_example)
   \<and> distinct (map a_label assistments_example)
   \<and> sort_result order_id assistments_example (stable_sort_values order_id assistments_example)
   \<and> contiguous_timesteps
        (interaction_history_from_grockit_data_set (stable_sort_values answered_at) grockit_example)
   \<and> chronological g_user_id g_label answered_at (filter g_keep grockit_example)
        (interaction_history_from_grockit_data_set (stable_sort_values answered_at) grockit_example)
   \<and> timesteps_of
        (interaction_history_from_grockit_data_set (stable_sort_values answered_at) grockit_example) 1
       = {1, 2}
   \<and> map g_label (filter g_keep grockit_example) = [0, 2]
   \<and> earlier (answered_at (grockit_example ! 2)) (answered_at (grockit_example ! 0))
   \<and> map (\<lambda>r. (row_label r, timestep r))
        (interaction_history_from_grockit_data_set (stable_sort_values answered_at) grockit_example)
       = [(2, 1), (2, 1), (0, 2), (0, 2)]
   \<and> contiguous_timesteps
        (interaction_history_from_kdd_cup_data_set (stable_sort_values step_start_time) kdd_example)
   \<and> chronological anon_student_id k_label step_start_time (filter k_keep kdd_example)
        (interaction_history_from_kdd_cup_data_set (stable_sort_values step_start_time) kdd_example)
   \<and> map k_label (filter k_keep kdd_example) = [0, 1]
   \<and> earlier (step_start_time (kdd_example ! 1)) (step_start_time (kdd_example ! 0))
   \<and> map (\<lambda>r. (row_label r, timestep r))
        (interaction_history_from_kdd_cup_data_set (stable_sort_values step_start_time) kdd_example)
       = [(1, 1), (1, 1), (0, 2), (0, 2)]
   \<and> contiguous_timesteps
        (interaction_history_from_assistments_data_set (stable_sort_values order_id)
          assistments_example)
   \<and> chronological a_user_id a_label order_id (filter a_keep assistments_example)
        (interaction_history_from_assistments_data_set (stable_sort_values order_id)
          assistments_example)
   \<and> map a_label (filter a_keep assistments_example) = [0, 1]
   \<and> earlier (order_id (assistments_example ! 1)) (order_id (assistments_example ! 0))
   \<and> map (\<lambda>r. (row_label r, timestep r))
        (interaction_history_from_assistments_data_set (stable_sort_values order_id)
          assistments_example)
       = [(1, 1), (1, 1), (0, 2), (0, 2)]
   \<and> distinct (map a_label tied_example)
   \<and> sort_result order_id tied_example (reversing_sort_values order_id tied_example)
   \<and> contiguous_timesteps
        (interaction_history_from_assistments_data_set (reversing_sort_values order_id)
          tied_example)
   \<and> chronological a_user_id a_label order_id (filter a_keep tied_example)
        (interaction_history_from_assistments_data_set (reversing_sort_values order_id)
          tied_example)
   \<and> map a_label (filter a_keep tied_example) = [0, 1, 2]
   \<and> earlier (order_id (tied_example ! 2)) (order_id (tied_example ! 0))
   \<and> earlier (order_id (tied_example ! 2)) (order_id (tied_example ! 1))
   \<and> order_id (tied_example ! 0) = order_id (tied_example ! 1)
   \<and> map (\<lambda>r. (row_label r, timestep r))
        (interaction_history_from_assistments_data_set (reversing_sort_values order_id)
          tied_example)
       = [(2, 1), (2, 1), (1, 2), (1, 2), (0, 3), (0, 3)]
   \<and> contiguous_timesteps (filter_history gapped_history 2 10)
   \<and> timesteps_of (filter_history gapped_history 2 10) 1 = {1, 2, 3}
   \<and> timesteps_of (filter_rows gapped_history 2 10) 1 = {2, 5, 9}"
proof -
  have dt: "distinct (map a_label tied_example)" by (simp add: tied_example_def)
  note st = reversing_sort_values_result [of order_id tied_example]
  have kt: "map a_label (filter a_keep tied_example) = [0, 1, 2]"
    by (simp add: tied_example_def a_keep_def binary_outcome_def positive_def)
  have et: "earlier (order_id (tied_example ! 2)) (order_id (tied_example ! 0))"
    "earlier (order_id (tied_example ! 2)) (order_id (tied_example ! 1))"
    "order_id (tied_example ! 0) = order_id (tied_example ! 1)"
    by (simp_all add: tied_example_def earlier_def)
  have dg: "distinct (map g_label grockit_example)" by (simp add: grockit_example_def)
  have dk: "distinct (map k_label kdd_example)" by (simp add: kdd_example_def)
  have da: "distinct (map a_label assistments_example)" by (simp add: assistments_example_def)
  note sg = stable_sort_values_result [of answered_at grockit_example]
  note sk = stable_sort_values_result [of step_start_time kdd_example]
  note sa = stable_sort_values_result [of order_id assistments_example]
  have g: "timesteps_of
      (interaction_history_from_grockit_data_set (stable_sort_values answered_at) grockit_example) 1
      = {1, 2}"
    by (simp add: grockit_example_history timesteps_of_def)
  have kg: "map g_label (filter g_keep grockit_example) = [0, 2]"
    by (simp add: grockit_example_def g_keep_def binary_outcome_def positive_def g_duration_def)
  have eg: "earlier (answered_at (grockit_example ! 2)) (answered_at (grockit_example ! 0))"
    by (simp add: grockit_example_def earlier_def)
  have og: "map (\<lambda>r. (row_label r, timestep r))
      (interaction_history_from_grockit_data_set (stable_sort_values answered_at) grockit_example)
      = [(2, 1), (2, 1), (0, 2), (0, 2)]"
    by (simp add: grockit_example_history)
  have kk: "map k_label (filter k_keep kdd_example) = [0, 1]"
    by (simp add: kdd_example_def k_keep_def binary_outcome_def positive_def)
  have ek: "earlier (step_start_time (kdd_example ! 1)) (step_start_time (kdd_example ! 0))"
    by (simp add: kdd_example_def earlier_def)
  have ok: "map (\<lambda>r. (row_label r, timestep r))
      (interaction_history_from_kdd_cup_data_set (stable_sort_values step_start_time) kdd_example)
      = [(1, 1), (1, 1), (0, 2), (0, 2)]"
    by (simp add: kdd_example_history)
  have ka: "map a_label (filter a_keep assistments_example) = [0, 1]"
    by (simp add: assistments_example_def a_keep_def binary_outcome_def positive_def)
  have ea: "earlier (order_id (assistments_example ! 1)) (order_id (assistments_example ! 0))"
    by (simp add: assistments_example_def earlier_def)
  have oa: "map (\<lambda>r. (row_label r, timestep r))
      (interaction_history_from_assistments_data_set (stable_sort_values order_id)
        assistments_example)
      = [(1, 1), (1, 1), (0, 2), (0, 2)]"
    by (simp add: assistments_example_history)
  have f: "timesteps_of (filter_history gapped_history 2 10) 1 = {1, 2, 3}"
    by (simp add: gapped_history_filtered timesteps_of_def ixn_row_def)
  have r: "timesteps_of (filter_rows gapped_history 2 10) 1 = {2, 5, 9}"
    by (simp add: gapped_history_def ixn_row_def filter_rows_def filter_students_def
      filter_modules_def timesteps_of_def)
  have 1: "contiguous_timesteps
        (interaction_history_from_assistments_data_set (reversing_sort_values order_id)
          tied_example)
      \<and> chronological a_user_id a_label order_id (filter a_keep tied_example)
        (interaction_history_from_assistments_data_set (reversing_sort_values order_id)
          tied_example)"
    using timesteps_contiguous_chronological
      [where graw = grockit_example and gsort = "stable_sort_values answered_at"
         and kraw = kdd_example and ksort = "stable_sort_values step_start_time"
         and araw = tied_example and asort = "reversing_sort_values order_id"
         and h = gapped_history and mn = 2 and mx = 10, OF dg sg dk sk dt st]
    by blast
  show ?thesis
    using timesteps_contiguous_chronological
      [where graw = grockit_example and gsort = "stable_sort_values answered_at"
         and kraw = kdd_example and ksort = "stable_sort_values step_start_time"
         and araw = assistments_example and asort = "stable_sort_values order_id"
         and h = gapped_history and mn = 2 and mx = 10, OF dg sg dk sk da sa]
      dg sg dk sk da sa g kg eg og kk ek ok ka ea oa f r 1 dt st kt et tied_example_history
    by blast
qed

section \<open>The 1PL generator: properties\<close>

lemma nth_concat_map_upt:
  assumes "s < M" and "t < N"
  shows "concat (map (\<lambda>s. map (f s) [0..<N]) [0..<M]) ! (s * N + t) = f s t"
  using assms(1)
proof (induction M)
  case 0
  then show ?case by simp
next
  case (Suc M)
  have len: "length (concat (map (\<lambda>s. map (f s) [0..<N]) [0..<M])) = M * N"
    by (induction M) simp_all
  show ?case
  proof (cases "s < M")
    case True
    then have "Suc s * N \<le> M * N" by (intro mult_le_mono1) simp
    moreover have "s * N + t < Suc s * N" using assms(2) by simp
    ultimately have "s * N + t < M * N" by linarith
    then show ?thesis using Suc.IH [OF True] len by (simp add: nth_append)
  next
    case False
    then have "s = M" using Suc.prems by simp
    then show ?thesis using len assms(2) by (simp add: nth_append)
  qed
qed

lemma sigmoid_gt_half: "0 < x \<Longrightarrow> 1 / 2 < sigmoid x"
proof -
  assume "0 < x"
  then have e: "exp (- x) < 1" by simp
  have p: "0 < 1 + exp (- x)" by (simp add: add_pos_pos)
  show ?thesis unfolding sigmoid_def using e p by (simp add: pos_less_divide_eq)
qed

lemma sigmoid_lt_half: "x < 0 \<Longrightarrow> sigmoid x < 1 / 2"
proof -
  assume "x < 0"
  then have e: "1 < exp (- x)" by simp
  have p: "0 < 1 + exp (- x)" by (simp add: add_pos_pos)
  show ?thesis unfolding sigmoid_def using e p by (simp add: pos_divide_less_eq)
qed

text \<open>
  Claim C3, as the code has it. In the 1PL scenario (\<open>USING_2PL\<close> is false, so every
  discriminability is 1) the row the generator writes for student \<open>student_idx\<close> in
  iteration \<open>t\<close> has the outcome \<open>u < sigmoid (proficiency + difficulty)\<close>, for the
  uniform draw \<open>u\<close> of that iteration, the proficiency of the student and the
  difficulty of the chosen assessment: the difficulty is added, not subtracted.
\<close>

theorem onepl_generator_adds_difficulty:
  assumes "student_idx < irt_num_students" and "t < num_ixns_per_student"
  shows "irt_ixns (discriminabilities_of USING_2PL normal_draws) proficiencies difficulties
           choice u ! (student_idx * num_ixns_per_student + t)
         = irt_ixn (discriminabilities_of USING_2PL normal_draws) proficiencies difficulties
             choice u student_idx t
       \<and> outcome (irt_ixn (discriminabilities_of USING_2PL normal_draws) proficiencies
             difficulties choice u student_idx t)
         = Some (u student_idx t
                 < sigmoid (proficiencies ! student_idx
                            + difficulties ! (choice student_idx t mod irt_num_assessments)))"
proof -
  have pos: "0 < irt_num_assessments" by (simp add: irt_num_assessments_def)
  then have m: "choice student_idx t mod irt_num_assessments < irt_num_assessments" by simp
  then have d: "discriminabilities_of USING_2PL normal_draws
        ! (choice student_idx t mod irt_num_assessments) = 1"
    by (simp add: discriminabilities_of_def USING_2PL_def)
  have "outcome (irt_ixn (discriminabilities_of USING_2PL normal_draws) proficiencies
             difficulties choice u student_idx t)
         = Some (u student_idx t
                 < sigmoid (proficiencies ! student_idx
                            + difficulties ! (choice student_idx t mod irt_num_assessments)))"
    using m d by (simp add: irt_ixn_def Let_def irt_pass_likelihood_def sigmoid_def)
  then show ?thesis
    unfolding irt_ixns_def using nth_concat_map_upt [OF assms] by simp
qed

text \<open>
  Claim C3 as stated fails. With every proficiency 0 and every difficulty 1 the pass
  likelihood of the generator for student 0 on assessment 0 is above one half, and the
  sigmoid of proficiency minus difficulty is below one half.
\<close>

theorem onepl_minus_difficulty_counterexample:
  "irt_pass_likelihood (discriminabilities_of USING_2PL [])
       (replicate irt_num_students 0) (replicate irt_num_assessments 1) 0 0
     > 1 / 2
   \<and> sigmoid (onepl_logit_spec (replicate irt_num_students 0 ! 0)
                (replicate irt_num_assessments 1 ! 0)) < 1 / 2"
proof -
  have "irt_pass_likelihood (discriminabilities_of USING_2PL [])
       (replicate irt_num_students 0) (replicate irt_num_assessments 1) 0 0 = sigmoid 1"
    by (simp add: irt_pass_likelihood_def discriminabilities_of_def USING_2PL_def
        irt_num_students_def irt_num_assessments_def sigmoid_def)
  moreover have "sigmoid (onepl_logit_spec (replicate irt_num_students 0 ! 0)
                (replicate irt_num_assessments 1 ! 0)) = sigmoid (- 1)"
    by (simp add: onepl_logit_spec_def irt_num_students_def irt_num_assessments_def)
  ultimately show ?thesis
    using sigmoid_gt_half [of 1] sigmoid_lt_half [of "- 1"] by simp
qed

text \<open>
  The amended claim C3 for the first row: with proficiency 0, difficulty 1 and a uniform
  draw of one half the outcome is true.
\<close>

theorem onepl_generator_adds_difficulty_witness:
  "(0::nat) < irt_num_students \<and> (0::nat) < num_ixns_per_student
   \<and> outcome (irt_ixns (discriminabilities_of USING_2PL [])
        (replicate irt_num_students 0) (replicate irt_num_assessments 1)
        (\<lambda>_ _. 0) (\<lambda>_ _. 1 / 2) ! 0) = Some True"
proof -
  have s: "(0::nat) < irt_num_students" by (simp add: irt_num_students_def)
  have t: "(0::nat) < num_ixns_per_student" by (simp add: num_ixns_per_student_def)
  have a: "(0::nat) < irt_num_assessments" by (simp add: irt_num_assessments_def)
  show ?thesis
    using onepl_generator_adds_difficulty [OF s t, of "[]" "replicate irt_num_students 0"
        "replicate irt_num_assessments 1" "\<lambda>_ _. 0" "\<lambda>_ _. 1 / 2"] s t a
      sigmoid_gt_half [of 1]
    by simp
qed

section \<open>The synthetic embedding: properties\<close>

lemma rows_of_dimension_update:
  "rows_of_dimension M \<Longrightarrow> length v = embedding_dimension \<Longrightarrow> rows_of_dimension (M[i := v])"
  unfolding rows_of_dimension_def using set_update_subset_insert [of M i v] by auto

lemma rows_of_dimension_zeros: "rows_of_dimension (zeros n embedding_dimension)"
  by (simp add: rows_of_dimension_def zeros_def)

lemma add_lesson_dimension:
  assumes "rows_of_dimension (emb_A e) \<and> rows_of_dimension (emb_Q e)"
  shows "rows_of_dimension (emb_A (add_lesson loc step e))
       \<and> rows_of_dimension (emb_Q (add_lesson loc step e))"
  using assms
  by (simp add: add_lesson_def rows_of_dimension_update embedding_dimension_def)

lemma grid_cell_dimension:
  assumes "rows_of_dimension (emb_A e) \<and> rows_of_dimension (emb_Q e)"
  shows "rows_of_dimension (emb_A (grid_cell loc e))
       \<and> rows_of_dimension (emb_Q (grid_cell loc e))"
proof -
  define e1 where "e1 = e\<lparr>emb_A := (emb_A e)[grid_size * fst loc + snd loc := [real (fst loc), real (snd loc)]],
               assessment_idx_of_loc :=
                 (assessment_idx_of_loc e)((fst loc, snd loc) \<mapsto> grid_size * fst loc + snd loc)\<rparr>"
  define e2 where "e2 = (if snd loc < grid_size - 1 then add_lesson (fst loc, snd loc) (0, 1) e1 else e1)"
  have 1: "rows_of_dimension (emb_A e1) \<and> rows_of_dimension (emb_Q e1)"
    using assms by (simp add: e1_def rows_of_dimension_update embedding_dimension_def)
  have 2: "rows_of_dimension (emb_A e2) \<and> rows_of_dimension (emb_Q e2)"
    using add_lesson_dimension [OF 1] 1 unfolding e2_def by (cases "snd loc < grid_size - 1") simp_all
  have 3: "rows_of_dimension (emb_A (if fst loc < grid_size - 1
               then add_lesson (fst loc, snd loc) (1, 0) e2 else e2))
         \<and> rows_of_dimension (emb_Q (if fst loc < grid_size - 1
               then add_lesson (fst loc, snd loc) (1, 0) e2 else e2))"
    using add_lesson_dimension [OF 2] 2 by (cases "fst loc < grid_size - 1") simp_all
  have "grid_cell loc e = (if fst loc < grid_size - 1
               then add_lesson (fst loc, snd loc) (1, 0) e2 else e2)"
    by (simp only: grid_cell_def Let_def e2_def e1_def)
  then show ?thesis using 3 by simp
qed

lemma fold_grid_cell_dimension:
  "rows_of_dimension (emb_A e) \<and> rows_of_dimension (emb_Q e) \<Longrightarrow>
   rows_of_dimension (emb_A (fold grid_cell locs e))
   \<and> rows_of_dimension (emb_Q (fold grid_cell locs e))"
  by (induction locs arbitrary: e) (simp_all add: grid_cell_dimension)

lemma grid_embedding_dimension:
  "rows_of_dimension (emb_A grid_embedding) \<and> rows_of_dimension (emb_Q grid_embedding)"
  unfolding grid_embedding_def
  by (rule fold_grid_cell_dimension) (simp add: rows_of_dimension_zeros)

lemma synthetic_embedding_clamped:
  "emb_A synthetic_embedding = maximum (1 / 1000) (scale cell_size (emb_A grid_embedding))"
  "emb_Q synthetic_embedding = maximum (1 / 1000) (scale cell_size (emb_Q grid_embedding))"
  by (simp_all add: synthetic_embedding_def Let_def)

lemma maximum_rows:
  assumes "rows_of_dimension M" and "v \<in> set (maximum c (scale k M))"
  shows "length v = embedding_dimension" and "\<forall>x \<in> set v. c \<le> x"
  using assms by (auto simp: maximum_def scale_def rows_of_dimension_def)

lemma sum_list_squares_nonneg: "0 \<le> sum_list (map (\<lambda>x. x * x) (v :: real list))"
  by (induction v) simp_all

lemma linalg_norm_lower:
  assumes "v \<noteq> []" and "\<forall>x \<in> set v. c \<le> x" and "0 \<le> c"
  shows "c \<le> linalg_norm v"
proof -
  obtain x xs where v: "v = x # xs" using assms(1) by (cases v) auto
  have cx: "c \<le> x" using assms(2) v by simp
  then have "c * c \<le> x * x" using assms(3) by (intro mult_mono) simp_all
  also have "\<dots> \<le> sum_list (map (\<lambda>x. x * x) v)"
    using sum_list_squares_nonneg [of xs] by (simp add: v)
  finally have "sqrt (c * c) \<le> linalg_norm v"
    unfolding linalg_norm_def by (rule real_sqrt_le_mono)
  then show ?thesis using assms(3) by simp
qed

text \<open>
  Claim C9. The arrays \<open>A\<close> and \<open>Q\<close> of the synthetic embedding are the scaled grid
  arrays clamped from below, entry by entry, at 1/1000. Every entry of every row of
  \<open>A\<close> and of \<open>Q\<close> is at least 1/1000, so the norm of every row is at least 1/1000
  and is not zero: the scoring function never divides by zero.
\<close>

theorem embeddings_clamped_norm_positive:
  "emb_A synthetic_embedding = maximum (1 / 1000) (scale cell_size (emb_A grid_embedding))
   \<and> emb_Q synthetic_embedding = maximum (1 / 1000) (scale cell_size (emb_Q grid_embedding))
   \<and> (\<forall>v \<in> set (emb_A synthetic_embedding).
        (\<forall>x \<in> set v. 1 / 1000 \<le> x) \<and> 1 / 1000 \<le> linalg_norm v \<and> linalg_norm v \<noteq> 0)
   \<and> (\<forall>v \<in> set (emb_Q synthetic_embedding).
        (\<forall>x \<in> set v. 1 / 1000 \<le> x) \<and> 1 / 1000 \<le> linalg_norm v \<and> linalg_norm v \<noteq> 0)"
proof -
  have *: "(\<forall>x \<in> set v. 1 / 1000 \<le> x) \<and> 1 / 1000 \<le> linalg_norm v \<and> linalg_norm v \<noteq> 0"
    if M: "rows_of_dimension M" and v: "v \<in> set (maximum (1 / 1000) (scale cell_size M))"
    for M v
  proof -
    have len: "length v = embedding_dimension" and ge: "\<forall>x \<in> set v. 1 / 1000 \<le> x"
      using maximum_rows [OF M v] by blast+
    have "v \<noteq> []" using len by (auto simp: embedding_dimension_def)
    then have "1 / 1000 \<le> linalg_norm v" using ge by (intro linalg_norm_lower) simp_all
    then show ?thesis using ge by auto
  qed
  show ?thesis
    using grid_embedding_dimension *
    by (simp only: synthetic_embedding_clamped) blast
qed

lemma A_origin: "emb_A synthetic_embedding ! 0 = [1 / 1000, 1 / 1000]"
  by code_simp

lemma length_A: "length (emb_A synthetic_embedding) = 25"
  by code_simp

text \<open>
  Claim C9 for the assessment at the origin of the grid, whose raw embedding is the zero
  vector.
\<close>

theorem embeddings_clamped_norm_positive_witness:
  "emb_A synthetic_embedding ! 0 \<in> set (emb_A synthetic_embedding)
   \<and> emb_A synthetic_embedding ! 0 = [1 / 1000, 1 / 1000]
   \<and> 1 / 1000 \<le> linalg_norm [1 / 1000, 1 / 1000]
   \<and> linalg_norm [1 / 1000, 1 / 1000] \<noteq> 0"
proof -
  have m: "emb_A synthetic_embedding ! 0 \<in> set (emb_A synthetic_embedding)"
    by (rule nth_mem) (simp add: length_A)
  show ?thesis
    using embeddings_clamped_norm_positive m by (simp only: A_origin [symmetric]) blast
qed

section \<open>Sampling from the synthetic embedding: properties\<close>

lemma pass_likelihood_spec:
  "pass_likelihood s a = embedding_pass_probability_spec False s a sb ab"
  by (simp add: pass_likelihood_def embedding_pass_probability_spec_def
      embedding_logit_spec_def sigmoid_def)

lemma explained_mono:
  "explained env origin S n r \<Longrightarrow> n \<le> n' \<Longrightarrow> explained env origin S n' r"
  unfolding explained_def by (meson less_le_trans)

lemma explainedI:
  assumes "k < n" and "a < length (emb_A (the_embedding env))"
    and "module_id r = assessment_id_of env a" and "1 \<le> timestep r"
    and "nat (timestep r) < length S"
    and "outcome r = Some (uniform env k < success_probability env origin S (timestep r) a)"
  shows "explained env origin S n r"
  unfolding explained_def using assms by blast

lemma success_probability_update:
  "nat t \<noteq> i \<Longrightarrow>
   success_probability env origin (S[i := v]) t a = success_probability env origin S t a"
  by (simp add: success_probability_def)

lemma explained_update:
  assumes "explained env origin S n r" and "nat (timestep r) \<noteq> i"
  shows "explained env origin (S[i := v]) n r"
  using assms unfolding explained_def by (simp add: success_probability_update)

lemma lesson_applied_update:
  assumes "lesson_applied env S r" and "nat (timestep r) + 1 < i"
  shows "lesson_applied env (S[i := v]) r"
proof -
  from assms(1) obtain l where "l < length (emb_L (the_embedding env))"
    "module_id r = lesson_id_of env l" "1 \<le> timestep r" "nat (timestep r) + 1 < length S"
    "S ! (nat (timestep r) + 1) = vadd (S ! nat (timestep r)) (emb_L (the_embedding env) ! l)"
    unfolding lesson_applied_def by blast
  then show ?thesis
    unfolding lesson_applied_def using assms(2)
    by (intro exI [of _ l]) (simp add: nth_list_update_neq)
qed

lemma item_Some: "item xs i = Some x \<longleftrightarrow> i < length xs \<and> x = xs ! i"
  by (auto simp: item_def)

lemma sample_assessment_Some:
  assumes "sample_assessment env origin st = Some st'"
  shows "S_student st' = S_student st" and "t_now st' = t_now st"
    and "loc_x st' = loc_x st" and "loc_y st' = loc_y st"
    and "n_random st \<le> n_random st'"
    and "\<exists>r. rows st' = rows st @ [r] \<and> module_type r = Assessment
          \<and> timestep r = int (t_now st)
          \<and> (2 \<le> t_now st \<longrightarrow> explained env origin (S_student st) (n_random st') r)"
proof -
  let ?a = "randint env (n_randint st) num_assessments"
  from assms have t: "t_now st < length (S_student st)"
    and a: "?a < length (emb_A (the_embedding env))"
    by (auto simp: sample_assessment_def Let_def item_def split: if_splits bind_splits)
  show "S_student st' = S_student st" "t_now st' = t_now st"
    "loc_x st' = loc_x st" "loc_y st' = loc_y st" "n_random st \<le> n_random st'"
    using assms t a
    by (auto simp: sample_assessment_def Let_def item_def split: if_splits)
  show "\<exists>r. rows st' = rows st @ [r] \<and> module_type r = Assessment
          \<and> timestep r = int (t_now st)
          \<and> (2 \<le> t_now st \<longrightarrow> explained env origin (S_student st) (n_random st') r)"
  proof (cases "origin = ?a")
    case True
    define r where "r = assessment_row env st ?a (uniform env (n_random st + 1) < 1 / 10)"
    have st': "rows st' = rows st @ [r]" "n_random st' = n_random st + 2"
      using assms [symmetric] t a True
      by (simp_all add: sample_assessment_def Let_def item_def r_def assessment_row_def)
    have sp: "success_probability env origin (S_student st) (int (t_now st)) ?a = 1 / 10"
      if "2 \<le> t_now st"
      using True that by (simp add: success_probability_def)
    have "explained env origin (S_student st) (n_random st') r" if "2 \<le> t_now st"
      unfolding st' using t a that
      by (intro explainedI [of "n_random st + 1" _ ?a])
         (simp_all add: r_def assessment_row_def sp)
    then show ?thesis using st' by (auto simp: r_def assessment_row_def)
  next
    case False
    define r where "r = assessment_row env st ?a
          (uniform env (n_random st) < pass_likelihood (S_student st ! t_now st)
             (emb_A (the_embedding env) ! ?a))"
    have st': "rows st' = rows st @ [r]" "n_random st' = n_random st + 1"
      using assms [symmetric] t a False
      by (simp_all add: sample_assessment_def Let_def item_def r_def assessment_row_def)
    have sp: "success_probability env origin (S_student st) (int (t_now st)) ?a
        = pass_likelihood (S_student st ! t_now st) (emb_A (the_embedding env) ! ?a)"
      using False by (simp add: success_probability_def pass_likelihood_spec [of _ _ 0 0])
    have "explained env origin (S_student st) (n_random st') r" if "2 \<le> t_now st"
      unfolding st' using t a that
      by (intro explainedI [of "n_random st" _ ?a])
         (simp_all add: r_def assessment_row_def sp)
    then show ?thesis using st' by (auto simp: r_def assessment_row_def)
  qed
qed

lemma sample_assessment_inv:
  assumes inv: "sampler_inv env origin n0 st" and t: "2 \<le> t_now st"
    and s: "sample_assessment env origin st = Some st'"
  shows "sampler_inv env origin n0 st'"
proof -
  obtain r where r: "rows st' = rows st @ [r]" "module_type r = Assessment"
      "timestep r = int (t_now st)" "explained env origin (S_student st) (n_random st') r"
    using sample_assessment_Some(6) [OF s] t by blast
  have S: "S_student st' = S_student st" and tn: "t_now st' = t_now st"
    and n: "n_random st \<le> n_random st'"
    using sample_assessment_Some [OF s] by blast+
  have n0: "n0 \<le> length (rows st)" using inv by (simp add: sampler_inv_def)
  then have d: "drop n0 (rows st') = drop n0 (rows st) @ [r]" by (simp add: r(1))
  show ?thesis
    unfolding sampler_inv_def d S tn
    using inv r n n0 t
    by (auto simp: sampler_inv_def intro: explained_mono)
qed

lemma assessments_frame:
  assumes "assessments env origin n st = Some st'"
  shows "S_student st' = S_student st \<and> t_now st' = t_now st
       \<and> loc_x st' = loc_x st \<and> loc_y st' = loc_y st
       \<and> (\<exists>xs. rows st' = rows st @ xs)"
  using assms
proof (induction n arbitrary: st)
  case 0
  then show ?case by simp
next
  case (Suc n)
  then obtain st1 where 1: "sample_assessment env origin st = Some st1"
    and 2: "assessments env origin n st1 = Some st'"
    by (auto split: bind_splits)
  obtain r where "rows st1 = rows st @ [r]" using sample_assessment_Some(6) [OF 1] by blast
  then show ?case
    using Suc.IH [OF 2] sample_assessment_Some(1-4) [OF 1] by auto
qed

lemma assessments_inv:
  assumes "sampler_inv env origin n0 st" and "2 \<le> t_now st"
    and "assessments env origin n st = Some st'"
  shows "sampler_inv env origin n0 st'"
  using assms
proof (induction n arbitrary: st)
  case 0
  then show ?case by simp
next
  case (Suc n)
  then obtain st1 where 1: "sample_assessment env origin st = Some st1"
    and 2: "assessments env origin n st1 = Some st'"
    by (auto split: bind_splits)
  have "sampler_inv env origin n0 st1"
    using sample_assessment_inv [OF Suc.prems(1,2) 1] .
  moreover have "2 \<le> t_now st1"
    using sample_assessment_Some(2) [OF 1] Suc.prems(2) by simp
  ultimately show ?case using Suc.IH [OF _ _ 2] by blast
qed

lemma lesson_steps_Cons_Some:
  assumes "lesson_steps env origin (step # steps) st = Some st'"
  obtains lesson_idx st1 where
    "lesson_idx_of_loc (the_embedding env) (loc_x st, loc_y st, fst step, snd step)
       = Some lesson_idx"
    "lesson_idx < length (emb_L (the_embedding env))"
    "t_now st + 1 < length (S_student st)"
    "assessments env origin (per_step env) (after_lesson env step lesson_idx st) = Some st1"
    "lesson_steps env origin steps st1 = Some st'"
  using assms
  by (auto simp: Let_def item_def after_lesson_def split: bind_splits if_splits)

lemma after_lesson_inv:
  assumes inv: "sampler_inv env origin n0 st"
    and l: "lesson_idx < length (emb_L (the_embedding env))"
    and t: "t_now st + 1 < length (S_student st)"
  shows "sampler_inv env origin n0 (after_lesson env step lesson_idx st)"
proof -
  let ?S = "(S_student st)[t_now st + 1 :=
          vadd (S_student st ! t_now st) (emb_L (the_embedding env) ! lesson_idx)]"
  have n0: "n0 \<le> length (rows st)" and t1: "1 \<le> t_now st"
    using inv by (simp_all add: sampler_inv_def)
  have new: "lesson_applied env ?S (lesson_row env st lesson_idx)"
    unfolding lesson_applied_def using l t t1
    by (intro exI [of _ lesson_idx]) (simp add: lesson_row_def)
  have old: "(module_type r = Assessment \<longrightarrow>
           timestep r \<le> int (t_now st + 1) \<and> explained env origin ?S (n_random st) r) \<and>
        (module_type r = Lesson \<longrightarrow>
           timestep r < int (t_now st + 1) \<and> lesson_applied env ?S r)"
    if r: "r \<in> set (drop n0 (rows st))" for r
  proof (intro conjI impI)
    assume a: "module_type r = Assessment"
    then have le: "timestep r \<le> int (t_now st)"
      and e: "explained env origin (S_student st) (n_random st) r"
      using inv r by (auto simp: sampler_inv_def)
    show "timestep r \<le> int (t_now st + 1)" using le by simp
    have "nat (timestep r) \<noteq> t_now st + 1" using le by linarith
    then show "explained env origin ?S (n_random st) r" using e by (rule explained_update [rotated])
  next
    assume a: "module_type r = Lesson"
    then have le: "timestep r < int (t_now st)"
      and e: "lesson_applied env (S_student st) r"
      using inv r by (auto simp: sampler_inv_def)
    show "timestep r < int (t_now st + 1)" using le by simp
    have "nat (timestep r) + 1 < t_now st + 1" using le t1 by linarith
    then show "lesson_applied env ?S r" using e by (rule lesson_applied_update [rotated])
  qed
  have d: "drop n0 (rows st @ [lesson_row env st lesson_idx])
      = drop n0 (rows st) @ [lesson_row env st lesson_idx]"
    using n0 by simp
  show ?thesis
    unfolding sampler_inv_def after_lesson_def
    using old new n0 t1 d by (auto simp: lesson_row_def)
qed

lemma lesson_steps_inv:
  assumes "sampler_inv env origin n0 st"
    and "lesson_steps env origin steps st = Some st'"
  shows "sampler_inv env origin n0 st'"
  using assms
proof (induction steps arbitrary: st)
  case Nil
  then show ?case by simp
next
  case (Cons step steps)
  from Cons.prems(2) obtain lesson_idx st1 where
    l: "lesson_idx < length (emb_L (the_embedding env))"
    and t: "t_now st + 1 < length (S_student st)"
    and a: "assessments env origin (per_step env) (after_lesson env step lesson_idx st) = Some st1"
    and r: "lesson_steps env origin steps st1 = Some st'"
    by (rule lesson_steps_Cons_Some)
  have i: "sampler_inv env origin n0 (after_lesson env step lesson_idx st)"
    using after_lesson_inv [OF Cons.prems(1) l t] .
  have "1 \<le> t_now st" using Cons.prems(1) by (simp add: sampler_inv_def)
  then have "2 \<le> t_now (after_lesson env step lesson_idx st)"
    by (simp add: after_lesson_def)
  then have "sampler_inv env origin n0 st1" using assessments_inv [OF i _ a] by blast
  then show ?case using Cons.IH [OF _ r] by blast
qed

lemma lesson_steps_frame:
  assumes "lesson_steps env origin steps st = Some st'"
  shows "length (S_student st') = length (S_student st)
       \<and> (\<forall>i \<le> t_now st. S_student st' ! i = S_student st ! i)
       \<and> t_now st \<le> t_now st'
       \<and> (\<exists>xs. rows st' = rows st @ xs)"
  using assms
proof (induction steps arbitrary: st)
  case Nil
  then show ?case by simp
next
  case (Cons step steps)
  from Cons.prems obtain lesson_idx st1 where
    a: "assessments env origin (per_step env) (after_lesson env step lesson_idx st) = Some st1"
    and r: "lesson_steps env origin steps st1 = Some st'"
    by (rule lesson_steps_Cons_Some)
  have f: "S_student st1 = S_student (after_lesson env step lesson_idx st)"
    "t_now st1 = t_now st + 1"
    "\<exists>xs. rows st1 = rows st @ xs"
    using assessments_frame [OF a] by (auto simp: after_lesson_def)
  have "\<forall>i \<le> t_now st. S_student st1 ! i = S_student st ! i"
    by (simp add: f(1) after_lesson_def)
  moreover have "length (S_student st1) = length (S_student st)"
    by (simp add: f(1) after_lesson_def)
  ultimately show ?case
    using Cons.IH [OF r] f(2,3) by auto
qed

lemma first_assessment_inv:
  assumes "first_assessment env origin st = Some st'" and "t_now st = 1"
  shows "sampler_inv env origin (length (rows st)) st'"
    and "S_student st' = S_student st" and "t_now st' = 1"
    and "loc_x st' = loc_x st" and "loc_y st' = loc_y st"
proof -
  from assms(1) have t: "t_now st < length (S_student st)"
    and a: "origin < length (emb_A (the_embedding env))"
    by (auto simp: first_assessment_def Let_def item_def split: if_splits bind_splits)
  define r where "r = assessment_row env st origin
      (uniform env (n_random st) < pass_likelihood (S_student st ! t_now st)
         (emb_A (the_embedding env) ! origin))"
  have st': "rows st' = rows st @ [r]" "n_random st' = n_random st + 1"
    "S_student st' = S_student st" "t_now st' = t_now st"
    "loc_x st' = loc_x st" "loc_y st' = loc_y st"
    using assms(1) [symmetric] t a
    by (simp_all add: first_assessment_def Let_def item_def r_def)
  show "S_student st' = S_student st" "t_now st' = 1"
    "loc_x st' = loc_x st" "loc_y st' = loc_y st"
    using st' assms(2) by simp_all
  have sp: "success_probability env origin (S_student st) 1 origin
        = pass_likelihood (S_student st ! 1) (emb_A (the_embedding env) ! origin)"
    by (simp add: success_probability_def pass_likelihood_spec [of _ _ 0 0])
  have "explained env origin (S_student st) (n_random st + 1) r"
    using t a assms(2)
    by (intro explainedI [of "n_random st" _ origin])
       (simp_all add: r_def assessment_row_def sp)
  then show "sampler_inv env origin (length (rows st)) st'"
    unfolding sampler_inv_def st' using assms(2)
    by (simp add: r_def assessment_row_def)
qed

lemma sample_assessment_succeeds:
  assumes "t_now st < length (S_student st)" and "0 < num_assessments"
    and "num_assessments \<le> length (emb_A (the_embedding env))"
  shows "\<exists>st'. sample_assessment env origin st = Some st'"
proof -
  have "randint_raw env (n_randint st) mod num_assessments < num_assessments"
    using assms(2) by simp
  then have "randint env (n_randint st) num_assessments < length (emb_A (the_embedding env))"
    using assms(3) unfolding randint_def by (rule less_le_trans)
  then show ?thesis
    using assms(1) by (simp add: sample_assessment_def Let_def item_def split: prod.splits)
qed

lemma assessments_succeeds:
  assumes "t_now st < length (S_student st)" and "0 < num_assessments"
    and "num_assessments \<le> length (emb_A (the_embedding env))"
  shows "\<exists>st'. assessments env origin n st = Some st'"
  using assms(1)
proof (induction n arbitrary: st)
  case 0
  then show ?case by simp
next
  case (Suc n)
  obtain st1 where 1: "sample_assessment env origin st = Some st1"
    using sample_assessment_succeeds [OF Suc.prems assms(2,3)] by blast
  have "t_now st1 < length (S_student st1)"
    using sample_assessment_Some(1,2) [OF 1] Suc.prems by simp
  then show ?case using Suc.IH [of st1] 1 by simp
qed

lemma lesson_steps_succeeds:
  assumes "path_ok (the_embedding env) (loc_x st) (loc_y st) steps"
    and "t_now st + length steps < length (S_student st)"
    and "0 < num_assessments"
    and "num_assessments \<le> length (emb_A (the_embedding env))"
  shows "\<exists>st'. lesson_steps env origin steps st = Some st'"
  using assms(1,2)
proof (induction steps arbitrary: st)
  case Nil
  then show ?case by simp
next
  case (Cons step steps)
  from Cons.prems(1) obtain l where
    l: "lesson_idx_of_loc (the_embedding env) (loc_x st, loc_y st, fst step, snd step) = Some l"
    and ll: "l < length (emb_L (the_embedding env))"
    and p: "path_ok (the_embedding env) (loc_x st + fst step) (loc_y st + snd step) steps"
    by (auto split: option.splits)
  let ?st = "after_lesson env step l st"
  have t: "t_now ?st < length (S_student ?st)"
    using Cons.prems(2) by (simp add: after_lesson_def)
  obtain st1 where a: "assessments env origin (per_step env) ?st = Some st1"
    using assessments_succeeds [OF t assms(3,4)] by blast
  have f: "S_student st1 = S_student ?st" "t_now st1 = t_now ?st"
    "loc_x st1 = loc_x ?st" "loc_y st1 = loc_y ?st"
    using assessments_frame [OF a] by blast+
  have "path_ok (the_embedding env) (loc_x st1) (loc_y st1) steps"
    using p by (simp add: f after_lesson_def)
  moreover have "t_now st1 + length steps < length (S_student st1)"
    using Cons.prems(2) by (simp add: f after_lesson_def)
  ultimately obtain st' where r: "lesson_steps env origin steps st1 = Some st'"
    using Cons.IH by blast
  have "lesson_steps env origin (step # steps) st = Some st'"
    using l ll Cons.prems(2) a r
    by (simp add: Let_def item_def after_lesson_def)
  then show ?case by blast
qed

lemma sample_student_Some:
  assumes "sample_student env steps data k_random k_randint = Some st"
  obtains origin st1 where
    "assessment_idx_of_loc (the_embedding env) (0, 0) = Some origin"
    "first_assessment env origin
       \<lparr>S_student = zeros num_lesson_interactions_per_student embedding_dimension,
        loc_x = 0, loc_y = 0, t_now = 1, rows = data,
        n_random = k_random, n_randint = k_randint\<rparr> = Some st1"
    "lesson_steps env origin steps st1 = Some st"
  using assms by (auto simp: sample_student_def Let_def split: bind_splits)

lemma sample_student_succeeds:
  assumes "assessment_idx_of_loc (the_embedding env) (0, 0) = Some origin"
    and "origin < length (emb_A (the_embedding env))"
    and "path_ok (the_embedding env) 0 0 steps"
    and "1 + length steps < num_lesson_interactions_per_student"
    and "0 < num_assessments"
    and "num_assessments \<le> length (emb_A (the_embedding env))"
  shows "\<exists>st. sample_student env steps data k_random k_randint = Some st"
proof -
  let ?st0 = "\<lparr>S_student = zeros num_lesson_interactions_per_student embedding_dimension,
        loc_x = 0, loc_y = 0, t_now = 1, rows = data,
        n_random = k_random, n_randint = k_randint\<rparr>"
  have "\<exists>st1. first_assessment env origin ?st0 = Some st1"
    using assms(2,4) by (simp add: first_assessment_def Let_def item_def zeros_def)
  then obtain st1 where 1: "first_assessment env origin ?st0 = Some st1" by blast
  have f: "S_student st1 = S_student ?st0" "t_now st1 = 1" "loc_x st1 = 0" "loc_y st1 = 0"
    using first_assessment_inv(2-5) [OF 1] by simp_all
  have "\<exists>st. lesson_steps env origin steps st1 = Some st"
    using assms(3,4) by (intro lesson_steps_succeeds [OF _ _ assms(5,6)]) (simp_all add: f zeros_def)
  then show ?thesis using assms(1) 1 by (auto simp: sample_student_def Let_def)
qed

lemma draws_of_rows_append:
  "draws_of_rows env origin S c (xs @ ys)
   = draws_of_rows env origin S c xs \<bind> (\<lambda>c'. draws_of_rows env origin S c' ys)"
  by (induction xs arbitrary: c) simp_all

lemma draws_of_row_update:
  assumes "module_type r = Assessment \<longrightarrow> nat (timestep r) \<noteq> i"
  shows "draws_of_row env origin (S[i := v]) c r = draws_of_row env origin S c r"
proof (cases "module_type r")
  case Lesson
  then show ?thesis by (simp add: draws_of_row_def)
next
  case Assessment
  then have n: "nat (timestep r) \<noteq> i" using assms by simp
  have 1: "success_probability env origin (S[i := v]) (timestep r) a
      = success_probability env origin S (timestep r) a" for a
    using n by (rule success_probability_update)
  have 2: "success_probability env origin (S[i := v]) 1 origin
      = success_probability env origin S 1 origin" if "timestep r = 1"
    using 1 [of origin] that by simp
  show ?thesis
    unfolding draws_of_row_def Let_def
    by (cases "timestep r = 1") (simp_all add: 1 2)
qed

lemma draws_of_rows_update:
  assumes "\<forall>r \<in> set rs. module_type r = Assessment \<longrightarrow> nat (timestep r) \<noteq> i"
  shows "draws_of_rows env origin (S[i := v]) c rs = draws_of_rows env origin S c rs"
  using assms by (induction rs arbitrary: c) (simp_all add: draws_of_row_update)

lemma draws_of_row_origin:
  assumes "2 \<le> t" and "t < length S" and "randint env j num_assessments = origin"
    and "origin < length (emb_A (the_embedding env))"
    and "module_type r = Assessment" and "timestep r = int t"
    and "module_id r = assessment_id_of env origin"
    and "outcome r = Some (uniform env (k + 1) < 1 / 10)"
  shows "draws_of_row env origin S (k, j) r = Some (k + 2, j + 1)"
proof -
  have sp: "success_probability env origin S (timestep r) origin = 1 / 10"
    using assms(1,6) by (simp add: success_probability_def)
  have nt: "timestep r \<noteq> 1" "1 < timestep r" "nat (timestep r) < length S"
    using assms(1,2,6) by simp_all
  show ?thesis
    unfolding draws_of_row_def Let_def
    by (simp add: sp nt assms(3,4,5,7,8))
qed

lemma draws_of_row_loop:
  assumes "2 \<le> t" and "t < length S" and "a = randint env j num_assessments"
    and "a < length (emb_A (the_embedding env))"
    and "module_type r = Assessment" and "timestep r = int t"
    and "module_id r = assessment_id_of env a"
    and "outcome r = Some (if origin = a then uniform env (k + 1) < 1 / 10
           else uniform env k < pass_likelihood (S ! t) (emb_A (the_embedding env) ! a))"
  shows "draws_of_row env origin S (k, j) r = Some (k + (if origin = a then 2 else 1), j + 1)"
proof (cases "origin = a")
  case True
  have "draws_of_row env origin S (k, j) r = Some (k + 2, j + 1)"
  proof (rule draws_of_row_origin [OF assms(1,2) _ _ assms(5,6)])
    show "randint env j num_assessments = origin" using True assms(3) by simp
    show "origin < length (emb_A (the_embedding env))" using True assms(4) by simp
    show "module_id r = assessment_id_of env origin" using True assms(7) by simp
    show "outcome r = Some (uniform env (k + 1) < 1 / 10)"
      by (simp only: assms(8) True refl if_True)
  qed
  then show ?thesis by (simp only: True refl if_True)
next
  case False
  have ao: "randint env j num_assessments = a" using assms(3) by simp
  have sp: "success_probability env origin S (timestep r) a
      = pass_likelihood (S ! t) (emb_A (the_embedding env) ! a)"
    using False assms(6)
    by (simp add: success_probability_def pass_likelihood_spec [of _ _ 0 0])
  have o: "outcome r = Some (uniform env k
      < pass_likelihood (S ! t) (emb_A (the_embedding env) ! a))"
    using assms(8) False by simp
  have nt: "timestep r \<noteq> 1" "1 < timestep r" "nat (timestep r) < length S"
    using assms(1,2,6) by simp_all
  have ne: "a \<noteq> origin" using False by simp
  show ?thesis
    unfolding draws_of_row_def Let_def
    by (simp add: ao sp o nt ne False assms(4,5,7))
qed

lemma draws_of_row_first:
  assumes "1 < length S" and "origin < length (emb_A (the_embedding env))"
    and "module_type r = Assessment" and "timestep r = 1"
    and "module_id r = assessment_id_of env origin"
    and "outcome r = Some (uniform env k
           < pass_likelihood (S ! 1) (emb_A (the_embedding env) ! origin))"
  shows "draws_of_row env origin S (k, j) r = Some (k + 1, j)"
proof -
  have "success_probability env origin S 1 origin
      = pass_likelihood (S ! 1) (emb_A (the_embedding env) ! origin)"
    by (simp add: success_probability_def pass_likelihood_spec [of _ _ 0 0])
  then show ?thesis
    using assms by (simp add: draws_of_row_def Let_def)
qed

lemma sample_assessment_row:
  assumes "sample_assessment env origin st = Some st'"
  shows "t_now st < length (S_student st)"
    and "randint env (n_randint st) num_assessments < length (emb_A (the_embedding env))"
    and "rows st' = rows st @ [assessment_row env st (randint env (n_randint st) num_assessments)
          (if origin = randint env (n_randint st) num_assessments
           then uniform env (n_random st + 1) < 1 / 10
           else uniform env (n_random st)
                < pass_likelihood (S_student st ! t_now st)
                    (emb_A (the_embedding env) ! randint env (n_randint st) num_assessments))]"
    and "n_random st'
         = n_random st + (if origin = randint env (n_randint st) num_assessments then 2 else 1)"
    and "n_randint st' = n_randint st + 1"
proof -
  let ?a = "randint env (n_randint st) num_assessments"
  from assms show t: "t_now st < length (S_student st)"
    and a: "?a < length (emb_A (the_embedding env))"
    by (auto simp: sample_assessment_def Let_def item_def split: if_splits bind_splits)
  show "rows st' = rows st @ [assessment_row env st ?a
          (if origin = ?a then uniform env (n_random st + 1) < 1 / 10
           else uniform env (n_random st)
                < pass_likelihood (S_student st ! t_now st) (emb_A (the_embedding env) ! ?a))]"
    "n_random st' = n_random st + (if origin = ?a then 2 else 1)"
    "n_randint st' = n_randint st + 1"
    using assms [symmetric] t a
    by (cases "origin = ?a";
        simp add: sample_assessment_def Let_def item_def assessment_row_def)+
qed

lemma sample_assessment_replay:
  assumes inv: "replay_inv env origin n0 c0 st" and t: "2 \<le> t_now st"
    and s: "sample_assessment env origin st = Some st'"
  shows "replay_inv env origin n0 c0 st'"
proof -
  let ?a = "randint env (n_randint st) num_assessments"
  define r where "r = assessment_row env st ?a
          (if origin = ?a then uniform env (n_random st + 1) < 1 / 10
           else uniform env (n_random st)
                < pass_likelihood (S_student st ! t_now st) (emb_A (the_embedding env) ! ?a))"
  have f: "t_now st < length (S_student st)" "?a < length (emb_A (the_embedding env))"
    "rows st' = rows st @ [r]"
    "n_random st' = n_random st + (if origin = ?a then 2 else 1)"
    "n_randint st' = n_randint st + 1"
    using sample_assessment_row [OF s] unfolding r_def by blast+
  have S: "S_student st' = S_student st" and tn: "t_now st' = t_now st"
    using sample_assessment_Some(1,2) [OF s] by blast+
  have n0: "n0 \<le> length (rows st)" using inv by (simp add: replay_inv_def)
  then have d: "drop n0 (rows st') = drop n0 (rows st) @ [r]" by (simp add: f(3))
  have old: "draws_of_rows env origin (S_student st) c0 (drop n0 (rows st))
      = Some (n_random st, n_randint st)"
    using inv by (simp add: replay_inv_def)
  have new: "draws_of_row env origin (S_student st) (n_random st, n_randint st) r
      = Some (n_random st + (if origin = ?a then 2 else 1), n_randint st + 1)"
    by (rule draws_of_row_loop [OF t f(1) refl f(2)]) (simp_all add: r_def assessment_row_def)
  have "draws_of_rows env origin (S_student st) c0 (drop n0 (rows st) @ [r])
      = Some (n_random st', n_randint st')"
    by (simp only: draws_of_rows_append old new f(4,5) draws_of_rows.simps bind.bind_lunit
        bind.bind_lzero Option.bind.simps)
  moreover have "module_type r = Assessment" "timestep r = int (t_now st)"
    by (simp_all add: r_def assessment_row_def)
  ultimately show ?thesis
    unfolding replay_inv_def d S tn
    using inv n0 by (auto simp: replay_inv_def f(3))
qed

lemma assessments_replay:
  assumes "replay_inv env origin n0 c0 st" and "2 \<le> t_now st"
    and "assessments env origin n st = Some st'"
  shows "replay_inv env origin n0 c0 st'"
  using assms
proof (induction n arbitrary: st)
  case 0
  then show ?case by simp
next
  case (Suc n)
  then obtain st1 where 1: "sample_assessment env origin st = Some st1"
    and 2: "assessments env origin n st1 = Some st'"
    by (auto split: bind_splits)
  have "replay_inv env origin n0 c0 st1"
    using sample_assessment_replay [OF Suc.prems(1,2) 1] .
  moreover have "2 \<le> t_now st1"
    using sample_assessment_Some(2) [OF 1] Suc.prems(2) by simp
  ultimately show ?case using Suc.IH [OF _ _ 2] by blast
qed

lemma after_lesson_replay:
  assumes inv: "replay_inv env origin n0 c0 st"
  shows "replay_inv env origin n0 c0 (after_lesson env step lesson_idx st)"
proof -
  let ?S = "(S_student st)[t_now st + 1 :=
          vadd (S_student st ! t_now st) (emb_L (the_embedding env) ! lesson_idx)]"
  let ?l = "lesson_row env st lesson_idx"
  have n0: "n0 \<le> length (rows st)" and t1: "1 \<le> t_now st"
    and old: "draws_of_rows env origin (S_student st) c0 (drop n0 (rows st))
      = Some (n_random st, n_randint st)"
    and le: "\<forall>r \<in> set (drop n0 (rows st)). module_type r = Assessment \<longrightarrow> timestep r \<le> int (t_now st)"
    using inv by (simp_all add: replay_inv_def)
  have d: "drop n0 (rows st @ [?l]) = drop n0 (rows st) @ [?l]"
    using n0 by simp
  have ne: "\<forall>r \<in> set (drop n0 (rows st)). module_type r = Assessment \<longrightarrow>
      nat (timestep r) \<noteq> t_now st + 1"
    using le by fastforce
  have 1: "draws_of_rows env origin ?S c0 (drop n0 (rows st)) = Some (n_random st, n_randint st)"
    using draws_of_rows_update [OF ne] old by simp
  have 2: "draws_of_row env origin ?S (n_random st, n_randint st) ?l
      = Some (n_random st, n_randint st)"
    by (simp add: draws_of_row_def lesson_row_def)
  have 3: "draws_of_rows env origin ?S c0 (drop n0 (rows st) @ [?l])
      = Some (n_random st, n_randint st)"
    by (simp only: draws_of_rows_append 1 2 draws_of_rows.simps bind.bind_lunit
        bind.bind_lzero Option.bind.simps)
  have 4: "\<forall>r \<in> set (drop n0 (rows st) @ [?l]).
      module_type r = Assessment \<longrightarrow> timestep r \<le> int (t_now st + 1)"
    using le by (auto simp: lesson_row_def)
  show ?thesis
    unfolding replay_inv_def after_lesson_def
    using 3 4 n0 t1 d by simp
qed

lemma lesson_steps_replay:
  assumes "replay_inv env origin n0 c0 st"
    and "lesson_steps env origin steps st = Some st'"
  shows "replay_inv env origin n0 c0 st'"
  using assms
proof (induction steps arbitrary: st)
  case Nil
  then show ?case by simp
next
  case (Cons step steps)
  from Cons.prems(2) obtain lesson_idx st1 where
    a: "assessments env origin (per_step env) (after_lesson env step lesson_idx st) = Some st1"
    and r: "lesson_steps env origin steps st1 = Some st'"
    by (rule lesson_steps_Cons_Some)
  have i: "replay_inv env origin n0 c0 (after_lesson env step lesson_idx st)"
    using after_lesson_replay [OF Cons.prems(1)] .
  have "1 \<le> t_now st" using Cons.prems(1) by (simp add: replay_inv_def)
  then have "2 \<le> t_now (after_lesson env step lesson_idx st)"
    by (simp add: after_lesson_def)
  then have "replay_inv env origin n0 c0 st1" using assessments_replay [OF i _ a] by blast
  then show ?case using Cons.IH [OF _ r] by blast
qed

lemma first_assessment_row:
  assumes "first_assessment env origin st = Some st'"
  shows "t_now st < length (S_student st)" and "origin < length (emb_A (the_embedding env))"
    and "rows st' = rows st @ [assessment_row env st origin
          (uniform env (n_random st)
           < pass_likelihood (S_student st ! t_now st) (emb_A (the_embedding env) ! origin))]"
    and "n_random st' = n_random st + 1" and "n_randint st' = n_randint st"
proof -
  from assms show t: "t_now st < length (S_student st)"
    and a: "origin < length (emb_A (the_embedding env))"
    by (auto simp: first_assessment_def Let_def item_def split: if_splits bind_splits)
  show "rows st' = rows st @ [assessment_row env st origin
          (uniform env (n_random st)
           < pass_likelihood (S_student st ! t_now st) (emb_A (the_embedding env) ! origin))]"
     "n_random st' = n_random st + 1" "n_randint st' = n_randint st"
    using assms [symmetric] t a
    by (simp_all add: first_assessment_def Let_def item_def)
qed

lemma first_assessment_replay:
  assumes 1: "first_assessment env origin st = Some st'" and t: "t_now st = 1"
  shows "replay_inv env origin (length (rows st)) (n_random st, n_randint st) st'"
proof -
  define r where "r = assessment_row env st origin
      (uniform env (n_random st) < pass_likelihood (S_student st ! t_now st)
         (emb_A (the_embedding env) ! origin))"
  have f: "t_now st < length (S_student st)" "origin < length (emb_A (the_embedding env))"
    "rows st' = rows st @ [r]" "n_random st' = n_random st + 1" "n_randint st' = n_randint st"
    using first_assessment_row [OF 1] unfolding r_def by blast+
  have g: "S_student st' = S_student st" "t_now st' = 1"
    using first_assessment_inv(2,3) [OF 1 t] by blast+
  have x: "draws_of_row env origin (S_student st) (n_random st, n_randint st) r
      = Some (n_random st + 1, n_randint st)"
    using f(1,2) t by (intro draws_of_row_first) (simp_all add: r_def assessment_row_def)
  have d: "drop (length (rows st)) (rows st') = [r]" by (simp add: f(3))
  have m: "timestep r = 1" using t by (simp add: r_def assessment_row_def)
  have "draws_of_rows env origin (S_student st) (n_random st, n_randint st) [r]
      = Some (n_random st', n_randint st')"
    by (simp only: x f(4,5) draws_of_rows.simps bind.bind_lunit Option.bind.simps)
  then show ?thesis
    unfolding replay_inv_def d g
    by (simp add: f(3) m)
qed

text \<open>
  Claim C1, as the code has it. The pass probability of the embedding model is the
  sigmoid of the logit of the spec, with the two bias terms when bias is enabled and
  without them when it is disabled, and the pass likelihood of the sampling cell is that
  pass probability with bias disabled. When the cell has sampled a student, the rows it
  added for the student replay against the two random streams, from the numbers of calls
  made before the student to the numbers of calls made after: every assessment row is on
  the assessment the generator drew, and its outcome is the comparison of one designated
  uniform draw, used for no other row, with that pass probability at the skill state of
  the row's timestep, except for the assessment at the origin of the grid drawn inside
  the loop over the steps, whose outcome is the comparison of the designated draw with
  1/10.
\<close>

theorem generator_outcomes_replay:
  assumes "assessment_idx_of_loc (the_embedding env) (0, 0) = Some origin"
    and "sample_student env steps data k_random k_randint = Some st"
  shows "embedding_pass_probability_spec using_bias s a student_bias assessment_bias
      = sigmoid (dot s a / linalg_norm a - linalg_norm a
          + (if using_bias then student_bias + assessment_bias else 0))
    \<and> pass_likelihood s a = embedding_pass_probability_spec False s a student_bias assessment_bias
    \<and> draws_of_rows env origin (S_student st) (k_random, k_randint)
        (drop (length data) (rows st)) = Some (n_random st, n_randint st)"
proof -
  from assms(2) obtain origin' st1 where
    o: "assessment_idx_of_loc (the_embedding env) (0, 0) = Some origin'"
    and 1: "first_assessment env origin'
       \<lparr>S_student = zeros num_lesson_interactions_per_student embedding_dimension,
        loc_x = 0, loc_y = 0, t_now = 1, rows = data,
        n_random = k_random, n_randint = k_randint\<rparr> = Some st1"
    and 2: "lesson_steps env origin' steps st1 = Some st"
    by (rule sample_student_Some)
  have oo: "origin' = origin" using o assms(1) by simp
  have "replay_inv env origin (length data) (k_random, k_randint) st1"
    using first_assessment_replay [OF 1] by (simp add: oo)
  then have "replay_inv env origin (length data) (k_random, k_randint) st"
    using lesson_steps_replay 2 oo by blast
  moreover have "embedding_pass_probability_spec using_bias s a student_bias assessment_bias
      = sigmoid (dot s a / linalg_norm a - linalg_norm a
          + (if using_bias then student_bias + assessment_bias else 0))"
    by (simp add: embedding_pass_probability_spec_def embedding_logit_spec_def add.assoc)
  ultimately show ?thesis
    using pass_likelihood_spec [of s a] by (simp add: replay_inv_def)
qed

text \<open>
  The skill states of a sampled student: the states at the indices 0 and 1 are the zero
  vector, and for every lesson row added for the student the state after its timestep is
  the state at its timestep plus the embedding of the lesson.
\<close>

lemma generator_skill_recurrence:
  assumes "sample_student env steps data k_random k_randint = Some st"
  shows "S_student st ! 0 = replicate embedding_dimension 0
    \<and> S_student st ! 1 = replicate embedding_dimension 0
    \<and> (\<forall>r \<in> set (drop (length data) (rows st)).
         module_type r = Lesson \<longrightarrow> lesson_applied env (S_student st) r)"
proof -
  from assms obtain origin st1 where
    1: "first_assessment env origin
       \<lparr>S_student = zeros num_lesson_interactions_per_student embedding_dimension,
        loc_x = 0, loc_y = 0, t_now = 1, rows = data,
        n_random = k_random, n_randint = k_randint\<rparr> = Some st1"
    and 2: "lesson_steps env origin steps st1 = Some st"
    by (rule sample_student_Some)
  have f: "S_student st1 = zeros num_lesson_interactions_per_student embedding_dimension"
    "t_now st1 = 1"
    using first_assessment_inv(2,3) [OF 1] by simp_all
  have "sampler_inv env origin (length data) st1"
    using first_assessment_inv(1) [OF 1] by simp
  then have i: "sampler_inv env origin (length data) st"
    using lesson_steps_inv 2 by blast
  have "\<forall>i \<le> 1. S_student st ! i = S_student st1 ! i"
    using lesson_steps_frame [OF 2] f(2) by simp
  then have "S_student st ! 0 = replicate embedding_dimension 0"
    "S_student st ! 1 = replicate embedding_dimension 0"
    by (simp_all add: f zeros_def num_lesson_interactions_per_student_def grid_size_def)
  then show ?thesis using i by (simp add: sampler_inv_def)
qed

lemma synthetic_embedding_values:
  "assessment_idx_of_loc synthetic_embedding (0, 0) = Some 0"
  "lesson_idx_of_loc synthetic_embedding (0, 0, 0, Suc 0) = Some 0"
  "emb_L synthetic_embedding ! 0 = [0, 5 / 2]"
  "length (emb_L synthetic_embedding) = 40"
  "path_ok synthetic_embedding 0 0 debug_steps"
  by code_simp+

lemma first_assessment_rows:
  assumes "first_assessment env origin st = Some st'"
  shows "\<exists>r. rows st' = rows st @ [r]"
  using assms
  by (auto simp: first_assessment_def Let_def item_def split: if_splits bind_splits)

lemma sample_assessment_origin:
  assumes "sample_assessment env origin st = Some st'"
    and "randint env (n_randint st) num_assessments = origin"
  shows "rows st' = rows st @ [assessment_row env st origin (uniform env (n_random st + 1) < 1 / 10)]"
  using assms
  by (auto simp: sample_assessment_def Let_def item_def assessment_row_def
      split: if_splits bind_splits)

lemma origin_logit_positive:
  "1 / 2 < embedding_pass_probability_spec False [0, 5 / 2] [1 / 1000, 1 / 1000] 0 0"
proof -
  define n where "n = linalg_norm [1 / 1000, 1 / 1000]"
  have n2: "n * n = 2 / 1000000"
    unfolding n_def linalg_norm_def by simp
  have "(0::real) < 1 / 1000" by simp
  also have "\<dots> \<le> n"
    unfolding n_def by (rule linalg_norm_lower) simp_all
  finally have npos: "0 < n" .
  have d: "dot [0, 5 / 2] [1 / 1000, 1 / 1000] = 1 / 400"
    by (simp add: dot_def)
  have "1 / 400 / n - n = (1 / 400 - n * n) / n"
    using npos by (simp add: field_simps)
  also have "\<dots> > 0" using npos by (simp add: n2)
  finally have "0 < embedding_logit_spec [0, 5 / 2] [1 / 1000, 1 / 1000] 0 0"
    by (simp add: embedding_logit_spec_def d n_def)
  then have "1 / 2 < sigmoid (embedding_logit_spec [0, 5 / 2] [1 / 1000, 1 / 1000] 0 0)"
    by (rule sigmoid_gt_half)
  then show ?thesis
    by (simp only: embedding_pass_probability_spec_def if_False)
qed

lemma debug_run_facts:
  "sample_student debug_sampling debug_steps [] 0 0 = Some debug_run"
  "rows debug_run ! 2 = \<lparr>row_label = 2, student_id = 0, module_id = Inl 0,
      module_type = Assessment, outcome = Some False, timestep = 2,
      duration = None, timestamp = None\<rparr>"
  "2 < length (rows debug_run)"
  "S_student debug_run ! 2 = [0, 5 / 2]"
proof -
  have e: "the_embedding debug_sampling = synthetic_embedding"
    by (simp add: debug_sampling_def)
  have na: "num_assessments = 25" by (simp add: num_assessments_def grid_size_def)
  have nl: "num_lesson_interactions_per_student = 10"
    by (simp add: num_lesson_interactions_per_student_def grid_size_def)
  have len: "length debug_steps = 8" by (simp add: debug_steps_def)
  have "\<exists>st. sample_student debug_sampling debug_steps [] 0 0 = Some st"
    by (rule sample_student_succeeds [of _ 0])
       (simp_all add: e synthetic_embedding_values length_A na nl len)
  then obtain st where st: "sample_student debug_sampling debug_steps [] 0 0 = Some st"
    by blast
  then show run: "sample_student debug_sampling debug_steps [] 0 0 = Some debug_run"
    by (simp add: debug_run_def)
  have dr: "debug_run = st" using st by (simp add: debug_run_def)
  from st obtain origin st1 where
    o: "assessment_idx_of_loc (the_embedding debug_sampling) (0, 0) = Some origin"
    and 1: "first_assessment debug_sampling origin
       \<lparr>S_student = zeros num_lesson_interactions_per_student embedding_dimension,
        loc_x = 0, loc_y = 0, t_now = 1, rows = [],
        n_random = 0, n_randint = 0\<rparr> = Some st1"
    and 2: "lesson_steps debug_sampling origin debug_steps st1 = Some st"
    by (rule sample_student_Some)
  have origin: "origin = 0" using o by (simp add: e synthetic_embedding_values)
  have f1: "S_student st1 = zeros num_lesson_interactions_per_student embedding_dimension"
    "t_now st1 = 1" "loc_x st1 = 0" "loc_y st1 = 0"
    using first_assessment_inv(2-5) [OF 1] by simp_all
  obtain r0 where r0: "rows st1 = [r0]" using first_assessment_rows [OF 1] by auto
  from 2 obtain lesson_idx st2 where
    l: "lesson_idx_of_loc (the_embedding debug_sampling) (loc_x st1, loc_y st1, 0, 1)
         = Some lesson_idx"
    and a: "assessments debug_sampling origin (per_step debug_sampling)
         (after_lesson debug_sampling (0, 1) lesson_idx st1) = Some st2"
    and 3: "lesson_steps debug_sampling origin (tl debug_steps) st2 = Some st"
    unfolding debug_steps_def by (rule lesson_steps_Cons_Some) simp
  have lesson_idx: "lesson_idx = 0" using l by (simp add: e f1 synthetic_embedding_values)
  define X where "X = after_lesson debug_sampling (0, 1) 0 st1"
  have z: "zeros 10 2 ! Suc 0 = [0, 0]" by (simp add: zeros_def numeral_2_eq_2)
  have two: "Suc (Suc 0) = 2" by simp
  have "S_student X ! (t_now st1 + 1)
      = vadd (S_student st1 ! t_now st1) (emb_L (the_embedding debug_sampling) ! 0)"
    by (simp add: X_def after_lesson_def f1 nl zeros_def)
  then have SX: "S_student X ! 2 = [0, 5 / 2]"
    by (simp add: f1 nl embedding_dimension_def z e synthetic_embedding_values vadd_def two)
  have X: "rows X = [r0, lesson_row debug_sampling st1 0]" "t_now X = 2"
    "S_student X ! 2 = [0, 5 / 2]" "n_randint X = n_randint st1"
    using SX by (simp_all add: X_def after_lesson_def r0 f1)
  have "per_step debug_sampling = Suc 99"
    by (simp add: debug_sampling_def num_assessment_interactions_per_step_def)
  then have "assessments debug_sampling 0 (Suc 99) X = Some st2"
    using a by (simp only: origin lesson_idx X_def)
  then have "sample_assessment debug_sampling 0 X \<bind> assessments debug_sampling 0 99 = Some st2"
    by (simp only: assessments.simps)
  then obtain st3 where
    s: "sample_assessment debug_sampling 0 X = Some st3"
    and a': "assessments debug_sampling 0 99 st3 = Some st2"
    by (auto simp only: bind_eq_Some_conv)
  have "randint debug_sampling (n_randint X) num_assessments = 0"
    by (simp add: randint_def debug_sampling_def)
  then have rows3: "rows st3 = rows X @ [assessment_row debug_sampling X 0
       (uniform debug_sampling (n_random X + 1) < 1 / 10)]"
    using sample_assessment_origin [OF s] by simp
  have S3: "S_student st3 = S_student X" "t_now st3 = 2"
    using sample_assessment_Some(1,2) [OF s] X by simp_all
  obtain xs where S2: "S_student st2 = S_student X" "t_now st2 = 2" "rows st2 = rows st3 @ xs"
    using assessments_frame [OF a'] S3 by auto
  obtain ys where Sst: "S_student st ! 2 = S_student X ! 2" "rows st = rows st2 @ ys"
    using lesson_steps_frame [OF 3] S2 by auto
  have rows: "rows st = [r0, lesson_row debug_sampling st1 0,
      assessment_row debug_sampling X 0 (uniform debug_sampling (n_random X + 1) < 1 / 10)]
      @ xs @ ys"
    by (simp add: Sst S2 rows3 X)
  show "rows debug_run ! 2 = \<lparr>row_label = 2, student_id = 0, module_id = Inl 0,
      module_type = Assessment, outcome = Some False, timestep = 2,
      duration = None, timestamp = None\<rparr>"
    by (simp add: dr rows assessment_row_def X debug_sampling_def)
  show "2 < length (rows debug_run)" by (simp add: dr rows)
  show "S_student debug_run ! 2 = [0, 5 / 2]" by (simp add: dr Sst X)
qed

text \<open>
  Claim C1 as stated fails. In the run \<open>debug_run\<close> the third row is the first
  assessment after the first lesson; \<open>random.randint\<close> picks the assessment at the
  origin. Every uniform draw is one half and the pass probability of the embedding model
  at the skill state of timestep 2 is above one half, so a Bernoulli draw with that
  probability succeeds; the outcome of the row is false.
\<close>

theorem generator_origin_outcome_counterexample:
  "sample_student debug_sampling debug_steps [] 0 0 = Some debug_run
   \<and> module_type (rows debug_run ! 2) = Assessment
   \<and> module_id (rows debug_run ! 2) = assessment_id_of debug_sampling 0
   \<and> timestep (rows debug_run ! 2) = 2
   \<and> outcome (rows debug_run ! 2) = Some False
   \<and> uniform debug_sampling = (\<lambda>_. 1 / 2)
   \<and> 1 / 2 < embedding_pass_probability_spec False (S_student debug_run ! 2)
               (emb_A (the_embedding debug_sampling) ! 0) 0 0"
  using origin_logit_positive
  by (simp add: debug_run_facts) (simp add: debug_sampling_def A_origin)

lemma sigmoid_pos: "0 < sigmoid x"
  by (simp add: sigmoid_def add_pos_pos)

lemma sigmoid_less_one: "sigmoid x < 1"
  by (simp add: sigmoid_def add_pos_pos)

lemma run_skeleton:
  assumes e: "the_embedding env = synthetic_embedding"
    and p: "per_step env = num_assessment_interactions_per_step"
    and run: "sample_student env debug_steps [] 0 0 = Some st"
  shows "rows st ! 0 = \<lparr>row_label = 0, student_id = student_name env,
      module_id = assessment_id_of env 0, module_type = Assessment,
      outcome = Some (uniform env 0 < pass_likelihood [0, 0] (emb_A synthetic_embedding ! 0)),
      timestep = 1, duration = None, timestamp = None\<rparr>"
    and "rows st ! 2 = \<lparr>row_label = 2, student_id = student_name env,
      module_id = assessment_id_of env (randint env 0 num_assessments),
      module_type = Assessment,
      outcome = Some (if 0 = randint env 0 num_assessments then uniform env 2 < 1 / 10
        else uniform env 1 < pass_likelihood [0, 5 / 2]
               (emb_A synthetic_embedding ! randint env 0 num_assessments)),
      timestep = 2, duration = None, timestamp = None\<rparr>"
    and "2 < length (rows st)"
    and "S_student st ! 1 = [0, 0]" and "S_student st ! 2 = [0, 5 / 2]"
proof -
  let ?st0 = "\<lparr>S_student = zeros num_lesson_interactions_per_student embedding_dimension,
        loc_x = 0, loc_y = 0, t_now = 1, rows = [],
        n_random = 0, n_randint = 0\<rparr> :: ('a, 'b) sampler"
  have nl: "num_lesson_interactions_per_student = 10"
    by (simp add: num_lesson_interactions_per_student_def grid_size_def)
  from run obtain origin st1 where
    o: "assessment_idx_of_loc (the_embedding env) (0, 0) = Some origin"
    and 1: "first_assessment env origin ?st0 = Some st1"
    and 2: "lesson_steps env origin debug_steps st1 = Some st"
    by (rule sample_student_Some)
  have origin: "origin = 0" using o by (simp add: e synthetic_embedding_values)
  have f1: "S_student st1 = zeros num_lesson_interactions_per_student embedding_dimension"
    "t_now st1 = 1" "loc_x st1 = 0" "loc_y st1 = 0"
    using first_assessment_inv(2-5) [OF 1] by simp_all
  have z: "zeros 10 2 ! Suc 0 = [0, 0]" by (simp add: zeros_def numeral_2_eq_2)
  define r0 where "r0 = assessment_row env ?st0 0
      (uniform env 0 < pass_likelihood [0, 0] (emb_A synthetic_embedding ! 0))"
  have "rows st1 = rows ?st0 @ [assessment_row env ?st0 origin
          (uniform env (n_random ?st0)
           < pass_likelihood (S_student ?st0 ! t_now ?st0) (emb_A (the_embedding env) ! origin))]"
    and "n_random st1 = n_random ?st0 + 1" and "n_randint st1 = n_randint ?st0"
    using first_assessment_row(3-5) [OF 1] by blast+
  then have g1: "rows st1 = [r0]" "n_random st1 = 1" "n_randint st1 = 0"
    by (simp_all add: r0_def origin e nl embedding_dimension_def z)
  from 2 obtain lesson_idx st2 where
    l: "lesson_idx_of_loc (the_embedding env) (loc_x st1, loc_y st1, 0, 1)
         = Some lesson_idx"
    and a: "assessments env origin (per_step env)
         (after_lesson env (0, 1) lesson_idx st1) = Some st2"
    and 3: "lesson_steps env origin (tl debug_steps) st2 = Some st"
    unfolding debug_steps_def by (rule lesson_steps_Cons_Some) simp
  have lesson_idx: "lesson_idx = 0" using l by (simp add: e f1 synthetic_embedding_values)
  define X where "X = after_lesson env (0, 1) 0 st1"
  have two: "Suc (Suc 0) = 2" by simp
  have "S_student X ! (t_now st1 + 1)
      = vadd (S_student st1 ! t_now st1) (emb_L (the_embedding env) ! 0)"
    by (simp add: X_def after_lesson_def f1 nl zeros_def)
  then have SX: "S_student X ! 2 = [0, 5 / 2]"
    by (simp add: f1 nl embedding_dimension_def z e synthetic_embedding_values vadd_def two)
  have SX1: "S_student X ! 1 = [0, 0]"
    by (simp add: X_def after_lesson_def f1 nl embedding_dimension_def z)
  have X: "rows X = [r0, lesson_row env st1 0]" "t_now X = 2"
    "n_random X = 1" "n_randint X = 0"
    by (simp_all add: X_def after_lesson_def g1 f1)
  have "per_step env = Suc 99"
    by (simp add: p num_assessment_interactions_per_step_def)
  then have "assessments env 0 (Suc 99) X = Some st2"
    using a by (simp only: origin lesson_idx X_def)
  then have "sample_assessment env 0 X \<bind> assessments env 0 99 = Some st2"
    by (simp only: assessments.simps)
  then obtain st3 where
    s: "sample_assessment env 0 X = Some st3"
    and a': "assessments env 0 99 st3 = Some st2"
    by (auto simp only: bind_eq_Some_conv)
  define r2 where "r2 = assessment_row env X (randint env 0 num_assessments)
          (if 0 = randint env 0 num_assessments then uniform env 2 < 1 / 10
           else uniform env 1 < pass_likelihood [0, 5 / 2]
                  (emb_A synthetic_embedding ! randint env 0 num_assessments))"
  have "rows st3 = rows X @ [assessment_row env X (randint env (n_randint X) num_assessments)
          (if 0 = randint env (n_randint X) num_assessments
           then uniform env (n_random X + 1) < 1 / 10
           else uniform env (n_random X)
                < pass_likelihood (S_student X ! t_now X)
                    (emb_A (the_embedding env) ! randint env (n_randint X) num_assessments))]"
    using sample_assessment_row(3) [OF s] .
  then have rows3: "rows st3 = rows X @ [r2]"
    by (simp only: X SX e r2_def one_add_one)
  have S3: "S_student st3 = S_student X" "t_now st3 = 2"
    using sample_assessment_Some(1,2) [OF s] X by simp_all
  obtain xs where S2: "S_student st2 = S_student X" "t_now st2 = 2" "rows st2 = rows st3 @ xs"
    using assessments_frame [OF a'] S3 by auto
  obtain ys where Sst: "S_student st ! 2 = S_student X ! 2" "S_student st ! 1 = S_student X ! 1"
      "rows st = rows st2 @ ys"
    using lesson_steps_frame [OF 3] S2 by auto
  have rows: "rows st = [r0, lesson_row env st1 0, r2] @ xs @ ys"
    by (simp add: Sst S2 rows3 X)
  show "rows st ! 0 = \<lparr>row_label = 0, student_id = student_name env,
      module_id = assessment_id_of env 0, module_type = Assessment,
      outcome = Some (uniform env 0 < pass_likelihood [0, 0] (emb_A synthetic_embedding ! 0)),
      timestep = 1, duration = None, timestamp = None\<rparr>"
    by (simp add: rows r0_def assessment_row_def)
  show "rows st ! 2 = \<lparr>row_label = 2, student_id = student_name env,
      module_id = assessment_id_of env (randint env 0 num_assessments),
      module_type = Assessment,
      outcome = Some (if 0 = randint env 0 num_assessments then uniform env 2 < 1 / 10
        else uniform env 1 < pass_likelihood [0, 5 / 2]
               (emb_A synthetic_embedding ! randint env 0 num_assessments)),
      timestep = 2, duration = None, timestamp = None\<rparr>"
    by (simp add: rows r2_def assessment_row_def X)
  show "2 < length (rows st)" by (simp add: rows)
  show "S_student st ! 1 = [0, 0]" by (simp only: Sst SX1)
  show "S_student st ! 2 = [0, 5 / 2]" by (simp only: Sst SX)
qed

lemma plain_run_returns:
  "sample_student plain_sampling debug_steps [] 0 0 = Some plain_run"
proof -
  have e: "the_embedding plain_sampling = synthetic_embedding"
    by (simp add: plain_sampling_def)
  have na: "num_assessments = 25" by (simp add: num_assessments_def grid_size_def)
  have nl: "num_lesson_interactions_per_student = 10"
    by (simp add: num_lesson_interactions_per_student_def grid_size_def)
  have len: "length debug_steps = 8" by (simp add: debug_steps_def)
  have "\<exists>st. sample_student plain_sampling debug_steps [] 0 0 = Some st"
    by (rule sample_student_succeeds [of _ 0])
       (simp_all add: e synthetic_embedding_values length_A na nl len)
  then show ?thesis by (auto simp: plain_run_def)
qed

text \<open>
  The amended claim C1 on two runs of the cell. In \<open>debug_run\<close> the first row is the
  assessment at timestep 1, whose outcome is the comparison of the first uniform draw with
  the pass probability of the embedding model, and the third row is an assessment at the
  origin inside the loop, whose outcome is the comparison of the third uniform draw with
  1/10. In \<open>plain_run\<close> the third row is on assessment 1 and its outcome is the
  comparison of the second uniform draw with the pass probability at the skill state of
  timestep 2: it is a pass, as only that draw is below the pass probability.
\<close>

theorem generator_outcomes_replay_witness:
  "assessment_idx_of_loc (the_embedding debug_sampling) (0, 0) = Some 0
   \<and> sample_student debug_sampling debug_steps [] 0 0 = Some debug_run
   \<and> draws_of_rows debug_sampling 0 (S_student debug_run) (0, 0)
        (drop (length ([] :: (nat, nat + nat) frame)) (rows debug_run))
      = Some (n_random debug_run, n_randint debug_run)
   \<and> module_type (rows debug_run ! 0) = Assessment
   \<and> timestep (rows debug_run ! 0) = 1
   \<and> module_id (rows debug_run ! 0) = assessment_id_of debug_sampling 0
   \<and> outcome (rows debug_run ! 0)
      = Some (uniform debug_sampling 0
          < embedding_pass_probability_spec False (S_student debug_run ! 1)
              (emb_A (the_embedding debug_sampling) ! 0) 0 0)
   \<and> module_type (rows debug_run ! 2) = Assessment
   \<and> timestep (rows debug_run ! 2) = 2
   \<and> module_id (rows debug_run ! 2) = assessment_id_of debug_sampling 0
   \<and> outcome (rows debug_run ! 2) = Some (uniform debug_sampling 2 < 1 / 10)
   \<and> assessment_idx_of_loc (the_embedding plain_sampling) (0, 0) = Some 0
   \<and> sample_student plain_sampling debug_steps [] 0 0 = Some plain_run
   \<and> draws_of_rows plain_sampling 0 (S_student plain_run) (0, 0)
        (drop (length ([] :: (nat, nat + nat) frame)) (rows plain_run))
      = Some (n_random plain_run, n_randint plain_run)
   \<and> module_type (rows plain_run ! 2) = Assessment
   \<and> timestep (rows plain_run ! 2) = 2
   \<and> module_id (rows plain_run ! 2) = assessment_id_of plain_sampling 1
   \<and> outcome (rows plain_run ! 2)
      = Some (uniform plain_sampling 1
          < embedding_pass_probability_spec False (S_student plain_run ! 2)
              (emb_A (the_embedding plain_sampling) ! 1) 0 0)
   \<and> outcome (rows plain_run ! 2) = Some True
   \<and> outcome (rows plain_run ! 0) = Some False"
proof -
  have ed: "the_embedding debug_sampling = synthetic_embedding"
    and pd: "per_step debug_sampling = num_assessment_interactions_per_step"
    and rd: "randint debug_sampling 0 num_assessments = 0"
    by (simp_all add: debug_sampling_def randint_def)
  have ep: "the_embedding plain_sampling = synthetic_embedding"
    and pp: "per_step plain_sampling = num_assessment_interactions_per_step"
    and rp: "randint plain_sampling 0 num_assessments = 1"
    and up: "uniform plain_sampling 1 = 0" "uniform plain_sampling 0 = 1"
    by (simp_all add: plain_sampling_def randint_def num_assessments_def grid_size_def)
  have od: "assessment_idx_of_loc (the_embedding debug_sampling) (0, 0) = Some 0"
    by (simp add: ed synthetic_embedding_values)
  have op: "assessment_idx_of_loc (the_embedding plain_sampling) (0, 0) = Some 0"
    by (simp add: ep synthetic_embedding_values)
  note run_d = debug_run_facts(1)
  note run_p = plain_run_returns
  note sd = run_skeleton [OF ed pd run_d]
  note sp = run_skeleton [OF ep pp run_p]
  have d: "draws_of_rows debug_sampling 0 (S_student debug_run) (0, 0)
        (drop (length ([] :: (nat, nat + nat) frame)) (rows debug_run))
      = Some (n_random debug_run, n_randint debug_run)"
    using generator_outcomes_replay [OF od run_d, of False "[]" "[]" 0 0] by blast
  have p: "draws_of_rows plain_sampling 0 (S_student plain_run) (0, 0)
        (drop (length ([] :: (nat, nat + nat) frame)) (rows plain_run))
      = Some (n_random plain_run, n_randint plain_run)"
    using generator_outcomes_replay [OF op run_p, of False "[]" "[]" 0 0] by blast
  have d0: "module_type (rows debug_run ! 0) = Assessment"
    "timestep (rows debug_run ! 0) = 1"
    "module_id (rows debug_run ! 0) = assessment_id_of debug_sampling 0"
    "outcome (rows debug_run ! 0)
      = Some (uniform debug_sampling 0
          < embedding_pass_probability_spec False (S_student debug_run ! 1)
              (emb_A (the_embedding debug_sampling) ! 0) 0 0)"
    by (simp_all only: sd(1,4) ed ixn.simps pass_likelihood_spec [of _ _ 0 0])
  have d2: "module_type (rows debug_run ! 2) = Assessment"
    "timestep (rows debug_run ! 2) = 2"
    "module_id (rows debug_run ! 2) = assessment_id_of debug_sampling 0"
    "outcome (rows debug_run ! 2) = Some (uniform debug_sampling 2 < 1 / 10)"
    by (simp_all only: sd(2) rd ixn.simps refl if_True)
  have ne: "(0::nat) \<noteq> 1" by simp
  have p2: "module_type (rows plain_run ! 2) = Assessment"
    "timestep (rows plain_run ! 2) = 2"
    "module_id (rows plain_run ! 2) = assessment_id_of plain_sampling 1"
    "outcome (rows plain_run ! 2)
      = Some (uniform plain_sampling 1
          < embedding_pass_probability_spec False (S_student plain_run ! 2)
              (emb_A (the_embedding plain_sampling) ! 1) 0 0)"
    by (simp_all only: sp(2,5) rp ep ixn.simps ne if_False pass_likelihood_spec [of _ _ 0 0])
  have t: "outcome (rows plain_run ! 2) = Some True"
    unfolding p2(4) up embedding_pass_probability_spec_def
    using sigmoid_pos by simp
  have f: "outcome (rows plain_run ! 0) = Some False"
    unfolding sp(1) up pass_likelihood_spec [of _ _ 0 0] embedding_pass_probability_spec_def
    using sigmoid_less_one [THEN less_imp_not_less] by simp
  show ?thesis
    using od run_d d d0 d2 op run_p p p2 t f by blast
qed

lemma right_lessons_defined:
  "\<forall>x \<in> set [0..<5]. \<forall>y \<in> set [0..<4].
     (case lesson_idx_of_loc synthetic_embedding (x, y, 0, 1) of
        None \<Rightarrow> False | Some l \<Rightarrow> l < length (emb_L synthetic_embedding))"
  by code_simp

lemma up_lessons_defined:
  "\<forall>x \<in> set [0..<4]. \<forall>y \<in> set [0..<5].
     (case lesson_idx_of_loc synthetic_embedding (x, y, 1, 0) of
        None \<Rightarrow> False | Some l \<Rightarrow> l < length (emb_L synthetic_embedding))"
  by code_simp

lemma path_ok_grid:
  assumes "set steps \<subseteq> {(0, 1), (1, 0)}"
    and "x + length (filter (\<lambda>s. s = (1, 0)) steps) \<le> 4"
    and "y + length (filter (\<lambda>s. s = (0, 1)) steps) \<le> 4"
  shows "path_ok synthetic_embedding x y steps"
  using assms
proof (induction steps arbitrary: x y)
  case Nil
  then show ?case by simp
next
  case (Cons step steps)
  from Cons.prems(1) consider "step = (0, 1)" | "step = (1, 0)" by auto
  then show ?case
  proof cases
    case 1
    then have xy: "x \<in> set [0..<5]" "y \<in> set [0..<4]" using Cons.prems(2,3) by auto
    obtain l where l: "lesson_idx_of_loc synthetic_embedding (x, y, 0, 1) = Some l"
      "l < length (emb_L synthetic_embedding)"
      using right_lessons_defined xy by (fastforce split: option.splits)
    have "path_ok synthetic_embedding (x + 0) (y + 1) steps"
      using Cons.prems 1 by (intro Cons.IH) auto
    then show ?thesis using 1 l by simp
  next
    case 2
    then have xy: "x \<in> set [0..<4]" "y \<in> set [0..<5]" using Cons.prems(2,3) by auto
    obtain l where l: "lesson_idx_of_loc synthetic_embedding (x, y, 1, 0) = Some l"
      "l < length (emb_L synthetic_embedding)"
      using up_lessons_defined xy by (fastforce split: option.splits)
    have "path_ok synthetic_embedding (x + 1) (y + 0) steps"
      using Cons.prems 2 by (intro Cons.IH) auto
    then show ?thesis using 2 l by simp
  qed
qed

text \<open>
  The sampling cell returns for every student of the notebook: on the synthetic embedding
  and for every order in which \<open>random.shuffle\<close> can leave the steps, no lookup
  fails and no index is out of range.
\<close>

lemma sample_student_returns:
  assumes "the_embedding env = synthetic_embedding" and "mset steps = mset unshuffled_steps"
  shows "\<exists>st. sample_student env steps data k_random k_randint = Some st"
proof -
  have c: "length (filter P steps) = length (filter P unshuffled_steps)" for P
  proof -
    have "length (filter P steps) = size (filter_mset P (mset steps))"
      by (simp flip: mset_filter)
    also have "\<dots> = size (filter_mset P (mset unshuffled_steps))" by (simp only: assms(2))
    also have "\<dots> = length (filter P unshuffled_steps)" by (simp flip: mset_filter)
    finally show ?thesis .
  qed
  have "set steps = set unshuffled_steps" using assms(2) by (rule mset_eq_setD)
  then have s: "set steps \<subseteq> {(0, 1), (1, 0)}"
    by (auto simp: unshuffled_steps_def grid_size_def)
  have len: "length steps = 8"
    using c [of "\<lambda>_. True"] by (simp add: unshuffled_steps_def grid_size_def)
  have p: "path_ok synthetic_embedding 0 0 steps"
    using s by (rule path_ok_grid) (simp_all add: c unshuffled_steps_def grid_size_def)
  have na: "num_assessments = 25" by (simp add: num_assessments_def grid_size_def)
  have nl: "num_lesson_interactions_per_student = 10"
    by (simp add: num_lesson_interactions_per_student_def grid_size_def)
  show ?thesis
    by (rule sample_student_succeeds [of _ 0])
       (simp_all add: assms(1) synthetic_embedding_values length_A na nl len p)
qed

end
